theory Spec2Isabelle
  imports Main "HOL-Library.AList"
begin

section \<open>JSON values and the JavaScript conversions applied to them\<close>

text \<open>
  A parsed response body is a JSON value. Numbers are modelled by their integer value
  (the numbers of the remote service are integers in the range where a double is exact);
  strings are lists of 8-bit characters. An object lists each of its own properties once.
\<close>

datatype json =
    JNull
  | JBool bool
  | JNum int
  | JStr string
  | JArr "json list"
  | JObj "(string \<times> json) list"

text \<open>JavaScript truthiness: \<open>null\<close>, \<open>false\<close>, \<open>0\<close> and the empty
  string are falsy, every array and object is truthy. A missing property
  (\<open>undefined\<close>) is \<open>None\<close>.\<close>

fun truthy :: "json \<Rightarrow> bool" where
  "truthy JNull = False"
| "truthy (JBool b) = b"
| "truthy (JNum n) = (n \<noteq> 0)"
| "truthy (JStr s) = (s \<noteq> [])"
| "truthy (JArr xs) = True"
| "truthy (JObj kvs) = True"

fun truthy_opt :: "json option \<Rightarrow> bool" where
  "truthy_opt None = False"
| "truthy_opt (Some v) = truthy v"

text \<open>Errors thrown by the program and by the language.\<close>

datatype error =
    HttpStatusError nat    \<comment> \<open>\<open>Request failed with status code ...\<close>\<close>
  | NetworkError string    \<comment> \<open>the request's \<open>error\<close> event\<close>
  | TimeoutError string    \<comment> \<open>\<open>Request timeout for ...\<close>\<close>
  | SyntaxError string     \<comment> \<open>thrown by \<open>JSON.parse\<close>\<close>
  | TypeError              \<comment> \<open>a property read on \<open>null\<close> or \<open>undefined\<close>, a call of a
                               non-function, a failed conversion to a primitive\<close>

definition bind_e :: "error + 'a \<Rightarrow> ('a \<Rightarrow> error + 'b) \<Rightarrow> error + 'b" where
  "bind_e m f = (case m of Inl e \<Rightarrow> Inl e | Inr x \<Rightarrow> f x)"

definition digit_char :: "nat \<Rightarrow> char" where
  "digit_char d = ''0123456789'' ! d"

fun digits :: "nat \<Rightarrow> string" where
  "digits n = (if n < 10 then [digit_char n] else digits (n div 10) @ [digit_char (n mod 10)])"

declare digits.simps [simp del]

text \<open>
  \<open>ToString\<close> of a value, as a template literal and \<open>parseInt\<close> apply it. A number is
  written with all its digits (as JavaScript does below \<open>10^21\<close>; from there on it uses
  the exponent form, which is outside the model). An array is
  the comma-joined list of its elements (\<open>null\<close> elements as the empty string). An object
  is \<open>[object Object]\<close>, by the \<open>toString\<close> it inherits; a parsed object that has an own
  property \<open>toString\<close> (never a function) cannot be converted: \<open>TypeError\<close>.
\<close>

fun ToString :: "json \<Rightarrow> error + string"
  and join_elements :: "json list \<Rightarrow> error + string" where
  "ToString JNull = Inr ''null''"
| "ToString (JBool b) = Inr (if b then ''true'' else ''false'')"
| "ToString (JNum n) = Inr (if n < 0 then CHR ''-'' # digits (nat (- n)) else digits (nat n))"
| "ToString (JStr s) = Inr s"
| "ToString (JArr xs) = join_elements xs"
| "ToString (JObj kvs) =
     (if map_of kvs ''toString'' = None then Inr ''[object Object]'' else Inl TypeError)"
| "join_elements [] = Inr []"
| "join_elements (x # xs) =
     bind_e (if x = JNull then Inr [] else ToString x) (\<lambda>s.
     bind_e (join_elements xs) (\<lambda>t.
     Inr (if xs = [] then s else s @ '','' @ t)))"

fun ToString_opt :: "json option \<Rightarrow> error + string" where
  "ToString_opt None = Inr ''undefined''"
| "ToString_opt (Some v) = ToString v"

subsection \<open>\<open>parseInt\<close>\<close>

text \<open>
  \<open>parseInt(x)\<close> with no radix: \<open>ToString x\<close>, leading white space skipped, an optional
  sign, an optional \<open>0x\<close> prefix (radix 16), then the longest run of digits; \<open>NaN\<close>
  (\<open>None\<close>) when that run is empty. The result is compared with integer constants only,
  so the exact integer stands for the number. White space is what JavaScript takes for
  it among the 8-bit characters: tab, line feed, vertical tab, form feed, carriage
  return, space and no-break space.
\<close>

definition is_space :: "char \<Rightarrow> bool" where
  "is_space c =
     (c \<in> set [CHR 0x09, CHR 0x0A, CHR 0x0B, CHR 0x0C, CHR 0x0D, CHR 0x20, CHR 0xA0])"

definition digit_value :: "char \<Rightarrow> nat option" where
  "digit_value c =
     (let n = of_char c :: nat in
      if 48 \<le> n \<and> n \<le> 57 then Some (n - 48)
      else if 97 \<le> n \<and> n \<le> 102 then Some (n - 87)
      else if 65 \<le> n \<and> n \<le> 70 then Some (n - 55)
      else None)"

definition is_digit :: "nat \<Rightarrow> char \<Rightarrow> bool" where
  "is_digit radix c = (case digit_value c of None \<Rightarrow> False | Some d \<Rightarrow> d < radix)"

definition digits_value :: "nat \<Rightarrow> string \<Rightarrow> int" where
  "digits_value radix ds =
     foldl (\<lambda>a c. a * int radix + (case digit_value c of Some d \<Rightarrow> int d | None \<Rightarrow> 0)) 0 ds"

definition parseInt_string :: "string \<Rightarrow> int option" where
  "parseInt_string s =
     (let s1 = dropWhile is_space s;
          neg = (s1 \<noteq> [] \<and> hd s1 = CHR ''-'');
          s2 = (if s1 \<noteq> [] \<and> (hd s1 = CHR ''-'' \<or> hd s1 = CHR ''+'') then tl s1 else s1);
          hex = (take 2 s2 = ''0x'' \<or> take 2 s2 = ''0X'');
          radix = (if hex then 16 else 10);
          s3 = (if hex then drop 2 s2 else s2);
          ds = takeWhile (is_digit radix) s3
      in if ds = [] then None
         else Some ((if neg then - 1 else 1) * digits_value radix ds))"

definition parseInt :: "json option \<Rightarrow> error + int option" where
  "parseInt x = bind_e (ToString_opt x) (\<lambda>s. Inr (parseInt_string s))"

subsection \<open>Property reads\<close>

text \<open>
  \<open>v.k\<close> on a value that is neither \<open>null\<close> nor \<open>undefined\<close>, for the property
  names the program uses (identifiers, none of them a member of a built-in prototype
  other than \<open>length\<close>): an object gives its own property, an array and a string give
  their \<open>length\<close>, everything else gives \<open>undefined\<close>.
\<close>

fun get :: "json \<Rightarrow> string \<Rightarrow> json option" where
  "get (JObj kvs) k = map_of kvs k"
| "get (JArr xs) k = (if k = ''length'' then Some (JNum (int (length xs))) else None)"
| "get (JStr s) k = (if k = ''length'' then Some (JNum (int (length s))) else None)"
| "get v k = None"


text \<open>\<open>v.k\<close> in general: a \<open>TypeError\<close> on \<open>null\<close> and \<open>undefined\<close>.\<close>

definition property_e :: "json option \<Rightarrow> string \<Rightarrow> error + json option" where
  "property_e v k = (case v of None \<Rightarrow> Inl TypeError
                     | Some JNull \<Rightarrow> Inl TypeError
                     | Some w \<Rightarrow> Inr (get w k))"

section \<open>Program state, host environment and effects\<close>

text \<open>The fetcher registers three callbacks on a request. The first one that the
  runtime invokes settles the promise of the call:\<close>

datatype response =
    Failed string          \<comment> \<open>\<open>error\<close> event, with its message\<close>
  | TimedOut               \<comment> \<open>the timeout callback\<close>
  | Responded nat string   \<comment> \<open>status code and the whole body\<close>

text \<open>The other callbacks stay registered: the timeout is never cleared, and a response
  that is rejected for its status is never read, so that its socket stays idle until
  the timeout. The runtime may therefore invoke the timeout or the error callback of a
  request after the promise was settled; the call of \<open>reject\<close> then has no effect, the
  rest of the callback has.\<close>

datatype callback =
    ErrorCallback string     \<comment> \<open>\<open>error\<close> event, with its message\<close>
  | TimeoutCallback string   \<comment> \<open>the timeout of the request for this path\<close>

text \<open>What \<open>apiCache[resourcePath]\<close> evaluates to: \<open>undefined\<close>, a member that the
  cache object inherits from \<open>Object.prototype\<close>, or a reference to a parsed value.\<close>

datatype jsval = Undefined | Inherited string | Ref nat

datatype step = Character | Starships | Planets | Films | Vehicle

text \<open>Ghost events, recorded to state which calls a run makes: a call of \<open>fetchFromApi\<close>
  settles with a value (\<open>None\<close>) or an error; a display function is called.\<close>

datatype event = Fetched string "error option" | Display step

text \<open>Console output: the arguments of each \<open>console.log\<close> and \<open>console.error\<close> call
  (their rendering is the console's).\<close>

datatype arg = Txt string | Val "json option" | Num nat | Msg error

datatype line = Log "arg list" | Err "arg list"

text \<open>
  The module's globals. Every value produced by \<open>JSON.parse\<close> lives in one cell of
  \<open>heap\<close>, and the cache and the local variables of a run hold its reference, as the
  JavaScript objects are shared. \<open>requests\<close> (the paths requested from the network, in
  order) and \<open>trace\<close> are ghost fields. \<open>pending\<close> is the part of the event loop that
  matters here: the callbacks of settled requests that the runtime has still to invoke.
\<close>

record state =
  apiCache :: "(string \<times> nat) list"
  heap :: "nat \<Rightarrow> json"
  next_ref :: nat
  isDebugMode :: bool
  errorCount :: nat
  lastCharacterId :: nat
  apiCallCount :: nat
  totalDataSize :: nat
  console :: "line list"
  requests :: "string list"
  trace :: "event list"
  pending :: "callback list"

text \<open>
  The built-ins of the language and the remote service, which are not code of the
  repository, are parameters: \<open>JSON.parse\<close> (\<open>Inl\<close> the message of its \<open>SyntaxError\<close>),
  \<open>JSON.stringify\<close>, the time value of the date a string denotes (\<open>None\<close> for an
  invalid date), the comparison \<open>s > 0\<close> for a string \<open>s\<close>, the answer of the
  network to the \<open>n\<close>-th request of the process, and the callbacks of that request which
  the runtime invokes after the promise was settled, unless the program has read the
  response to its end (which releases the socket).
\<close>

record host =
  JSON_parse :: "string \<Rightarrow> string + json"
  JSON_stringify :: "json \<Rightarrow> string"
  Date_parse :: "string \<Rightarrow> int option"
  String_gt_zero :: "string \<Rightarrow> bool"
  remote :: "nat \<Rightarrow> string \<Rightarrow> response"
  afterwards :: "nat \<Rightarrow> callback list"

definition HTTP_ERROR_THRESHOLD :: nat where "HTTP_ERROR_THRESHOLD = 400"
definition MAX_STARSHIPS_DISPLAYED :: nat where "MAX_STARSHIPS_DISPLAYED = 3"
definition MIN_POPULATION :: int where "MIN_POPULATION = 1000000000"
definition MIN_DIAMETER :: int where "MIN_DIAMETER = 10000"
definition MAX_VEHICLE_CHARACTER_ID :: nat where "MAX_VEHICLE_CHARACTER_ID = 4"

definition initial_state :: state where
  "initial_state =
     \<lparr> apiCache = [], heap = (\<lambda>r. JNull), next_ref = 0, isDebugMode = True, errorCount = 0,
       lastCharacterId = 1, apiCallCount = 0, totalDataSize = 0, console = [],
       requests = [], trace = [], pending = [] \<rparr>"

subsection \<open>Statements that may throw\<close>

text \<open>A computation takes the state and gives the state it leaves, with either its
  value or the error it threw; what was done before a throw stays done.\<close>

type_synonym 'a js = "state \<Rightarrow> (error + 'a) \<times> state"

definition unit_js :: "'a \<Rightarrow> 'a js" where
  "unit_js x = (\<lambda>s. (Inr x, s))"

definition throw_js :: "error \<Rightarrow> 'a js" where
  "throw_js e = (\<lambda>s. (Inl e, s))"

definition bind_js :: "'a js \<Rightarrow> ('a \<Rightarrow> 'b js) \<Rightarrow> 'b js" where
  "bind_js m f = (\<lambda>s. case m s of (Inl e, s') \<Rightarrow> (Inl e, s') | (Inr x, s') \<Rightarrow> f x s')"

definition then_js :: "unit js \<Rightarrow> 'b js \<Rightarrow> 'b js" where
  "then_js m n = bind_js m (\<lambda>_. n)"

definition try_js :: "'a js \<Rightarrow> (error \<Rightarrow> 'a js) \<Rightarrow> 'a js" where
  "try_js m handler = (\<lambda>s. case m s of (Inl e, s') \<Rightarrow> handler e s' | (Inr x, s') \<Rightarrow> (Inr x, s'))"

definition read_js :: "(state \<Rightarrow> 'a) \<Rightarrow> 'a js" where
  "read_js f = (\<lambda>s. (Inr (f s), s))"

definition update_js :: "(state \<Rightarrow> state) \<Rightarrow> unit js" where
  "update_js f = (\<lambda>s. (Inr (), f s))"

definition ghost :: "event \<Rightarrow> unit js" where
  "ghost ev = update_js (\<lambda>s. s\<lparr>trace := trace s @ [ev]\<rparr>)"

definition console_log :: "arg list \<Rightarrow> unit js" where
  "console_log args = update_js (\<lambda>s. s\<lparr>console := console s @ [Log args]\<rparr>)"

definition console_error :: "arg list \<Rightarrow> unit js" where
  "console_error args = update_js (\<lambda>s. s\<lparr>console := console s @ [Err args]\<rparr>)"

definition logDebug :: "arg list \<Rightarrow> unit js" where
  "logDebug args = bind_js (read_js isDebugMode) (\<lambda>dbg. if dbg then console_log args else unit_js ())"

definition increment_errorCount :: "unit js" where
  "increment_errorCount = update_js (\<lambda>s. s\<lparr>errorCount := errorCount s + 1\<rparr>)"

definition lift_js :: "error + 'a \<Rightarrow> 'a js" where
  "lift_js m = (\<lambda>s. (m, s))"

definition property :: "json option \<Rightarrow> string \<Rightarrow> json option js" where
  "property v k = lift_js (property_e v k)"

section \<open>The cache and the fetcher\<close>

definition Object_prototype_members :: "string list" where
  "Object_prototype_members =
     [''constructor'', ''__defineGetter__'', ''__defineSetter__'', ''hasOwnProperty'',
      ''__lookupGetter__'', ''__lookupSetter__'', ''isPrototypeOf'', ''propertyIsEnumerable'',
      ''toString'', ''valueOf'', ''__proto__'', ''toLocaleString'']"

text \<open>\<open>apiCache[resourcePath]\<close>: \<open>apiCache\<close> is a plain object, so a read finds the own
  property, else what \<open>Object.prototype\<close> has under that name, else \<open>undefined\<close>.\<close>

definition cache_read :: "state \<Rightarrow> string \<Rightarrow> jsval" where
  "cache_read s resourcePath =
     (case map_of (apiCache s) resourcePath of
        Some r \<Rightarrow> Ref r
      | None \<Rightarrow> if resourcePath \<in> set Object_prototype_members then Inherited resourcePath
                else Undefined)"

definition truthy_val :: "state \<Rightarrow> jsval \<Rightarrow> bool" where
  "truthy_val s v = (case v of Undefined \<Rightarrow> False | Inherited m \<Rightarrow> True | Ref r \<Rightarrow> truthy (heap s r))"

definition isCached :: "state \<Rightarrow> string \<Rightarrow> bool" where
  "isCached s resourcePath = truthy_val s (cache_read s resourcePath)"

definition getCachedData :: "string \<Rightarrow> jsval js" where
  "getCachedData resourcePath =
     then_js (logDebug [Txt ''Using cached data for'', Txt resourcePath])
             (read_js (\<lambda>s. cache_read s resourcePath))"

text \<open>\<open>apiCache[resourcePath] = data\<close> replaces the value of an own property and adds
  the property when there is none. (It is reached only after \<open>isCached\<close> was false, hence
  never for an inherited name.)\<close>

definition cacheData :: "string \<Rightarrow> nat \<Rightarrow> unit js" where
  "cacheData resourcePath data =
     then_js (update_js (\<lambda>s. s\<lparr>apiCache := AList.update resourcePath data (apiCache s)\<rparr>))
    (then_js (logDebug [Txt (''Successfully fetched data for '' @ resourcePath)])
    (bind_js (read_js (\<lambda>s. length (apiCache s))) (\<lambda>n.
             logDebug [Txt (''Cache size: '' @ digits n)])))"

text \<open>Settling the promise of one \<open>fetchFromApi\<close> call.\<close>

definition resolve :: "string \<Rightarrow> jsval \<Rightarrow> jsval js" where
  "resolve resourcePath v = then_js (ghost (Fetched resourcePath None)) (unit_js v)"

definition reject :: "string \<Rightarrow> error \<Rightarrow> 'a js" where
  "reject resourcePath e = then_js (ghost (Fetched resourcePath (Some e))) (throw_js e)"

definition handleResponseStatus :: "string \<Rightarrow> nat \<Rightarrow> unit js" where
  "handleResponseStatus resourcePath statusCode =
     (if statusCode \<ge> HTTP_ERROR_THRESHOLD
      then then_js increment_errorCount (reject resourcePath (HttpStatusError statusCode))
      else unit_js ())"

text \<open>\<open>JSON.parse\<close> creates a new value: a fresh cell.\<close>

definition allocate :: "json \<Rightarrow> nat js" where
  "allocate v = (\<lambda>s. (Inr (next_ref s),
                       s\<lparr>heap := (heap s)(next_ref s := v), next_ref := next_ref s + 1\<rparr>))"

definition parseResponseData :: "host \<Rightarrow> string \<Rightarrow> string \<Rightarrow> jsval js" where
  "parseResponseData h responseData resourcePath =
     (case JSON_parse h responseData of
        Inr v \<Rightarrow>
          bind_js (allocate v) (\<lambda>parsedData.
          then_js (cacheData resourcePath parsedData)
                  (resolve resourcePath (Ref parsedData)))
      | Inl msg \<Rightarrow>
          then_js increment_errorCount (reject resourcePath (SyntaxError msg)))"

text \<open>The two callbacks that \<open>createRequest\<close> registers on the request, with what
  \<open>reject\<close> does when they run. \<open>request.abort()\<close> changes nothing of the program's
  state; an \<open>error\<close> event that the runtime emits for it is one of the later callbacks.\<close>

definition request_abort :: "unit js" where
  "request_abort = unit_js ()"

definition on_error :: "(error \<Rightarrow> 'a js) \<Rightarrow> string \<Rightarrow> 'a js" where
  "on_error rejecting msg = then_js increment_errorCount (rejecting (NetworkError msg))"

definition on_timeout :: "(error \<Rightarrow> 'a js) \<Rightarrow> string \<Rightarrow> 'a js" where
  "on_timeout rejecting resourcePath =
     then_js request_abort
    (then_js increment_errorCount (rejecting (TimeoutError resourcePath)))"

text \<open>The request: the answer of the network that settles the promise, and the
  callbacks that follow unless the response is read.\<close>

definition https_get :: "host \<Rightarrow> string \<Rightarrow> (response \<times> callback list) js" where
  "https_get h resourcePath =
     (\<lambda>s. (Inr (remote h (length (requests s)) resourcePath, afterwards h (length (requests s))),
            s\<lparr>requests := requests s @ [resourcePath]\<rparr>))"

definition leave :: "callback list \<Rightarrow> unit js" where
  "leave later = update_js (\<lambda>s. s\<lparr>pending := pending s @ later\<rparr>)"

text \<open>The response callback returns at once when \<open>handleResponseStatus\<close> has rejected:
  no listener is attached and the response is left unread. Otherwise the body is read
  to its end and parsed.\<close>

definition createRequest :: "host \<Rightarrow> string \<Rightarrow> jsval js" where
  "createRequest h resourcePath =
     bind_js (https_get h resourcePath) (\<lambda>(outcome, later).
       case outcome of
         Responded statusCode responseData \<Rightarrow>
           then_js (if statusCode \<ge> HTTP_ERROR_THRESHOLD then leave later else unit_js ())
          (then_js (handleResponseStatus resourcePath statusCode)
                   (parseResponseData h responseData resourcePath))
       | Failed msg \<Rightarrow>
           then_js (leave later) (on_error (reject resourcePath) msg)
       | TimedOut \<Rightarrow>
           then_js (leave later) (on_timeout (reject resourcePath) resourcePath))"

definition fetchFromApi :: "host \<Rightarrow> string \<Rightarrow> jsval js" where
  "fetchFromApi h resourcePath =
     bind_js (read_js (\<lambda>s. isCached s resourcePath)) (\<lambda>cached.
       if cached then bind_js (getCachedData resourcePath) (resolve resourcePath)
       else createRequest h resourcePath)"

text \<open>A callback that the runtime invokes when the promise of its request is already
  settled: \<open>reject\<close> does nothing then. The event loop takes one pending callback at a
  time; the process is idle when all of them have run.\<close>

definition settled :: "error \<Rightarrow> unit js" where
  "settled e = unit_js ()"

fun invoke :: "callback \<Rightarrow> unit js" where
  "invoke (ErrorCallback msg) = on_error settled msg"
| "invoke (TimeoutCallback resourcePath) = on_timeout settled resourcePath"

definition event_loop_turn :: "callback \<Rightarrow> unit js" where
  "event_loop_turn c =
     then_js (update_js (\<lambda>s. s\<lparr>pending := remove1 c (pending s)\<rparr>)) (invoke c)"

definition idle :: "state \<Rightarrow> state" where
  "idle s = fold (\<lambda>c t. snd (invoke c t)) (pending s) (s\<lparr>pending := []\<rparr>)"


section \<open>The display functions\<close>

definition nl :: string where
  "nl = [CHR 0x0A]"

definition deref :: "nat \<Rightarrow> json option js" where
  "deref r = read_js (\<lambda>s. Some (heap s r))"

text \<open>\<open>x > 0\<close>: the operand is converted to a number; \<open>undefined\<close> and anything that
  converts to \<open>NaN\<close> compare false, an array or object is converted through its string.\<close>

definition js_gt_zero :: "host \<Rightarrow> json option \<Rightarrow> error + bool" where
  "js_gt_zero h x =
     (case x of
        None \<Rightarrow> Inr False
      | Some JNull \<Rightarrow> Inr False
      | Some (JBool b) \<Rightarrow> Inr b
      | Some (JNum n) \<Rightarrow> Inr (n > 0)
      | Some (JStr s) \<Rightarrow> Inr (String_gt_zero h s)
      | Some v \<Rightarrow> bind_e (ToString v) (\<lambda>s. Inr (String_gt_zero h s)))"

text \<open>\<open>x.length\<close> where \<open>x\<close> is known not to be \<open>null\<close> or \<open>undefined\<close>, and
  \<open>x?.length\<close>.\<close>

definition length_of :: "json option \<Rightarrow> json option" where
  "length_of x = (case x of None \<Rightarrow> None | Some JNull \<Rightarrow> None | Some w \<Rightarrow> get w ''length'')"

text \<open>The receiver of \<open>slice\<close>, \<open>forEach\<close> and \<open>sort\<close>: only an array has these methods
  (a string has \<open>slice\<close>, but its result has no \<open>forEach\<close>).\<close>

definition as_array :: "json option \<Rightarrow> json list js" where
  "as_array x = (case x of Some (JArr xs) \<Rightarrow> unit_js xs | _ \<Rightarrow> throw_js TypeError)"

fun forEach_from :: "('a \<Rightarrow> nat \<Rightarrow> unit js) \<Rightarrow> nat \<Rightarrow> 'a list \<Rightarrow> unit js" where
  "forEach_from f index [] = unit_js ()"
| "forEach_from f index (x # xs) = then_js (f x index) (forEach_from f (Suc index) xs)"

definition forEach :: "('a \<Rightarrow> nat \<Rightarrow> unit js) \<Rightarrow> 'a list \<Rightarrow> unit js" where
  "forEach f xs = forEach_from f 0 xs"

definition printCharacterData :: "host \<Rightarrow> nat \<Rightarrow> unit js" where
  "printCharacterData h r =
     bind_js (deref r) (\<lambda>characterData.
     bind_js (property characterData ''name'') (\<lambda>name.
     then_js (console_log [Txt ''Character:'', Val name])
    (bind_js (property characterData ''height'') (\<lambda>height.
     then_js (console_log [Txt ''Height:'', Val height])
    (bind_js (property characterData ''mass'') (\<lambda>mass.
     then_js (console_log [Txt ''Mass:'', Val mass])
    (bind_js (property characterData ''birth_year'') (\<lambda>birth_year.
     then_js (console_log [Txt ''Birthday:'', Val birth_year])
    (bind_js (property characterData ''films'') (\<lambda>films.
     bind_js (lift_js (if truthy_opt films then js_gt_zero h (length_of films) else Inr False))
       (\<lambda>has_films.
         if has_films then console_log [Txt ''Appears in'', Val (length_of films), Txt ''films'']
         else unit_js ())))))))))))"

definition printStarship :: "host \<Rightarrow> json \<Rightarrow> nat \<Rightarrow> unit js" where
  "printStarship h starship index =
     then_js (console_log [Txt (nl @ ''Starship '' @ digits (index + 1) @ '':'')])
    (bind_js (property (Some starship) ''name'') (\<lambda>name.
     then_js (console_log [Txt ''Name:'', Val name])
    (bind_js (property (Some starship) ''model'') (\<lambda>model.
     then_js (console_log [Txt ''Model:'', Val model])
    (bind_js (property (Some starship) ''manufacturer'') (\<lambda>manufacturer.
     then_js (console_log [Txt ''Manufacturer:'', Val manufacturer])
    (bind_js (property (Some starship) ''cost_in_credits'') (\<lambda>cost.
     bind_js (lift_js (if cost \<noteq> Some (JStr ''unknown'')
                       then bind_e (ToString_opt cost) (\<lambda>c. Inr (c @ '' credits''))
                       else Inr ''unknown'')) (\<lambda>cost_text.
     then_js (console_log [Txt ''Cost:'', Txt cost_text])
    (bind_js (property (Some starship) ''max_atmosphering_speed'') (\<lambda>speed.
     then_js (console_log [Txt ''Speed:'', Val speed])
    (bind_js (property (Some starship) ''hyperdrive_rating'') (\<lambda>rating.
     then_js (console_log [Txt ''Hyperdrive Rating:'', Val rating])
    (bind_js (property (Some starship) ''pilots'') (\<lambda>pilots.
     bind_js (lift_js (if truthy_opt pilots then js_gt_zero h (length_of pilots) else Inr False))
       (\<lambda>has_pilots.
         if has_pilots then console_log [Txt ''Pilots:'', Val (length_of pilots)]
         else unit_js ()))))))))))))))))"

definition printStarshipData :: "host \<Rightarrow> nat \<Rightarrow> unit js" where
  "printStarshipData h r =
     bind_js (deref r) (\<lambda>starshipsData.
     bind_js (property starshipsData ''count'') (\<lambda>count.
     then_js (console_log [Txt (nl @ ''Total Starships:''), Val count])
    (bind_js (property starshipsData ''results'') (\<lambda>results.
     bind_js (as_array results) (\<lambda>starships.
     forEach (printStarship h) (take MAX_STARSHIPS_DISPLAYED starships))))))"

definition isLargeAndPopulated :: "json \<Rightarrow> bool js" where
  "isLargeAndPopulated planet =
     bind_js (property (Some planet) ''population'') (\<lambda>planet_population.
     bind_js (lift_js (parseInt planet_population)) (\<lambda>population.
     bind_js (property (Some planet) ''diameter'') (\<lambda>planet_diameter.
     bind_js (lift_js (parseInt planet_diameter)) (\<lambda>diameter.
     unit_js (planet_population \<noteq> Some (JStr ''unknown'') \<and>
              (case population of None \<Rightarrow> False | Some n \<Rightarrow> n > MIN_POPULATION) \<and>
              planet_diameter \<noteq> Some (JStr ''unknown'') \<and>
              (case diameter of None \<Rightarrow> False | Some n \<Rightarrow> n > MIN_DIAMETER))))))"

definition printPlanetDetails :: "host \<Rightarrow> json \<Rightarrow> unit js" where
  "printPlanetDetails h planet =
     bind_js (property (Some planet) ''name'') (\<lambda>name.
     bind_js (property (Some planet) ''population'') (\<lambda>population.
     bind_js (property (Some planet) ''diameter'') (\<lambda>diameter.
     bind_js (property (Some planet) ''climate'') (\<lambda>climate.
     then_js (console_log [Val name, Txt ''- Pop:'', Val population, Txt ''- Diameter:'', Val diameter,
                           Txt ''- Climate:'', Val climate])
    (bind_js (property (Some planet) ''films'') (\<lambda>films.
     bind_js (lift_js (js_gt_zero h (length_of films))) (\<lambda>has_films.
       if has_films
       then bind_js (lift_js (ToString_opt (length_of films))) (\<lambda>n.
              console_log [Txt (''  Appears in '' @ n @ '' films'')])
       else unit_js ())))))))"

definition printPlanet :: "host \<Rightarrow> json \<Rightarrow> nat \<Rightarrow> unit js" where
  "printPlanet h planet index =
     bind_js (isLargeAndPopulated planet) (\<lambda>large.
       if large then printPlanetDetails h planet else unit_js ())"

definition printLargePlanets :: "host \<Rightarrow> nat \<Rightarrow> unit js" where
  "printLargePlanets h r =
     bind_js (deref r) (\<lambda>planetsData.
     then_js (console_log [Txt (nl @ ''Large populated planets:'')])
    (bind_js (property planetsData ''results'') (\<lambda>results.
     bind_js (as_array results) (\<lambda>planets.
     forEach (printPlanet h) planets))))"

subsection \<open>Films: the comparator and \<open>Array.prototype.sort\<close>\<close>

text \<open>The time value of \<open>new Date(x)\<close>, \<open>None\<close> for an invalid date: \<open>undefined\<close> is
  invalid, a number (also \<open>null\<close> and a boolean, as numbers) is the time value when it is
  in the range of dates, a string is parsed, an array or object is converted to a string
  first.\<close>

definition Date_value :: "host \<Rightarrow> json option \<Rightarrow> error + int option" where
  "Date_value h x =
     (case x of
        None \<Rightarrow> Inr None
      | Some JNull \<Rightarrow> Inr (Some 0)
      | Some (JBool b) \<Rightarrow> Inr (Some (if b then 1 else 0))
      | Some (JNum n) \<Rightarrow> Inr (if \<bar>n\<bar> \<le> 8640000000000000 then Some n else None)
      | Some (JStr s) \<Rightarrow> Inr (Date_parse h s)
      | Some v \<Rightarrow> bind_e (ToString v) (\<lambda>s. Inr (Date_parse h s)))"

text \<open>\<open>(filmA, filmB) => new Date(filmA.release_date) - new Date(filmB.release_date)\<close>;
  the difference is \<open>NaN\<close> (\<open>None\<close>) when either date is invalid.\<close>

definition compare_release_dates :: "host \<Rightarrow> json \<Rightarrow> json \<Rightarrow> error + int option" where
  "compare_release_dates h filmA filmB =
     bind_e (property_e (Some filmA) ''release_date'') (\<lambda>release_a.
     bind_e (Date_value h release_a) (\<lambda>date_a.
     bind_e (property_e (Some filmB) ''release_date'') (\<lambda>release_b.
     bind_e (Date_value h release_b) (\<lambda>date_b.
     Inr (case (date_a, date_b) of (Some a, Some b) \<Rightarrow> Some (a - b) | _ \<Rightarrow> None)))))"

text \<open>
  \<open>Array.prototype.sort\<close> with a comparator is a stable sort: \<open>a\<close> comes after \<open>b\<close> only
  when the comparator gives a positive number for \<open>(a, b)\<close>; \<open>NaN\<close> counts as zero. The
  language leaves the sequence of comparator calls to the implementation; for a
  comparator that is a consistent order the result is the same whatever the sequence,
  and it is the one of the insertion sort below. For a comparator that is not (here:
  when a release date is not a date) the language leaves the order itself to the
  implementation, and the insertion sort gives one permitted order, which need not be
  the engine's; it is the engine's when no comparison of two neighbours is negative,
  as the engine then takes the array for one ascending run and leaves it as it is. An
  array of fewer than two elements is not compared at all. A comparator call that
  throws ends the sort with that error.
\<close>

fun insert_sorted :: "('a \<Rightarrow> 'a \<Rightarrow> error + int option) \<Rightarrow> 'a \<Rightarrow> 'a list \<Rightarrow> error + 'a list" where
  "insert_sorted cmp x [] = Inr [x]"
| "insert_sorted cmp x (y # ys) =
     bind_e (cmp x y) (\<lambda>c.
       if (case c of Some d \<Rightarrow> d > 0 | None \<Rightarrow> False)
       then bind_e (insert_sorted cmp x ys) (\<lambda>zs. Inr (y # zs))
       else Inr (x # y # ys))"

fun Array_sort :: "('a \<Rightarrow> 'a \<Rightarrow> error + int option) \<Rightarrow> 'a list \<Rightarrow> error + 'a list" where
  "Array_sort cmp [] = Inr []"
| "Array_sort cmp (x # xs) = bind_e (Array_sort cmp xs) (insert_sorted cmp x)"

text \<open>The sort is in place: the array that is the \<open>results\<close> property of the object in
  cell \<open>r\<close> gets the sorted elements. (When the sort throws, the array is as before.)\<close>

definition store_results :: "nat \<Rightarrow> json list \<Rightarrow> unit js" where
  "store_results r sortedFilms =
     update_js (\<lambda>s. s\<lparr>heap := (heap s)(r :=
        (case heap s r of JObj kvs \<Rightarrow> JObj (AList.update ''results'' (JArr sortedFilms) kvs)
         | v \<Rightarrow> v))\<rparr>)"

definition printFilm :: "json \<Rightarrow> nat \<Rightarrow> unit js" where
  "printFilm film index =
     bind_js (property (Some film) ''title'') (\<lambda>title.
     bind_js (lift_js (ToString_opt title)) (\<lambda>title_text.
     bind_js (property (Some film) ''release_date'') (\<lambda>release_date.
     bind_js (lift_js (ToString_opt release_date)) (\<lambda>release_text.
     then_js (console_log [Txt (digits (index + 1) @ ''. '' @ title_text @ '' ('' @ release_text @ '')'')])
    (bind_js (property (Some film) ''director'') (\<lambda>director.
     bind_js (lift_js (ToString_opt director)) (\<lambda>director_text.
     then_js (console_log [Txt (''   Director: '' @ director_text)])
    (bind_js (property (Some film) ''producer'') (\<lambda>producer.
     bind_js (lift_js (ToString_opt producer)) (\<lambda>producer_text.
     then_js (console_log [Txt (''   Producer: '' @ producer_text)])
    (bind_js (property (Some film) ''characters'') (\<lambda>characters.
     bind_js (property characters ''length'') (\<lambda>characters_length.
     bind_js (lift_js (ToString_opt characters_length)) (\<lambda>characters_text.
     then_js (console_log [Txt (''   Characters: '' @ characters_text)])
    (bind_js (property (Some film) ''planets'') (\<lambda>planets.
     bind_js (property planets ''length'') (\<lambda>planets_length.
     bind_js (lift_js (ToString_opt planets_length)) (\<lambda>planets_text.
     console_log [Txt (''   Planets: '' @ planets_text)]))))))))))))))))))"

definition printFilmsData :: "host \<Rightarrow> nat \<Rightarrow> unit js" where
  "printFilmsData h r =
     bind_js (deref r) (\<lambda>filmsData.
     bind_js (property filmsData ''results'') (\<lambda>results.
     bind_js (as_array results) (\<lambda>films.
     bind_js (lift_js (Array_sort (compare_release_dates h) films)) (\<lambda>sortedFilms.
     then_js (store_results r sortedFilms)
    (then_js (console_log [Txt (nl @ ''Star Wars Films in chronological order:'')])
    (forEach printFilm sortedFilms))))))"

definition printVehicleData :: "host \<Rightarrow> nat \<Rightarrow> unit js" where
  "printVehicleData h r =
     bind_js (deref r) (\<lambda>vehicleData.
     then_js (console_log [Txt (nl @ ''Featured Vehicle:'')])
    (bind_js (property vehicleData ''name'') (\<lambda>name.
     then_js (console_log [Txt ''Name:'', Val name])
    (bind_js (property vehicleData ''model'') (\<lambda>model.
     then_js (console_log [Txt ''Model:'', Val model])
    (bind_js (property vehicleData ''manufacturer'') (\<lambda>manufacturer.
     then_js (console_log [Txt ''Manufacturer:'', Val manufacturer])
    (bind_js (property vehicleData ''cost_in_credits'') (\<lambda>cost.
     then_js (console_log [Txt ''Cost:'', Val cost, Txt ''credits''])
    (bind_js (property vehicleData ''length'') (\<lambda>len.
     then_js (console_log [Txt ''Length:'', Val len])
    (bind_js (property vehicleData ''crew'') (\<lambda>crew.
     then_js (console_log [Txt ''Crew Required:'', Val crew])
    (bind_js (property vehicleData ''passengers'') (\<lambda>passengers.
     console_log [Txt ''Passengers:'', Val passengers])))))))))))))))"

definition printStats :: "unit js" where
  "printStats =
     then_js (logDebug [Txt (nl @ ''Stats:'')])
    (bind_js (read_js apiCallCount) (\<lambda>calls.
     then_js (logDebug [Txt ''API Calls:'', Num calls])
    (bind_js (read_js (\<lambda>s. length (apiCache s))) (\<lambda>size.
     then_js (logDebug [Txt ''Cache Size:'', Num size])
    (bind_js (read_js totalDataSize) (\<lambda>total.
     then_js (logDebug [Txt ''Total Data Size:'', Num total, Txt ''bytes''])
    (bind_js (read_js errorCount) (\<lambda>errors.
     logDebug [Txt ''Error Count:'', Num errors]))))))))"

section \<open>The orchestrator\<close>

text \<open>
  \<open>JSON.stringify(v).length\<close>: \<open>JSON.stringify\<close> gives a string for a parsed value, and
  \<open>undefined\<close> (whose \<open>length\<close> is a \<open>TypeError\<close>) for \<open>undefined\<close> and for a function.
  The display function then gets the same reference. (No path of a run is the name of
  an inherited member, so a run only ever sees references here; \<open>Object.prototype\<close>
  itself, which \<open>__proto__\<close> names, is not told apart from the inherited functions.)
\<close>

definition stringify_length :: "host \<Rightarrow> jsval \<Rightarrow> nat js" where
  "stringify_length h v =
     (case v of Ref r \<Rightarrow> read_js (\<lambda>s. length (JSON_stringify h (heap s r)))
      | _ \<Rightarrow> throw_js TypeError)"

definition reference :: "jsval \<Rightarrow> nat js" where
  "reference v = (case v of Ref r \<Rightarrow> unit_js r | _ \<Rightarrow> throw_js TypeError)"

text \<open>The call of a display function on the fetched value, with its ghost event.\<close>

definition display :: "step \<Rightarrow> (nat \<Rightarrow> unit js) \<Rightarrow> jsval \<Rightarrow> unit js" where
  "display k printer v = bind_js (reference v) (\<lambda>r. then_js (ghost (Display k)) (printer r))"

definition add_totalDataSize :: "nat \<Rightarrow> unit js" where
  "add_totalDataSize n = update_js (\<lambda>s. s\<lparr>totalDataSize := totalDataSize s + n\<rparr>)"

definition handleCharacterData :: "host \<Rightarrow> unit js" where
  "handleCharacterData h =
     bind_js (read_js lastCharacterId) (\<lambda>id.
     bind_js (fetchFromApi h (''people/'' @ digits id)) (\<lambda>characterData.
     bind_js (stringify_length h characterData) (\<lambda>n.
     then_js (add_totalDataSize n)
             (display Character (printCharacterData h) characterData))))"

definition handleStarshipsData :: "host \<Rightarrow> unit js" where
  "handleStarshipsData h =
     bind_js (fetchFromApi h ''starships/?page=1'') (\<lambda>starshipsData.
     bind_js (stringify_length h starshipsData) (\<lambda>n.
     then_js (add_totalDataSize n)
             (display Starships (printStarshipData h) starshipsData)))"

definition handlePlanetsData :: "host \<Rightarrow> unit js" where
  "handlePlanetsData h =
     bind_js (fetchFromApi h ''planets/?page=1'') (\<lambda>planetsData.
     bind_js (stringify_length h planetsData) (\<lambda>n.
     then_js (add_totalDataSize n)
             (display Planets (printLargePlanets h) planetsData)))"

definition handleFilmsData :: "host \<Rightarrow> unit js" where
  "handleFilmsData h =
     bind_js (fetchFromApi h ''films/'') (\<lambda>filmsData.
     bind_js (stringify_length h filmsData) (\<lambda>n.
     then_js (add_totalDataSize n)
             (display Films (printFilmsData h) filmsData)))"

definition handleVehicleData :: "host \<Rightarrow> unit js" where
  "handleVehicleData h =
     bind_js (read_js lastCharacterId) (\<lambda>id.
     bind_js (fetchFromApi h (''vehicles/'' @ digits id)) (\<lambda>vehicleData.
     bind_js (stringify_length h vehicleData) (\<lambda>n.
     then_js (add_totalDataSize n)
             (display Vehicle (printVehicleData h) vehicleData))))"

definition vehicle_step :: "host \<Rightarrow> unit js" where
  "vehicle_step h =
     bind_js (read_js lastCharacterId) (\<lambda>id.
       if id \<le> MAX_VEHICLE_CHARACTER_ID
       then then_js (handleVehicleData h)
                    (update_js (\<lambda>s. s\<lparr>lastCharacterId := lastCharacterId s + 1\<rparr>))
       else unit_js ())"

definition run_body :: "host \<Rightarrow> unit js" where
  "run_body h =
     then_js (logDebug [Txt ''Starting data fetch...''])
    (then_js (update_js (\<lambda>s. s\<lparr>apiCallCount := apiCallCount s + 1\<rparr>))
    (then_js (handleCharacterData h)
    (then_js (handleStarshipsData h)
    (then_js (handlePlanetsData h)
    (then_js (handleFilmsData h)
    (then_js (vehicle_step h)
             printStats))))))"

definition run_catch :: "error \<Rightarrow> unit js" where
  "run_catch e = then_js (console_error [Txt ''Error:'', Msg e]) increment_errorCount"

definition fetchAndDisplayStarWarsData :: "host \<Rightarrow> unit js" where
  "fetchAndDisplayStarWarsData h = try_js (run_body h) run_catch"


section \<open>Vocabulary of the proofs\<close>

text \<open>A computation stays within a relation between the state before and after.\<close>

definition within :: "(state \<Rightarrow> state \<Rightarrow> bool) \<Rightarrow> 'a js \<Rightarrow> bool" where
  "within R m = (\<forall>s. R s (snd (m s)))"

text \<open>Only console output was added; and only console output was added and the value
  of one cell changed, without a change of its truthiness.\<close>

definition logs_only :: "state \<Rightarrow> state \<Rightarrow> bool" where
  "logs_only s s' = (\<exists>out. s' = s\<lparr>console := console s @ out\<rparr>)"

definition logs_and_cell :: "nat \<Rightarrow> state \<Rightarrow> state \<Rightarrow> bool" where
  "logs_and_cell r s s' =
     (\<exists>out v. s' = s\<lparr>console := console s @ out, heap := (heap s)(r := v)\<rparr> \<and>
              truthy v = truthy (heap s r))"

definition frame_rel :: "(state \<Rightarrow> state \<Rightarrow> bool) \<Rightarrow> bool" where
  "frame_rel R =
     ((\<forall>s. R s s) \<and> (\<forall>s t u. R s t \<longrightarrow> R t u \<longrightarrow> R s u) \<and>
      (\<forall>s l. R s (s\<lparr>console := console s @ [l]\<rparr>)))"


text \<open>
  The shape of one run, seen from the state it starts in: the paths it fetches in order
  (the vehicle only while the cursor is within its bound), the trace of a run in which
  every fetch succeeds, and the three ways a run can end: all steps done, the display
  of step \<open>j\<close> threw, the fetch of step \<open>j\<close> failed (steps counted from 0).
\<close>

definition run_paths :: "state \<Rightarrow> string list" where
  "run_paths s =
     [''people/'' @ digits (lastCharacterId s), ''starships/?page=1'', ''planets/?page=1'',
      ''films/''] @
     (if lastCharacterId s \<le> MAX_VEHICLE_CHARACTER_ID
      then [''vehicles/'' @ digits (lastCharacterId s)] else [])"

definition run_steps :: "step list" where
  "run_steps = [Character, Starships, Planets, Films, Vehicle]"

definition expected_trace :: "state \<Rightarrow> event list" where
  "expected_trace s =
     concat (map (\<lambda>(p, k). [Fetched p None, Display k]) (zip (run_paths s) run_steps))"

datatype outcome = Completed | DisplayThrew nat | FetchFailed nat error

fun outcome_trace :: "state \<Rightarrow> outcome \<Rightarrow> event list" where
  "outcome_trace s Completed = expected_trace s"
| "outcome_trace s (DisplayThrew j) = take (2 * (j + 1)) (expected_trace s)"
| "outcome_trace s (FetchFailed j e) =
     take (2 * j) (expected_trace s) @ [Fetched (run_paths s ! j) (Some e)]"

fun outcome_errors :: "outcome \<Rightarrow> nat" where
  "outcome_errors Completed = 0"
| "outcome_errors (DisplayThrew j) = 1"
| "outcome_errors (FetchFailed j e) = 2"

fun outcome_cursor :: "state \<Rightarrow> outcome \<Rightarrow> nat" where
  "outcome_cursor s Completed =
     (if lastCharacterId s \<le> MAX_VEHICLE_CHARACTER_ID then lastCharacterId s + 1
      else lastCharacterId s)"
| "outcome_cursor s (DisplayThrew j) = lastCharacterId s"
| "outcome_cursor s (FetchFailed j e) = lastCharacterId s"

fun outcome_step :: "outcome \<Rightarrow> nat" where
  "outcome_step Completed = 0"
| "outcome_step (DisplayThrew j) = j"
| "outcome_step (FetchFailed j e) = j"

text \<open>The callbacks that the \<open>n\<close>-th request leaves pending when its fetch fails with \<open>e\<close>
  (none after a parse error: the response was read), and those that a run leaves
  pending, seen from the state in which it ends: the ones of its last request when
  the fetch failed.\<close>

definition left_over :: "host \<Rightarrow> nat \<Rightarrow> error \<Rightarrow> callback list" where
  "left_over h n e = (case e of SyntaxError msg \<Rightarrow> [] | _ \<Rightarrow> afterwards h n)"

fun outcome_pending :: "host \<Rightarrow> state \<Rightarrow> outcome \<Rightarrow> callback list" where
  "outcome_pending h t Completed = []"
| "outcome_pending h t (DisplayThrew j) = []"
| "outcome_pending h t (FetchFailed j e) = left_over h (length (requests t) - 1) e"


text \<open>The parsed release date of a film, as the comparator computes it: \<open>None\<close> when
  the film is \<open>null\<close>, when the conversion throws, and for an invalid date.\<close>

definition release_time :: "host \<Rightarrow> json \<Rightarrow> int option" where
  "release_time h film =
     (case bind_e (property_e (Some film) ''release_date'') (Date_value h) of
        Inr (Some d) \<Rightarrow> Some d
      | _ \<Rightarrow> None)"

definition release_key :: "host \<Rightarrow> json \<Rightarrow> int" where
  "release_key h film = (case release_time h film of Some d \<Rightarrow> d | None \<Rightarrow> 0)"

text \<open>\<open>parseInt\<close> of a property value gives a number strictly greater than a bound.\<close>

definition parses_above :: "json option \<Rightarrow> int \<Rightarrow> bool" where
  "parses_above x bound = (case parseInt x of Inr (Some n) \<Rightarrow> n > bound | _ \<Rightarrow> False)"

text \<open>The line that \<open>printPlanetDetails\<close> prints for a planet.\<close>

definition planet_line :: "json \<Rightarrow> line" where
  "planet_line planet =
     Log [Val (get planet ''name''), Txt ''- Pop:'', Val (get planet ''population''),
          Txt ''- Diameter:'', Val (get planet ''diameter''), Txt ''- Climate:'', Val (get planet ''climate'')]"

definition is_planet_line :: "line \<Rightarrow> bool" where
  "is_planet_line l = (case l of Log [Val a, Txt b, Val c, Txt d, Val e, Txt f, Val g] \<Rightarrow> True | _ \<Rightarrow> False)"

text \<open>The states a process goes through: its exported operations, \<open>fetchFromApi\<close> and
  \<open>fetchAndDisplayStarWarsData\<close>, called one after the other (a call starts when the
  previous one has settled), and between them the pending callbacks, in any order (a
  callback that falls due while a call waits for the network is taken when that call
  has settled).\<close>

inductive evolves :: "host \<Rightarrow> state \<Rightarrow> state \<Rightarrow> bool" for h :: host and s :: state where
  evolves_refl: "evolves h s s"
| evolves_fetch: "evolves h s t \<Longrightarrow> fetchFromApi h resourcePath t = (res, u) \<Longrightarrow> evolves h s u"
| evolves_run: "evolves h s t \<Longrightarrow> fetchAndDisplayStarWarsData h t = (res, u) \<Longrightarrow> evolves h s u"
| evolves_callback: "evolves h s t \<Longrightarrow> c \<in> set (pending t) \<Longrightarrow> event_loop_turn c t = (res, u) \<Longrightarrow>
                       evolves h s u"

text \<open>Every reference held by the cache is to an allocated cell.\<close>

definition cache_allocated :: "state \<Rightarrow> bool" where
  "cache_allocated s = (\<forall>k r. map_of (apiCache s) k = Some r \<longrightarrow> r < next_ref s)"

text \<open>The cache is well-formed and holds the truthy value \<open>v\<close> under \<open>P\<close>.\<close>

definition caches :: "string \<Rightarrow> jsval \<Rightarrow> state \<Rightarrow> bool" where
  "caches P v s = (cache_allocated s \<and> cache_read s P = v \<and> truthy_val s v)"

text \<open>A property of the state that holds after a computation when it held before; and
  what makes a property an invariant of the process: it does not depend on the console,
  the trace, the counters and the pending callbacks, it survives a change of a cell that keeps its truthiness,
  and it survives a fetch.\<close>

definition keeps_inv :: "(state \<Rightarrow> bool) \<Rightarrow> state \<Rightarrow> state \<Rightarrow> bool" where
  "keeps_inv I s s' = (I s \<longrightarrow> I s')"

definition process_inv :: "host \<Rightarrow> (state \<Rightarrow> bool) \<Rightarrow> bool" where
  "process_inv h I =
     ((\<forall>s x. I (s\<lparr>console := x\<rparr>) = I s) \<and> (\<forall>s x. I (s\<lparr>trace := x\<rparr>) = I s) \<and>
      (\<forall>s x. I (s\<lparr>apiCallCount := x\<rparr>) = I s) \<and> (\<forall>s x. I (s\<lparr>totalDataSize := x\<rparr>) = I s) \<and>
      (\<forall>s x. I (s\<lparr>lastCharacterId := x\<rparr>) = I s) \<and> (\<forall>s x. I (s\<lparr>errorCount := x\<rparr>) = I s) \<and>
      (\<forall>s x. I (s\<lparr>pending := x\<rparr>) = I s) \<and>
      (\<forall>s r v. truthy v = truthy (heap s r) \<longrightarrow> I s \<longrightarrow> I (s\<lparr>heap := (heap s)(r := v)\<rparr>)) \<and>
      (\<forall>s Q res s'. I s \<longrightarrow> fetchFromApi h Q s = (res, s') \<longrightarrow> I s'))"

section \<open>Example data\<close>

text \<open>
  Concrete hosts for the examples below. The network answers one given path with a
  given response, and every other path with status 200 and an empty result list; no
  callback follows a settled request, except on the host of the HTTP 500 example. The
  built-ins are tabulated on the documents that occur: \<open>JSON.parse\<close> and
  \<open>JSON.stringify\<close> on four texts, \<open>Date.parse\<close> on two dates (in milliseconds since
  1970); no example compares a string with a number.
\<close>

definition luke :: json where
  "luke = JObj [(''name'', JStr ''Luke Skywalker'')]"

definition empire :: json where
  "empire = JObj [(''title'', JStr ''The Empire Strikes Back''), (''release_date'', JStr ''1980-05-17''),
                  (''characters'', JArr [luke]), (''planets'', JArr [])]"

definition new_hope :: json where
  "new_hope = JObj [(''title'', JStr ''A New Hope''), (''release_date'', JStr ''1977-05-25''),
                    (''characters'', JArr [luke]), (''planets'', JArr [])]"

definition example_documents :: "(string \<times> json) list" where
  \<open>example_documents =
     [(''{"results":[]}'', JObj [(''results'', JArr [])]),
      (''null'', JNull),
      (''{"results":[{"title":"The Empire Strikes Back","release_date":"1980-05-17","characters":[{"name":"Luke Skywalker"}],"planets":[]},{"title":"A New Hope","release_date":"1977-05-25","characters":[{"name":"Luke Skywalker"}],"planets":[]}]}'',
       JObj [(''results'', JArr [empire, new_hope])]),
      (''{"results":[{"title":"A New Hope","release_date":"1977-05-25","characters":[{"name":"Luke Skywalker"}],"planets":[]},{"title":"The Empire Strikes Back","release_date":"1980-05-17","characters":[{"name":"Luke Skywalker"}],"planets":[]}]}'',
       JObj [(''results'', JArr [new_hope, empire])])]\<close>

definition example_host :: "string \<Rightarrow> response \<Rightarrow> host" where
  \<open>example_host resourcePath answer =
     \<lparr> JSON_parse = (\<lambda>text. case map_of example_documents text of
                          Some v \<Rightarrow> Inr v | None \<Rightarrow> Inl ''Unexpected token''),
       JSON_stringify = (\<lambda>v. case find (\<lambda>d. snd d = v) example_documents of
                          Some d \<Rightarrow> fst d | None \<Rightarrow> []),
       Date_parse = map_of [(''1977-05-25'', 233366400000), (''1980-05-17'', 327369600000)],
       String_gt_zero = (\<lambda>text. False),
       remote = (\<lambda>n p. if p = resourcePath then answer else Responded 200 ''{"results":[]}''),
       afterwards = (\<lambda>n. []) \<rparr>\<close>

definition null_host :: host where
  "null_host = example_host ''films/'' (Responded 200 ''null'')"

definition null_cached :: state where
  "null_cached = snd (fetchFromApi null_host ''films/'' initial_state)"

definition planets_timeout_host :: host where
  "planets_timeout_host = example_host ''planets/?page=1'' TimedOut"

definition people_500_host :: host where
  "people_500_host =
     (example_host ''people/1'' (Responded 500 ''Internal Server Error''))
       \<lparr>afterwards := (\<lambda>n. [TimeoutCallback ''people/1''])\<rparr>"

definition vehicle_down_host :: host where
  "vehicle_down_host = example_host ''vehicles/1'' (Failed ''socket hang up'')"

text \<open>Runs made one after the other, and a host on which every fetch succeeds.\<close>

fun runs :: "host \<Rightarrow> nat \<Rightarrow> state \<Rightarrow> state" where
  "runs h 0 s = s"
| "runs h (Suc n) s = snd (fetchAndDisplayStarWarsData h (runs h n s))"

definition all_ok_host :: host where
  "all_ok_host = example_host [] TimedOut"

definition empty_results :: json where
  "empty_results = JObj [(''results'', JArr [])]"

text \<open>Every cached value is an empty result list.\<close>

definition all_empty :: "state \<Rightarrow> bool" where
  "all_empty s = (\<forall>p r. map_of (apiCache s) p = Some r \<longrightarrow> heap s r = empty_results)"

definition films_text :: string where
  \<open>films_text = ''{"results":[{"title":"The Empire Strikes Back","release_date":"1980-05-17","characters":[{"name":"Luke Skywalker"}],"planets":[]},{"title":"A New Hope","release_date":"1977-05-25","characters":[{"name":"Luke Skywalker"}],"planets":[]}]}''\<close>

definition films_host :: host where
  "films_host = example_host ''films/'' (Responded 200 films_text)"

definition films_cached :: state where
  "films_cached = snd (fetchFromApi films_host ''films/'' initial_state)"

text \<open>A films payload in which the second of three films has a release date that is
  not a date.\<close>

definition holiday_special :: json where
  "holiday_special = JObj [(''title'', JStr ''The Holiday Special''), (''release_date'', JStr ''unknown''),
                           (''characters'', JArr []), (''planets'', JArr [])]"

definition undated_films :: state where
  "undated_films =
     initial_state\<lparr>apiCache := [(''films/'', 0)],
       heap := (heap initial_state)
                 (0 := JObj [(''results'', JArr [empire, holiday_special, new_hope])]),
       next_ref := 1\<rparr>"

text \<open>Four planets: one large and populated, one with a population of exactly
  1,000,000,000, one of unknown population, one small.\<close>

definition coruscant :: json where
  "coruscant = JObj [(''name'', JStr ''Coruscant''), (''population'', JStr ''1000000000000''),
                     (''diameter'', JStr ''12240''), (''climate'', JStr ''temperate'')]"

definition borderline :: json where
  "borderline = JObj [(''name'', JStr ''Borderline''), (''population'', JStr ''1000000000''),
                      (''diameter'', JStr ''12240''), (''climate'', JStr ''arid'')]"

definition bespin :: json where
  "bespin = JObj [(''name'', JStr ''Bespin''), (''population'', JStr ''unknown''),
                  (''diameter'', JStr ''118000''), (''climate'', JStr ''temperate'')]"

definition tatooine :: json where
  "tatooine = JObj [(''name'', JStr ''Tatooine''), (''population'', JStr ''200000''),
                    (''diameter'', JStr ''10465''), (''climate'', JStr ''arid'')]"

definition planets_state :: state where
  "planets_state =
     initial_state\<lparr>apiCache := [(''planets/?page=1'', 0)],
       heap := (heap initial_state)
                 (0 := JObj [(''results'', JArr [coruscant, borderline, bespin, tatooine])]),
       next_ref := 1\<rparr>"

section \<open>Running the statements\<close>

lemma run_unit [simp]: "unit_js x s = (Inr x, s)"
  by (simp add: unit_js_def)

lemma run_throw [simp]: "throw_js e s = (Inl e, s)"
  by (simp add: throw_js_def)

lemma run_lift [simp]: "lift_js m s = (m, s)"
  by (simp add: lift_js_def)

lemma run_read [simp]: "read_js f s = (Inr (f s), s)"
  by (simp add: read_js_def)

lemma run_update [simp]: "update_js f s = (Inr (), f s)"
  by (simp add: update_js_def)

lemma run_bind: "bind_js m f s = (case m s of (Inl e, s') \<Rightarrow> (Inl e, s') | (Inr x, s') \<Rightarrow> f x s')"
  by (simp add: bind_js_def)

lemma run_then: "then_js m n s = (case m s of (Inl e, s') \<Rightarrow> (Inl e, s') | (Inr x, s') \<Rightarrow> n s')"
  by (simp add: then_js_def bind_js_def)

lemma run_try: "try_js m f s = (case m s of (Inl e, s') \<Rightarrow> f e s' | (Inr x, s') \<Rightarrow> (Inr x, s'))"
  by (simp add: try_js_def)

lemma run_ghost [simp]: "ghost ev s = (Inr (), s\<lparr>trace := trace s @ [ev]\<rparr>)"
  by (simp add: ghost_def)

lemma run_console_log [simp]: "console_log a s = (Inr (), s\<lparr>console := console s @ [Log a]\<rparr>)"
  by (simp add: console_log_def)

lemma run_console_error [simp]: "console_error a s = (Inr (), s\<lparr>console := console s @ [Err a]\<rparr>)"
  by (simp add: console_error_def)

lemma run_logDebug [simp]:
  "logDebug a s = (Inr (), s\<lparr>console := console s @ (if isDebugMode s then [Log a] else [])\<rparr>)"
  by (simp add: logDebug_def run_bind)

lemma run_increment_errorCount [simp]:
  "increment_errorCount s = (Inr (), s\<lparr>errorCount := errorCount s + 1\<rparr>)"
  by (simp add: increment_errorCount_def)

lemma run_resolve [simp]:
  "resolve p v s = (Inr v, s\<lparr>trace := trace s @ [Fetched p None]\<rparr>)"
  by (simp add: resolve_def run_then)

lemma run_reject [simp]:
  "reject p e s = (Inl e, s\<lparr>trace := trace s @ [Fetched p (Some e)]\<rparr>)"
  by (simp add: reject_def run_then)

lemma run_getCachedData [simp]:
  "getCachedData p s =
     (Inr (cache_read s p),
      s\<lparr>console := console s @ (if isDebugMode s then [Log [Txt ''Using cached data for'', Txt p]] else [])\<rparr>)"
  by (simp add: getCachedData_def run_then cache_read_def)

lemma fetch_hit:
  assumes "isCached s P"
  shows "fetchFromApi h P s =
     (Inr (cache_read s P),
      s\<lparr>console := console s @ (if isDebugMode s then [Log [Txt ''Using cached data for'', Txt P]] else []),
        trace := trace s @ [Fetched P None]\<rparr>)"
  using assms by (simp add: fetchFromApi_def run_bind cache_read_def)

lemma fetch_parse_error:
  assumes "\<not> isCached s P"
    and "remote h (length (requests s)) P = Responded status body"
    and "status < HTTP_ERROR_THRESHOLD"
    and "JSON_parse h body = Inl msg"
  shows "fetchFromApi h P s =
           (Inl (SyntaxError msg),
            s\<lparr>errorCount := errorCount s + 1, requests := requests s @ [P],
              trace := trace s @ [Fetched P (Some (SyntaxError msg))]\<rparr>)"
  using assms
  by (simp add: fetchFromApi_def createRequest_def https_get_def leave_def on_error_def on_timeout_def
      request_abort_def handleResponseStatus_def
      parseResponseData_def run_bind run_then)

lemma fetch_status_error:
  assumes "\<not> isCached s P"
    and "remote h (length (requests s)) P = Responded status body"
    and "status \<ge> HTTP_ERROR_THRESHOLD"
  shows "fetchFromApi h P s =
           (Inl (HttpStatusError status),
            s\<lparr>errorCount := errorCount s + 1, requests := requests s @ [P],
              trace := trace s @ [Fetched P (Some (HttpStatusError status))],
              pending := pending s @ afterwards h (length (requests s))\<rparr>)"
  using assms
  by (simp add: fetchFromApi_def createRequest_def https_get_def leave_def on_error_def on_timeout_def
      request_abort_def handleResponseStatus_def
      parseResponseData_def run_bind run_then)

lemma run_cacheData [simp]:
  "cacheData p r s =
     (Inr (), s\<lparr>apiCache := AList.update p r (apiCache s),
               console := console s @
                 (if isDebugMode s
                  then [Log [Txt (''Successfully fetched data for '' @ p)],
                        Log [Txt (''Cache size: '' @ digits (length (AList.update p r (apiCache s))))]]
                  else [])\<rparr>)"
  by (simp add: cacheData_def run_then run_bind)

lemma fetch_success:
  assumes "\<not> isCached s P"
    and "remote h (length (requests s)) P = Responded status body"
    and "status < HTTP_ERROR_THRESHOLD"
    and "JSON_parse h body = Inr v"
  shows "fetchFromApi h P s =
           (Inr (Ref (next_ref s)),
            s\<lparr>apiCache := AList.update P (next_ref s) (apiCache s),
              heap := (heap s)(next_ref s := v),
              next_ref := next_ref s + 1,
              console := console s @
                 (if isDebugMode s
                  then [Log [Txt (''Successfully fetched data for '' @ P)],
                        Log [Txt (''Cache size: '' @ digits (length (AList.update P (next_ref s) (apiCache s))))]]
                  else []),
              requests := requests s @ [P],
              trace := trace s @ [Fetched P None]\<rparr>)"
  using assms
  by (simp add: fetchFromApi_def createRequest_def https_get_def leave_def on_error_def on_timeout_def
      request_abort_def handleResponseStatus_def
      parseResponseData_def allocate_def run_bind run_then)


lemma fetch_frame:
  assumes "fetchFromApi h P s = (r, s')"
  shows "lastCharacterId s' = lastCharacterId s \<and> apiCallCount s' = apiCallCount s \<and>
         totalDataSize s' = totalDataSize s \<and> isDebugMode s' = isDebugMode s"
  using assms
  by (auto simp: fetchFromApi_def createRequest_def https_get_def leave_def on_error_def on_timeout_def
      request_abort_def handleResponseStatus_def
      parseResponseData_def allocate_def run_bind run_then
      split: if_splits response.splits sum.splits)

lemma fetch_ok:
  assumes "fetchFromApi h P s = (Inr v, s')"
  shows "trace s' = trace s @ [Fetched P None] \<and> errorCount s' = errorCount s \<and>
         pending s' = pending s \<and> cache_read s' P = v"
  using assms
  by (auto simp: fetchFromApi_def createRequest_def https_get_def leave_def on_error_def on_timeout_def
      request_abort_def handleResponseStatus_def
      parseResponseData_def allocate_def run_bind run_then cache_read_def update_conv
      split: if_splits response.splits sum.splits)

lemma fetch_ok_Ref:
  assumes "fetchFromApi h P s = (Inr v, s')" and "P \<notin> set Object_prototype_members"
  shows "\<exists>r. v = Ref r"
  using assms
  by (auto simp: fetchFromApi_def createRequest_def https_get_def leave_def on_error_def on_timeout_def
      request_abort_def handleResponseStatus_def
      parseResponseData_def allocate_def run_bind run_then cache_read_def isCached_def truthy_val_def
      split: if_splits response.splits sum.splits option.splits)

lemma fetch_fail:
  assumes "fetchFromApi h P s = (Inl e, s')"
  shows "s' = s\<lparr>errorCount := errorCount s + 1, requests := requests s @ [P],
              trace := trace s @ [Fetched P (Some e)],
              pending := pending s @ left_over h (length (requests s)) e\<rparr>"
  using assms
  by (auto simp: fetchFromApi_def createRequest_def https_get_def leave_def on_error_def on_timeout_def
      request_abort_def handleResponseStatus_def
      parseResponseData_def allocate_def run_bind run_then left_over_def
      split: if_splits response.splits sum.splits)


lemma run_invoke:
  "invoke c s = (Inr (), s\<lparr>errorCount := errorCount s + 1\<rparr>)"
  by (cases c) (simp_all add: on_error_def on_timeout_def request_abort_def settled_def run_then)

lemma run_event_loop_turn:
  "event_loop_turn c s =
     (Inr (), s\<lparr>errorCount := errorCount s + 1, pending := remove1 c (pending s)\<rparr>)"
  by (simp add: event_loop_turn_def run_then run_invoke)

lemma errorCount_fold_invoke:
  "errorCount (fold (\<lambda>c t. snd (invoke c t)) cs s) = errorCount s + length cs"
  by (induction cs arbitrary: s) (simp_all add: run_invoke)

lemma pending_fold_invoke:
  "pending (fold (\<lambda>c t. snd (invoke c t)) cs s) = pending s"
  by (induction cs arbitrary: s) (simp_all add: run_invoke)

lemma errorCount_idle: "errorCount (idle s) = errorCount s + length (pending s)"
  by (simp add: idle_def errorCount_fold_invoke)

lemma pending_idle: "pending (idle s) = []"
  by (simp add: idle_def pending_fold_invoke)

text \<open>The idle process is a state of the process.\<close>

lemma evolves_fold_invoke:
  "evolves h s0 s \<Longrightarrow> pending s = cs \<Longrightarrow>
   evolves h s0 (fold (\<lambda>c t. snd (invoke c t)) cs (s\<lparr>pending := []\<rparr>))"
proof (induction cs arbitrary: s)
  case Nil
  from Nil(2) have "s\<lparr>pending := []\<rparr> = s" by simp
  with Nil(1) show ?case by simp
next
  case (Cons c cs)
  define u where "u = s\<lparr>errorCount := errorCount s + 1, pending := cs\<rparr>"
  have "event_loop_turn c s = (Inr (), u)"
    using Cons.prems(2) by (simp add: run_event_loop_turn u_def)
  moreover have "c \<in> set (pending s)" using Cons.prems(2) by simp
  ultimately have "evolves h s0 u"
    using Cons.prems(1) evolves_callback by blast
  moreover have "pending u = cs" by (simp add: u_def)
  ultimately have "evolves h s0 (fold (\<lambda>c t. snd (invoke c t)) cs (u\<lparr>pending := []\<rparr>))"
    by (rule Cons.IH)
  moreover have "snd (invoke c (s\<lparr>pending := []\<rparr>)) = u\<lparr>pending := []\<rparr>"
    by (simp add: run_invoke u_def)
  ultimately show ?case by simp
qed

lemma evolves_idle: "evolves h s t \<Longrightarrow> evolves h s (idle t)"
  unfolding idle_def by (rule evolves_fold_invoke) simp_all


lemma frame_rel_logs_only: "frame_rel logs_only"
proof -
  have r: "\<And>s. logs_only s s"
    unfolding logs_only_def by (rule exI[of _ "[]"]) simp
  have t: "\<And>s t u. logs_only s t \<Longrightarrow> logs_only t u \<Longrightarrow> logs_only s u"
    unfolding logs_only_def by auto
  have l: "\<And>s l. logs_only s (s\<lparr>console := console s @ [l]\<rparr>)"
    unfolding logs_only_def by blast
  show ?thesis unfolding frame_rel_def using r t l by blast
qed

lemma logs_and_cell_trans:
  assumes "logs_and_cell r s t" and "logs_and_cell r t u"
  shows "logs_and_cell r s u"
proof -
  from assms(1) obtain out v where t: "t = s\<lparr>console := console s @ out, heap := (heap s)(r := v)\<rparr>"
    and tv: "truthy v = truthy (heap s r)"
    unfolding logs_and_cell_def by blast
  from assms(2) obtain out' v' where u: "u = t\<lparr>console := console t @ out', heap := (heap t)(r := v')\<rparr>"
    and tv': "truthy v' = truthy (heap t r)"
    unfolding logs_and_cell_def by blast
  have "u = s\<lparr>console := console s @ (out @ out'), heap := (heap s)(r := v')\<rparr>"
    by (simp add: t u)
  moreover have "truthy v' = truthy (heap s r)"
    using tv tv' by (simp add: t)
  ultimately show ?thesis
    unfolding logs_and_cell_def by blast
qed

lemma logs_only_cell:
  assumes "logs_only s t"
  shows "logs_and_cell r s t"
proof -
  from assms obtain out where "t = s\<lparr>console := console s @ out\<rparr>"
    unfolding logs_only_def by blast
  then have "t = s\<lparr>console := console s @ out, heap := (heap s)(r := heap s r)\<rparr>"
    by simp
  then show ?thesis
    unfolding logs_and_cell_def by blast
qed

lemma frame_rel_logs_and_cell: "frame_rel (logs_and_cell r)"
proof -
  have "\<And>s. logs_and_cell r s s"
    using frame_rel_logs_only logs_only_cell unfolding frame_rel_def by blast
  moreover have "\<And>s l. logs_and_cell r s (s\<lparr>console := console s @ [l]\<rparr>)"
    using frame_rel_logs_only logs_only_cell unfolding frame_rel_def by blast
  ultimately show ?thesis
    unfolding frame_rel_def using logs_and_cell_trans by blast
qed

named_theorems within_intros

lemma within_unit [within_intros]: "frame_rel R \<Longrightarrow> within R (unit_js x)"
  by (simp add: within_def frame_rel_def)

lemma within_throw [within_intros]: "frame_rel R \<Longrightarrow> within R (throw_js e)"
  by (simp add: within_def frame_rel_def)

lemma within_lift [within_intros]: "frame_rel R \<Longrightarrow> within R (lift_js m)"
  by (simp add: within_def frame_rel_def)

lemma within_read [within_intros]: "frame_rel R \<Longrightarrow> within R (read_js f)"
  by (simp add: within_def frame_rel_def)

lemma within_console_log [within_intros]: "frame_rel R \<Longrightarrow> within R (console_log a)"
  by (simp add: within_def frame_rel_def)

lemma within_property [within_intros]: "frame_rel R \<Longrightarrow> within R (property v k)"
  by (simp add: property_def within_lift)

lemma within_deref [within_intros]: "frame_rel R \<Longrightarrow> within R (deref r)"
  by (simp add: deref_def within_read)

lemma within_as_array [within_intros]: "frame_rel R \<Longrightarrow> within R (as_array x)"
  by (simp add: as_array_def within_unit within_throw split: option.splits json.splits)

lemma within_bind [within_intros]:
  assumes R: "frame_rel R" and m: "within R m" and f: "\<And>x. within R (f x)"
  shows "within R (bind_js m f)"
  unfolding within_def
proof
  fix s
  show "R s (snd (bind_js m f s))"
  proof (cases "m s")
    case (Pair res t)
    have st: "R s t" using m Pair unfolding within_def by (metis snd_conv)
    show ?thesis
    proof (cases res)
      case (Inl e)
      then show ?thesis using Pair st by (simp add: run_bind)
    next
      case (Inr x)
      have "R t (snd (f x t))" using f unfolding within_def by blast
      with st have "R s (snd (f x t))" using R unfolding frame_rel_def by blast
      then show ?thesis using Pair Inr by (simp add: run_bind)
    qed
  qed
qed

lemma within_then [within_intros]:
  "frame_rel R \<Longrightarrow> within R m \<Longrightarrow> within R n \<Longrightarrow> within R (then_js m n)"
  unfolding then_js_def by (rule within_bind)

lemma within_if [within_intros]:
  "within R a \<Longrightarrow> within R b \<Longrightarrow> within R (if c then a else b)"
  by simp

lemma within_forEach_from:
  assumes "frame_rel R" and "\<And>x i. within R (f x i)"
  shows "within R (forEach_from f i xs)"
  using assms by (induction xs arbitrary: i) (simp_all add: within_unit within_then)

lemma within_forEach [within_intros]:
  "frame_rel R \<Longrightarrow> (\<And>x i. within R (f x i)) \<Longrightarrow> within R (forEach f xs)"
  unfolding forEach_def by (rule within_forEach_from)

lemma within_printCharacterData: "frame_rel R \<Longrightarrow> within R (printCharacterData h r)"
  unfolding printCharacterData_def by (intro within_intros) 

lemma within_printStarship: "frame_rel R \<Longrightarrow> within R (printStarship h x i)"
  unfolding printStarship_def by (intro within_intros)

lemma within_printStarshipData: "frame_rel R \<Longrightarrow> within R (printStarshipData h r)"
  unfolding printStarshipData_def by (intro within_intros within_printStarship)

lemma within_isLargeAndPopulated: "frame_rel R \<Longrightarrow> within R (isLargeAndPopulated p)"
  unfolding isLargeAndPopulated_def by (intro within_intros)

lemma within_printPlanetDetails: "frame_rel R \<Longrightarrow> within R (printPlanetDetails h p)"
  unfolding printPlanetDetails_def by (intro within_intros)

lemma within_printPlanet: "frame_rel R \<Longrightarrow> within R (printPlanet h p i)"
  unfolding printPlanet_def by (intro within_intros within_isLargeAndPopulated within_printPlanetDetails)

lemma within_printLargePlanets: "frame_rel R \<Longrightarrow> within R (printLargePlanets h r)"
  unfolding printLargePlanets_def by (intro within_intros within_printPlanet)

lemma within_printFilm: "frame_rel R \<Longrightarrow> within R (printFilm f i)"
  unfolding printFilm_def by (intro within_intros)

lemma within_printVehicleData: "frame_rel R \<Longrightarrow> within R (printVehicleData h r)"
  unfolding printVehicleData_def by (intro within_intros)

lemma within_store_results: "within (logs_and_cell r) (store_results r xs)"
  unfolding within_def store_results_def logs_and_cell_def
  by (auto intro!: exI[of _ "[]"] split: json.splits)

lemma within_printFilmsData: "within (logs_and_cell r) (printFilmsData h r)"
  unfolding printFilmsData_def
  by (intro within_intros within_printFilm within_store_results frame_rel_logs_and_cell)


lemma run_display_Ref:
  "display k printer (Ref r) s = printer r (s\<lparr>trace := trace s @ [Display k]\<rparr>)"
  by (simp add: display_def reference_def run_bind run_then)

lemma step_cases:
  assumes pr: "\<And>r. within (logs_and_cell r) (printer r)"
    and p: "p \<notin> set Object_prototype_members"
    and run: "bind_js (fetchFromApi h p) (\<lambda>v. bind_js (stringify_length h v) (\<lambda>n.
                then_js (add_totalDataSize n) (display k printer v))) s = (res, s')"
  shows "(\<exists>e. res = Inl e \<and>
              s' = s\<lparr>errorCount := errorCount s + 1, requests := requests s @ [p],
                     trace := trace s @ [Fetched p (Some e)],
                     pending := pending s @ left_over h (length (requests s)) e\<rparr>)
       \<or> (trace s' = trace s @ [Fetched p None, Display k] \<and> errorCount s' = errorCount s \<and>
          lastCharacterId s' = lastCharacterId s \<and> apiCallCount s' = apiCallCount s \<and>
          isDebugMode s' = isDebugMode s \<and> pending s' = pending s)"
proof (cases "fetchFromApi h p s")
  case (Pair fr t)
  show ?thesis
  proof (cases fr)
    case (Inl e)
    with Pair run have "res = Inl e" "s' = t" by (simp_all add: run_bind)
    moreover from Pair Inl have "t = s\<lparr>errorCount := errorCount s + 1, requests := requests s @ [p],
                     trace := trace s @ [Fetched p (Some e)],
                     pending := pending s @ left_over h (length (requests s)) e\<rparr>"
      using fetch_fail by blast
    ultimately show ?thesis by blast
  next
    case (Inr v)
    with Pair have f: "fetchFromApi h p s = (Inr v, t)" by simp
    from fetch_ok_Ref[OF f p] obtain r where v: "v = Ref r" by blast
    define u where "u = t\<lparr>totalDataSize := totalDataSize t + length (JSON_stringify h (heap t r)),
                           trace := trace t @ [Display k]\<rparr>"
    from run f v have r: "printer r u = (res, s')"
      by (simp add: run_bind run_then stringify_length_def add_totalDataSize_def run_display_Ref u_def)
    from pr have "logs_and_cell r u (snd (printer r u))"
      unfolding within_def by blast
    with r obtain out w where s': "s' = u\<lparr>console := console u @ out, heap := (heap u)(r := w)\<rparr>"
      unfolding logs_and_cell_def by auto
    from fetch_ok[OF f] fetch_frame[OF f] show ?thesis
      by (simp add: s' u_def)
  qed
qed

lemma not_inherited_people: "''people/'' @ x \<notin> set Object_prototype_members"
  by (simp add: Object_prototype_members_def)

lemma not_inherited_vehicles: "''vehicles/'' @ x \<notin> set Object_prototype_members"
  by (simp add: Object_prototype_members_def)

lemma not_inherited_fixed:
  "''starships/?page=1'' \<notin> set Object_prototype_members"
  "''planets/?page=1'' \<notin> set Object_prototype_members"
  "''films/'' \<notin> set Object_prototype_members"
  by (simp_all add: Object_prototype_members_def)


lemma handleCharacterData_cases:
  assumes "handleCharacterData h s = (res, s')"
  shows "(\<exists>e. res = Inl e \<and>
              s' = s\<lparr>errorCount := errorCount s + 1,
                     requests := requests s @ [''people/'' @ digits (lastCharacterId s)],
                     trace := trace s @ [Fetched (''people/'' @ digits (lastCharacterId s)) (Some e)],
                     pending := pending s @ left_over h (length (requests s)) e\<rparr>)
       \<or> (trace s' = trace s @ [Fetched (''people/'' @ digits (lastCharacterId s)) None, Display Character] \<and>
          errorCount s' = errorCount s \<and>
          lastCharacterId s' = lastCharacterId s \<and> apiCallCount s' = apiCallCount s \<and>
          isDebugMode s' = isDebugMode s \<and> pending s' = pending s)"
proof (rule step_cases)
  show "\<And>r. within (logs_and_cell r) (printCharacterData h r)"
    by (rule within_printCharacterData) (rule frame_rel_logs_and_cell)
  show "''people/'' @ digits (lastCharacterId s) \<notin> set Object_prototype_members"
    by (rule not_inherited_people)
  show "bind_js (fetchFromApi h (''people/'' @ digits (lastCharacterId s)))
     (\<lambda>v. bind_js (stringify_length h v)
           (\<lambda>n. then_js (add_totalDataSize n) (display Character (printCharacterData h) v))) s = (res, s')"
    using assms by (simp add: handleCharacterData_def run_bind)
qed

lemma handleVehicleData_cases:
  assumes "handleVehicleData h s = (res, s')"
  shows "(\<exists>e. res = Inl e \<and>
              s' = s\<lparr>errorCount := errorCount s + 1,
                     requests := requests s @ [''vehicles/'' @ digits (lastCharacterId s)],
                     trace := trace s @ [Fetched (''vehicles/'' @ digits (lastCharacterId s)) (Some e)],
                     pending := pending s @ left_over h (length (requests s)) e\<rparr>)
       \<or> (trace s' = trace s @ [Fetched (''vehicles/'' @ digits (lastCharacterId s)) None, Display Vehicle] \<and>
          errorCount s' = errorCount s \<and>
          lastCharacterId s' = lastCharacterId s \<and> apiCallCount s' = apiCallCount s \<and>
          isDebugMode s' = isDebugMode s \<and> pending s' = pending s)"
proof (rule step_cases)
  show "\<And>r. within (logs_and_cell r) (printVehicleData h r)"
    by (rule within_printVehicleData) (rule frame_rel_logs_and_cell)
  show "''vehicles/'' @ digits (lastCharacterId s) \<notin> set Object_prototype_members"
    by (rule not_inherited_vehicles)
  show "bind_js (fetchFromApi h (''vehicles/'' @ digits (lastCharacterId s)))
     (\<lambda>v. bind_js (stringify_length h v)
           (\<lambda>n. then_js (add_totalDataSize n) (display Vehicle (printVehicleData h) v))) s = (res, s')"
    using assms by (simp add: handleVehicleData_def run_bind)
qed

lemma handleStarshipsData_cases:
  assumes "handleStarshipsData h s = (res, s')"
  shows "(\<exists>e. res = Inl e \<and>
              s' = s\<lparr>errorCount := errorCount s + 1,
                     requests := requests s @ [''starships/?page=1''],
                     trace := trace s @ [Fetched ''starships/?page=1'' (Some e)],
                     pending := pending s @ left_over h (length (requests s)) e\<rparr>)
       \<or> (trace s' = trace s @ [Fetched ''starships/?page=1'' None, Display Starships] \<and>
          errorCount s' = errorCount s \<and>
          lastCharacterId s' = lastCharacterId s \<and> apiCallCount s' = apiCallCount s \<and>
          isDebugMode s' = isDebugMode s \<and> pending s' = pending s)"
proof (rule step_cases)
  show "\<And>r. within (logs_and_cell r) (printStarshipData h r)"
    by (rule within_printStarshipData) (rule frame_rel_logs_and_cell)
  show "''starships/?page=1'' \<notin> set Object_prototype_members"
    by (rule not_inherited_fixed)
  show "bind_js (fetchFromApi h ''starships/?page=1'')
     (\<lambda>v. bind_js (stringify_length h v)
           (\<lambda>n. then_js (add_totalDataSize n) (display Starships (printStarshipData h) v))) s = (res, s')"
    using assms by (simp add: handleStarshipsData_def)
qed

lemma handlePlanetsData_cases:
  assumes "handlePlanetsData h s = (res, s')"
  shows "(\<exists>e. res = Inl e \<and>
              s' = s\<lparr>errorCount := errorCount s + 1,
                     requests := requests s @ [''planets/?page=1''],
                     trace := trace s @ [Fetched ''planets/?page=1'' (Some e)],
                     pending := pending s @ left_over h (length (requests s)) e\<rparr>)
       \<or> (trace s' = trace s @ [Fetched ''planets/?page=1'' None, Display Planets] \<and>
          errorCount s' = errorCount s \<and>
          lastCharacterId s' = lastCharacterId s \<and> apiCallCount s' = apiCallCount s \<and>
          isDebugMode s' = isDebugMode s \<and> pending s' = pending s)"
proof (rule step_cases)
  show "\<And>r. within (logs_and_cell r) (printLargePlanets h r)"
    by (rule within_printLargePlanets) (rule frame_rel_logs_and_cell)
  show "''planets/?page=1'' \<notin> set Object_prototype_members"
    by (rule not_inherited_fixed)
  show "bind_js (fetchFromApi h ''planets/?page=1'')
     (\<lambda>v. bind_js (stringify_length h v)
           (\<lambda>n. then_js (add_totalDataSize n) (display Planets (printLargePlanets h) v))) s = (res, s')"
    using assms by (simp add: handlePlanetsData_def)
qed

lemma handleFilmsData_cases:
  assumes "handleFilmsData h s = (res, s')"
  shows "(\<exists>e. res = Inl e \<and>
              s' = s\<lparr>errorCount := errorCount s + 1,
                     requests := requests s @ [''films/''],
                     trace := trace s @ [Fetched ''films/'' (Some e)],
                     pending := pending s @ left_over h (length (requests s)) e\<rparr>)
       \<or> (trace s' = trace s @ [Fetched ''films/'' None, Display Films] \<and>
          errorCount s' = errorCount s \<and>
          lastCharacterId s' = lastCharacterId s \<and> apiCallCount s' = apiCallCount s \<and>
          isDebugMode s' = isDebugMode s \<and> pending s' = pending s)"
proof (rule step_cases)
  show "\<And>r. within (logs_and_cell r) (printFilmsData h r)"
    by (rule within_printFilmsData)
  show "''films/'' \<notin> set Object_prototype_members"
    by (rule not_inherited_fixed)
  show "bind_js (fetchFromApi h ''films/'')
     (\<lambda>v. bind_js (stringify_length h v)
           (\<lambda>n. then_js (add_totalDataSize n) (display Films (printFilmsData h) v))) s = (res, s')"
    using assms by (simp add: handleFilmsData_def)
qed

lemma run_printStats:
  "printStats s =
     (Inr (), s\<lparr>console := console s @
        (if isDebugMode s
         then [Log [Txt (nl @ ''Stats:'')], Log [Txt ''API Calls:'', Num (apiCallCount s)],
               Log [Txt ''Cache Size:'', Num (length (apiCache s))],
               Log [Txt ''Total Data Size:'', Num (totalDataSize s), Txt ''bytes''],
               Log [Txt ''Error Count:'', Num (errorCount s)]]
         else [])\<rparr>)"
  by (simp add: printStats_def run_then run_bind)

lemma run_paths_nth:
  "run_paths s ! 0 = ''people/'' @ digits (lastCharacterId s)"
  "run_paths s ! Suc 0 = ''starships/?page=1''"
  "run_paths s ! 2 = ''planets/?page=1''"
  "run_paths s ! 3 = ''films/''"
  "lastCharacterId s \<le> MAX_VEHICLE_CHARACTER_ID \<Longrightarrow>
     run_paths s ! 4 = ''vehicles/'' @ digits (lastCharacterId s)"
  by (simp_all add: run_paths_def numeral_2_eq_2 numeral_3_eq_3 eval_nat_numeral)

lemma length_run_paths:
  "length (run_paths s) = (if lastCharacterId s \<le> MAX_VEHICLE_CHARACTER_ID then 5 else 4)"
  by (simp add: run_paths_def)

lemma expected_trace_eq:
  "expected_trace s =
     [Fetched (''people/'' @ digits (lastCharacterId s)) None, Display Character,
      Fetched ''starships/?page=1'' None, Display Starships,
      Fetched ''planets/?page=1'' None, Display Planets,
      Fetched ''films/'' None, Display Films] @
     (if lastCharacterId s \<le> MAX_VEHICLE_CHARACTER_ID
      then [Fetched (''vehicles/'' @ digits (lastCharacterId s)) None, Display Vehicle] else [])"
  by (simp add: expected_trace_def run_paths_def run_steps_def)

lemma run_body_cases:
  assumes run: "run_body h s = (rb, t)"
  shows "\<exists>oc. outcome_step oc < length (run_paths s) \<and>
           trace t = trace s @ outcome_trace s oc \<and>
           lastCharacterId t = outcome_cursor s oc \<and>
           apiCallCount t = apiCallCount s + 1 \<and>
           pending t = pending s @ outcome_pending h t oc \<and>
           (case oc of
              Completed \<Rightarrow> rb = Inr () \<and> errorCount t = errorCount s
            | DisplayThrew j \<Rightarrow> (\<exists>e. rb = Inl e) \<and> errorCount t = errorCount s
            | FetchFailed j e \<Rightarrow> rb = Inl e \<and> errorCount t = errorCount s + 1)"
proof -
  define s0 where "s0 = s\<lparr>console := console s @
      (if isDebugMode s then [Log [Txt ''Starting data fetch...'']] else []),
      apiCallCount := apiCallCount s + 1\<rparr>"
  have s0: "trace s0 = trace s" "errorCount s0 = errorCount s"
    "lastCharacterId s0 = lastCharacterId s" "apiCallCount s0 = apiCallCount s + 1" "pending s0 = pending s"
    by (simp_all add: s0_def)
  have body: "run_body h s =
      then_js (handleCharacterData h) (then_js (handleStarshipsData h)
     (then_js (handlePlanetsData h) (then_js (handleFilmsData h)
     (then_js (vehicle_step h) printStats)))) s0"
    by (simp add: run_body_def run_then s0_def)
  note ev = expected_trace_eq run_paths_nth length_run_paths
  obtain r1 s1 where h1: "handleCharacterData h s0 = (r1, s1)" by fastforce
  note c1 = handleCharacterData_cases[OF h1]
  show ?thesis
  proof (cases r1)
    case (Inl e)
    then have fin: "rb = Inl e" "t = s1" using run body h1 by (simp_all add: run_then)
    from c1 show ?thesis
    proof
      assume "\<exists>e. r1 = Inl e \<and> s1 = s0\<lparr>errorCount := errorCount s0 + 1,
          requests := requests s0 @ [''people/'' @ digits (lastCharacterId s0)],
          trace := trace s0 @ [Fetched (''people/'' @ digits (lastCharacterId s0)) (Some e)],
          pending := pending s0 @ left_over h (length (requests s0)) e\<rparr>"
      then have "s1 = s0\<lparr>errorCount := errorCount s0 + 1,
          requests := requests s0 @ [''people/'' @ digits (lastCharacterId s0)],
          trace := trace s0 @ [Fetched (''people/'' @ digits (lastCharacterId s0)) (Some e)],
          pending := pending s0 @ left_over h (length (requests s0)) e\<rparr>"
        using Inl by auto
      then show ?thesis using fin s0
        by (intro exI[of _ "FetchFailed 0 e"]) (simp add: ev)
    next
      assume "trace s1 = trace s0 @ [Fetched (''people/'' @ digits (lastCharacterId s0)) None, Display Character] \<and>
          errorCount s1 = errorCount s0 \<and> lastCharacterId s1 = lastCharacterId s0 \<and>
          apiCallCount s1 = apiCallCount s0 \<and> isDebugMode s1 = isDebugMode s0 \<and> pending s1 = pending s0"
      then show ?thesis using fin s0
        by (intro exI[of _ "DisplayThrew 0"]) (simp add: ev)
    qed
  next
    case (Inr u1)
    with c1 have d1: "trace s1 = trace s @ [Fetched (''people/'' @ digits (lastCharacterId s)) None, Display Character]"
      "errorCount s1 = errorCount s" "lastCharacterId s1 = lastCharacterId s"
      "apiCallCount s1 = apiCallCount s + 1" "pending s1 = pending s"
      using s0 by auto
    obtain r2 s2 where h2: "handleStarshipsData h s1 = (r2, s2)" by fastforce
    note c2 = handleStarshipsData_cases[OF h2]
    show ?thesis
    proof (cases r2)
      case (Inl e)
      then have fin: "rb = Inl e" "t = s2" using run body h1 h2 \<open>r1 = Inr u1\<close> by (simp_all add: run_then)
      from c2 show ?thesis
      proof
        assume "\<exists>e. r2 = Inl e \<and> s2 = s1\<lparr>errorCount := errorCount s1 + 1,
            requests := requests s1 @ [''starships/?page=1''],
            trace := trace s1 @ [Fetched ''starships/?page=1'' (Some e)],
            pending := pending s1 @ left_over h (length (requests s1)) e\<rparr>"
        then have "s2 = s1\<lparr>errorCount := errorCount s1 + 1,
            requests := requests s1 @ [''starships/?page=1''],
            trace := trace s1 @ [Fetched ''starships/?page=1'' (Some e)],
            pending := pending s1 @ left_over h (length (requests s1)) e\<rparr>"
          using Inl by auto
        then show ?thesis using fin d1
          by (intro exI[of _ "FetchFailed 1 e"]) (simp add: ev)
      next
        assume "trace s2 = trace s1 @ [Fetched ''starships/?page=1'' None, Display Starships] \<and>
            errorCount s2 = errorCount s1 \<and> lastCharacterId s2 = lastCharacterId s1 \<and>
            apiCallCount s2 = apiCallCount s1 \<and> isDebugMode s2 = isDebugMode s1 \<and> pending s2 = pending s1"
        then show ?thesis using fin d1
          by (intro exI[of _ "DisplayThrew 1"]) (simp add: ev)
      qed
    next
      case (Inr u2)
      with c2 have d2: "trace s2 = trace s @ [Fetched (''people/'' @ digits (lastCharacterId s)) None, Display Character,
            Fetched ''starships/?page=1'' None, Display Starships]"
        "errorCount s2 = errorCount s" "lastCharacterId s2 = lastCharacterId s"
        "apiCallCount s2 = apiCallCount s + 1" "pending s2 = pending s"
        using d1 by auto
      obtain r3 s3 where h3: "handlePlanetsData h s2 = (r3, s3)" by fastforce
      note c3 = handlePlanetsData_cases[OF h3]
      show ?thesis
      proof (cases r3)
        case (Inl e)
        then have fin: "rb = Inl e" "t = s3"
          using run body h1 h2 h3 \<open>r1 = Inr u1\<close> \<open>r2 = Inr u2\<close> by (simp_all add: run_then)
        from c3 show ?thesis
        proof
          assume "\<exists>e. r3 = Inl e \<and> s3 = s2\<lparr>errorCount := errorCount s2 + 1,
              requests := requests s2 @ [''planets/?page=1''],
              trace := trace s2 @ [Fetched ''planets/?page=1'' (Some e)],
              pending := pending s2 @ left_over h (length (requests s2)) e\<rparr>"
          then have "s3 = s2\<lparr>errorCount := errorCount s2 + 1,
              requests := requests s2 @ [''planets/?page=1''],
              trace := trace s2 @ [Fetched ''planets/?page=1'' (Some e)],
              pending := pending s2 @ left_over h (length (requests s2)) e\<rparr>"
            using Inl by auto
          then show ?thesis using fin d2
            by (intro exI[of _ "FetchFailed 2 e"]) (simp add: ev)
        next
          assume "trace s3 = trace s2 @ [Fetched ''planets/?page=1'' None, Display Planets] \<and>
              errorCount s3 = errorCount s2 \<and> lastCharacterId s3 = lastCharacterId s2 \<and>
              apiCallCount s3 = apiCallCount s2 \<and> isDebugMode s3 = isDebugMode s2 \<and> pending s3 = pending s2"
          then show ?thesis using fin d2
            by (intro exI[of _ "DisplayThrew 2"]) (simp add: ev)
        qed
      next
        case (Inr u3)
        with c3 have d3: "trace s3 = trace s @ [Fetched (''people/'' @ digits (lastCharacterId s)) None, Display Character,
              Fetched ''starships/?page=1'' None, Display Starships,
              Fetched ''planets/?page=1'' None, Display Planets]"
          "errorCount s3 = errorCount s" "lastCharacterId s3 = lastCharacterId s"
          "apiCallCount s3 = apiCallCount s + 1" "pending s3 = pending s"
          using d2 by auto
        obtain r4 s4 where h4: "handleFilmsData h s3 = (r4, s4)" by fastforce
        note c4 = handleFilmsData_cases[OF h4]
        show ?thesis
        proof (cases r4)
          case (Inl e)
          then have fin: "rb = Inl e" "t = s4"
            using run body h1 h2 h3 h4 \<open>r1 = Inr u1\<close> \<open>r2 = Inr u2\<close> \<open>r3 = Inr u3\<close>
            by (simp_all add: run_then)
          from c4 show ?thesis
          proof
            assume "\<exists>e. r4 = Inl e \<and> s4 = s3\<lparr>errorCount := errorCount s3 + 1,
                requests := requests s3 @ [''films/''],
                trace := trace s3 @ [Fetched ''films/'' (Some e)],
                pending := pending s3 @ left_over h (length (requests s3)) e\<rparr>"
            then have "s4 = s3\<lparr>errorCount := errorCount s3 + 1,
                requests := requests s3 @ [''films/''],
                trace := trace s3 @ [Fetched ''films/'' (Some e)],
                pending := pending s3 @ left_over h (length (requests s3)) e\<rparr>"
              using Inl by auto
            then show ?thesis using fin d3
              by (intro exI[of _ "FetchFailed 3 e"]) (simp add: ev)
          next
            assume "trace s4 = trace s3 @ [Fetched ''films/'' None, Display Films] \<and>
                errorCount s4 = errorCount s3 \<and> lastCharacterId s4 = lastCharacterId s3 \<and>
                apiCallCount s4 = apiCallCount s3 \<and> isDebugMode s4 = isDebugMode s3 \<and> pending s4 = pending s3"
            then show ?thesis using fin d3
              by (intro exI[of _ "DisplayThrew 3"]) (simp add: ev)
          qed
        next
          case (Inr u4)
          with c4 have d4: "trace s4 = trace s @ [Fetched (''people/'' @ digits (lastCharacterId s)) None, Display Character,
                Fetched ''starships/?page=1'' None, Display Starships,
                Fetched ''planets/?page=1'' None, Display Planets,
                Fetched ''films/'' None, Display Films]"
            "errorCount s4 = errorCount s" "lastCharacterId s4 = lastCharacterId s"
            "apiCallCount s4 = apiCallCount s + 1" "pending s4 = pending s"
            using d3 by auto
          have rest: "(rb, t) = then_js (vehicle_step h) printStats s4"
            using run body h1 h2 h3 h4 \<open>r1 = Inr u1\<close> \<open>r2 = Inr u2\<close> \<open>r3 = Inr u3\<close> \<open>r4 = Inr u4\<close>
            by (simp add: run_then)
          show ?thesis
          proof (cases "lastCharacterId s \<le> MAX_VEHICLE_CHARACTER_ID")
            case False
            then have "vehicle_step h s4 = (Inr (), s4)"
              using d4 by (simp add: vehicle_step_def run_bind)
            then have "rb = Inr ()" "trace t = trace s4" "errorCount t = errorCount s4"
              "lastCharacterId t = lastCharacterId s4" "apiCallCount t = apiCallCount s4" "pending t = pending s4"
              using rest by (simp_all add: run_then run_printStats)
            then show ?thesis using d4 False
              by (intro exI[of _ Completed]) (simp add: ev)
          next
            case True
            obtain r5 s5 where h5: "handleVehicleData h s4 = (r5, s5)" by fastforce
            note c5 = handleVehicleData_cases[OF h5]
            show ?thesis
            proof (cases r5)
              case (Inl e)
              then have fin: "rb = Inl e" "t = s5"
                using rest h5 True d4 by (simp_all add: run_then vehicle_step_def run_bind)
              from c5 show ?thesis
              proof
                assume "\<exists>e. r5 = Inl e \<and> s5 = s4\<lparr>errorCount := errorCount s4 + 1,
                    requests := requests s4 @ [''vehicles/'' @ digits (lastCharacterId s4)],
                    trace := trace s4 @ [Fetched (''vehicles/'' @ digits (lastCharacterId s4)) (Some e)],
                    pending := pending s4 @ left_over h (length (requests s4)) e\<rparr>"
                then have "s5 = s4\<lparr>errorCount := errorCount s4 + 1,
                    requests := requests s4 @ [''vehicles/'' @ digits (lastCharacterId s4)],
                    trace := trace s4 @ [Fetched (''vehicles/'' @ digits (lastCharacterId s4)) (Some e)],
                    pending := pending s4 @ left_over h (length (requests s4)) e\<rparr>"
                  using Inl by auto
                then show ?thesis using fin d4 True
                  by (intro exI[of _ "FetchFailed 4 e"]) (simp add: ev)
              next
                assume "trace s5 = trace s4 @ [Fetched (''vehicles/'' @ digits (lastCharacterId s4)) None, Display Vehicle] \<and>
                    errorCount s5 = errorCount s4 \<and> lastCharacterId s5 = lastCharacterId s4 \<and>
                    apiCallCount s5 = apiCallCount s4 \<and> isDebugMode s5 = isDebugMode s4 \<and> pending s5 = pending s4"
                then show ?thesis using fin d4 True
                  by (intro exI[of _ "DisplayThrew 4"]) (simp add: ev)
              qed
            next
              case (Inr u5)
              with c5 have d5: "trace s5 = trace s4 @ [Fetched (''vehicles/'' @ digits (lastCharacterId s4)) None, Display Vehicle]"
                "errorCount s5 = errorCount s4" "lastCharacterId s5 = lastCharacterId s4"
                "apiCallCount s5 = apiCallCount s4" "pending s5 = pending s4"
                by auto
              have "vehicle_step h s4 = (Inr (), s5\<lparr>lastCharacterId := lastCharacterId s5 + 1\<rparr>)"
                using h5 Inr True d4 by (simp add: vehicle_step_def run_bind run_then)
              then have "rb = Inr ()" "trace t = trace s5" "errorCount t = errorCount s5"
                "lastCharacterId t = lastCharacterId s5 + 1" "apiCallCount t = apiCallCount s5" "pending t = pending s5"
                using rest by (simp_all add: run_then run_printStats)
              then show ?thesis using d4 d5 True
                by (intro exI[of _ Completed]) (simp add: ev)
            qed
          qed
        qed
      qed
    qed
  qed
qed


lemma run_cases:
  assumes run: "fetchAndDisplayStarWarsData h s = (res, s')"
  shows "res = Inr () \<and>
         (\<exists>oc. outcome_step oc < length (run_paths s) \<and>
           trace s' = trace s @ outcome_trace s oc \<and>
           lastCharacterId s' = outcome_cursor s oc \<and>
           apiCallCount s' = apiCallCount s + 1 \<and>
           pending s' = pending s @ outcome_pending h s' oc \<and>
           errorCount s' = errorCount s + outcome_errors oc)"
proof (cases "run_body h s")
  case (Pair rb t)
  from run_body_cases[OF Pair] obtain oc where oc:
    "outcome_step oc < length (run_paths s)" "trace t = trace s @ outcome_trace s oc"
    "lastCharacterId t = outcome_cursor s oc" "apiCallCount t = apiCallCount s + 1"
    "pending t = pending s @ outcome_pending h t oc"
    and ending: "case oc of
              Completed \<Rightarrow> rb = Inr () \<and> errorCount t = errorCount s
            | DisplayThrew j \<Rightarrow> (\<exists>e. rb = Inl e) \<and> errorCount t = errorCount s
            | FetchFailed j e \<Rightarrow> rb = Inl e \<and> errorCount t = errorCount s + 1"
    by blast
  have same: "outcome_pending h (t\<lparr>console := c, errorCount := n\<rparr>) oc = outcome_pending h t oc" for c n
    by (cases oc) simp_all
  show ?thesis
  proof (cases rb)
    case (Inl e)
    with run Pair have "res = Inr ()"
      "s' = t\<lparr>console := console t @ [Err [Txt ''Error:'', Msg e]], errorCount := errorCount t + 1\<rparr>"
      by (simp_all add: fetchAndDisplayStarWarsData_def run_try run_catch_def run_then)
    moreover from Inl ending have "errorCount t + 1 = errorCount s + outcome_errors oc"
      by (cases oc) auto
    ultimately show ?thesis using oc by (auto simp: same)
  next
    case (Inr u)
    with run Pair have "res = Inr ()" "s' = t"
      by (simp_all add: fetchAndDisplayStarWarsData_def run_try)
    moreover from Inr ending have "errorCount t = errorCount s + outcome_errors oc"
      by (cases oc) auto
    ultimately show ?thesis using oc by auto
  qed
qed

lemma distinct_run_paths: "distinct (run_paths s)"
  by (simp add: run_paths_def)

section \<open>The fetcher\<close>

lemma not_cached_initially: "\<not> isCached initial_state ''films/''"
  by (simp add: isCached_def cache_read_def truthy_val_def initial_state_def
      Object_prototype_members_def)

text \<open>
  C7: when the body of the response does not parse as JSON, the call fails with the
  parse error, the cache (and every parsed value) is as before, and the fetcher has
  incremented the error counter exactly once.
\<close>

theorem C7_parse_failure:
  assumes "\<not> isCached s P"
    and "remote h (length (requests s)) P = Responded status body"
    and "status < HTTP_ERROR_THRESHOLD"
    and "JSON_parse h body = Inl msg"
    and "fetchFromApi h P s = (res, s')"
  shows "res = Inl (SyntaxError msg) \<and> apiCache s' = apiCache s \<and> heap s' = heap s \<and>
         errorCount s' = errorCount s + 1"
  using assms fetch_parse_error[of s P h status body msg] by auto

theorem C7_parse_failure_witness:
  "\<not> isCached initial_state ''films/'' \<and>
   fst (fetchFromApi (example_host ''films/'' (Responded 200 ''<html>'')) ''films/'' initial_state)
     = Inl (SyntaxError ''Unexpected token'') \<and>
   apiCache (snd (fetchFromApi (example_host ''films/'' (Responded 200 ''<html>'')) ''films/'' initial_state))
     = [] \<and>
   errorCount (snd (fetchFromApi (example_host ''films/'' (Responded 200 ''<html>'')) ''films/'' initial_state))
     = 1"
proof -
  let ?h = "example_host ''films/'' (Responded 200 ''<html>'')"
  have 1: "\<not> isCached initial_state ''films/''" by (rule not_cached_initially)
  have 2: "remote ?h (length (requests initial_state)) ''films/'' = Responded 200 ''<html>''"
    by (simp add: example_host_def)
  have 3: "(200::nat) < HTTP_ERROR_THRESHOLD" by (simp add: HTTP_ERROR_THRESHOLD_def)
  have 4: "JSON_parse ?h ''<html>'' = Inl ''Unexpected token''"
    by (simp add: example_host_def example_documents_def)
  have 5: "fetchFromApi ?h ''films/'' initial_state =
      (fst (fetchFromApi ?h ''films/'' initial_state), snd (fetchFromApi ?h ''films/'' initial_state))"
    by simp
  from C7_parse_failure[OF 1 2 3 4 5] 1 show ?thesis
    by (simp add: initial_state_def)
qed

text \<open>
  C9: presence in the cache is the truthiness of the stored value. A path whose cached
  value is falsy is fetched from the network again, and a successful answer replaces
  the entry (the keys of the cache stay the same, the entry refers to the new value).
\<close>

theorem C9_falsy_entry_is_refetched:
  assumes "map_of (apiCache s) P = Some r" and "\<not> truthy (heap s r)"
    and "fetchFromApi h P s = (res, s')"
  shows "\<not> isCached s P \<and> requests s' = requests s @ [P] \<and>
         (\<forall>v. res = Inr v \<longrightarrow>
            v = Ref (next_ref s) \<and> map_of (apiCache s') P = Some (next_ref s) \<and>
            map fst (apiCache s') = map fst (apiCache s) \<and>
            (\<exists>status body. remote h (length (requests s)) P = Responded status body \<and>
               JSON_parse h body = Inr (heap s' (next_ref s))))"
proof -
  have miss: "\<not> isCached s P"
    using assms(1,2) by (simp add: isCached_def cache_read_def truthy_val_def)
  have key: "P \<in> fst ` set (apiCache s)"
    using assms(1) by (metis map_of_eq_None_iff option.distinct(1))
  then have keys: "\<And>x. map fst (AList.update P x (apiCache s)) = map fst (apiCache s)"
    by (simp add: update_keys)
  show ?thesis
    using assms(3) miss
    by (auto simp: fetchFromApi_def createRequest_def https_get_def leave_def on_error_def on_timeout_def
      request_abort_def handleResponseStatus_def
        parseResponseData_def allocate_def run_bind run_then update_conv' keys
        split: if_splits response.splits sum.splits)
qed


lemma null_host_simps:
  "remote null_host n ''films/'' = Responded 200 ''null''"
  "JSON_parse null_host ''null'' = Inr JNull"
  by (simp_all add: null_host_def example_host_def example_documents_def)

lemma null_first_fetch:
  "fetchFromApi null_host ''films/'' initial_state =
     (Inr (Ref 0),
      \<lparr>apiCache = [(''films/'', 0)], heap = (\<lambda>r. JNull)(0 := JNull), next_ref = 1,
       isDebugMode = True, errorCount = 0, lastCharacterId = 1, apiCallCount = 0,
       totalDataSize = 0,
       console = [Log [Txt ''Successfully fetched data for films/''], Log [Txt ''Cache size: 1'']],
       requests = [''films/''], trace = [Fetched ''films/'' None], pending = []\<rparr>)"
proof -
  have t: "(200::nat) < HTTP_ERROR_THRESHOLD" by (simp add: HTTP_ERROR_THRESHOLD_def)
  show ?thesis
    using fetch_success[OF not_cached_initially null_host_simps(1) t null_host_simps(2)]
    by (simp add: initial_state_def digits.simps digit_char_def)
qed

lemma null_cached_eq:
  "null_cached =
      \<lparr>apiCache = [(''films/'', 0)], heap = (\<lambda>r. JNull)(0 := JNull), next_ref = 1,
       isDebugMode = True, errorCount = 0, lastCharacterId = 1, apiCallCount = 0,
       totalDataSize = 0,
       console = [Log [Txt ''Successfully fetched data for films/''], Log [Txt ''Cache size: 1'']],
       requests = [''films/''], trace = [Fetched ''films/'' None], pending = []\<rparr>"
  by (simp add: null_cached_def null_first_fetch)

lemma null_refetched:
  "fetchFromApi null_host ''films/'' null_cached =
     (Inr (Ref 1),
      \<lparr>apiCache = [(''films/'', 1)], heap = (\<lambda>r. JNull)(0 := JNull, 1 := JNull), next_ref = 2,
       isDebugMode = True, errorCount = 0, lastCharacterId = 1, apiCallCount = 0,
       totalDataSize = 0,
       console = [Log [Txt ''Successfully fetched data for films/''], Log [Txt ''Cache size: 1''],
                  Log [Txt ''Successfully fetched data for films/''], Log [Txt ''Cache size: 1'']],
       requests = [''films/'', ''films/''],
       trace = [Fetched ''films/'' None, Fetched ''films/'' None], pending = []\<rparr>)"
proof -
  have n: "\<not> isCached null_cached ''films/''"
    by (simp add: null_cached_eq isCached_def cache_read_def truthy_val_def)
  have t: "(200::nat) < HTTP_ERROR_THRESHOLD" by (simp add: HTTP_ERROR_THRESHOLD_def)
  show ?thesis
    using fetch_success[OF n null_host_simps(1) t null_host_simps(2)]
    by (simp add: null_cached_eq digits.simps digit_char_def)
qed

theorem C9_falsy_entry_is_refetched_witness:
  "map_of (apiCache null_cached) ''films/'' = Some 0 \<and> \<not> truthy (heap null_cached 0) \<and>
   \<not> isCached null_cached ''films/'' \<and>
   fst (fetchFromApi null_host ''films/'' null_cached) = Inr (Ref 1) \<and>
   requests (snd (fetchFromApi null_host ''films/'' null_cached)) = [''films/'', ''films/''] \<and>
   map_of (apiCache (snd (fetchFromApi null_host ''films/'' null_cached))) ''films/'' = Some 1"
proof -
  have 1: "map_of (apiCache null_cached) ''films/'' = Some 0"
    by (simp add: null_cached_eq)
  have 2: "\<not> truthy (heap null_cached 0)"
    by (simp add: null_cached_eq)
  have 3: "fetchFromApi null_host ''films/'' null_cached =
      (fst (fetchFromApi null_host ''films/'' null_cached),
       snd (fetchFromApi null_host ''films/'' null_cached))"
    by simp
  from C9_falsy_entry_is_refetched[OF 1 2 3] 1 2 show ?thesis
    by (simp add: null_refetched)
qed

section \<open>The orchestrator: how a run ends\<close>

lemma take_blocks:
  "take (2 * n) (concat (map (\<lambda>(p, k). [Fetched p None, Display k]) xs)) =
   concat (map (\<lambda>(p, k). [Fetched p None, Display k]) (take n xs))"
proof (induction xs arbitrary: n)
  case Nil
  then show ?case by simp
next
  case (Cons x xs)
  show ?case
  proof (cases n)
    case 0
    then show ?thesis by simp
  next
    case (Suc m)
    then show ?thesis using Cons[of m] by (cases x) simp
  qed
qed

lemma set_blocks:
  "set (concat (map (\<lambda>(p, k). [Fetched p None, Display k]) xs)) =
   (\<lambda>(p, k). Fetched p None) ` set xs \<union> (\<lambda>(p, k). Display k) ` set xs"
  by (induction xs) auto

lemma distinct_run_steps: "distinct run_steps"
  by (simp add: run_steps_def)

lemma length_run_steps: "length run_steps = 5"
  by (simp add: run_steps_def)

lemma failed_not_expected: "Fetched p (Some e) \<notin> set (take n (expected_trace s))"
proof
  assume "Fetched p (Some e) \<in> set (take n (expected_trace s))"
  then have "Fetched p (Some e) \<in> set (expected_trace s)"
    by (rule in_set_takeD)
  then show False
    by (auto simp: expected_trace_def set_blocks)
qed

lemma display_in_prefix:
  assumes "Display (run_steps ! M) \<in> set (take (2 * N) (expected_trace s))"
    and "M < length run_steps"
  shows "M < N"
proof -
  from assms(1) obtain p where "(p, run_steps ! M) \<in> set (take N (zip (run_paths s) run_steps))"
    by (auto simp: expected_trace_def take_blocks set_blocks)
  then have "run_steps ! M \<in> set (take N run_steps)"
    by (metis set_zip_rightD take_zip)
  then obtain i where i: "i < N" "i < length run_steps" "run_steps ! i = run_steps ! M"
    by (auto simp: in_set_conv_nth)
  with assms(2) distinct_run_steps have "i = M"
    by (simp add: nth_eq_iff_index_eq)
  with i show ?thesis by simp
qed

lemma fetched_in_prefix:
  assumes "Fetched (run_paths s ! M) q \<in> set (take (2 * N) (expected_trace s))"
    and "M < length (run_paths s)"
  shows "M < N"
proof -
  from assms(1) obtain k where "(run_paths s ! M, k) \<in> set (take N (zip (run_paths s) run_steps))"
    by (auto simp: expected_trace_def take_blocks set_blocks)
  then have "run_paths s ! M \<in> set (take N (run_paths s))"
    by (metis set_zip_leftD take_zip)
  then obtain i where i: "i < N" "i < length (run_paths s)" "run_paths s ! i = run_paths s ! M"
    by (auto simp: in_set_conv_nth)
  with assms(2) distinct_run_paths[of s] have "i = M"
    by (simp add: nth_eq_iff_index_eq)
  with i show ?thesis by simp
qed

text \<open>A failed fetch in the trace of a run identifies how the run ended.\<close>

lemma failed_fetch_outcome:
  assumes run: "fetchAndDisplayStarWarsData h s = (res, s')"
    and N: "N < length (run_paths s)"
    and failed: "Fetched (run_paths s ! N) (Some e) \<in> set (drop (length (trace s)) (trace s'))"
  shows "res = Inr () \<and> trace s' = trace s @ outcome_trace s (FetchFailed N e) \<and>
         lastCharacterId s' = lastCharacterId s \<and> errorCount s' = errorCount s + 2 \<and>
         pending s' = pending s @ left_over h (length (requests s') - 1) e"
proof -
  from run_cases[OF run] obtain oc where res: "res = Inr ()"
    and oc: "outcome_step oc < length (run_paths s)" "trace s' = trace s @ outcome_trace s oc"
      "lastCharacterId s' = outcome_cursor s oc" "errorCount s' = errorCount s + outcome_errors oc"
      "pending s' = pending s @ outcome_pending h s' oc"
    by blast
  from failed oc(2) have mem: "Fetched (run_paths s ! N) (Some e) \<in> set (outcome_trace s oc)"
    by simp
  show ?thesis
  proof (cases oc)
    case Completed
    with mem failed_not_expected[of _ _ "length (expected_trace s)" s] show ?thesis by simp
  next
    case (DisplayThrew j)
    with mem failed_not_expected show ?thesis by simp
  next
    case (FetchFailed j e')
    with mem failed_not_expected have "run_paths s ! j = run_paths s ! N" "e' = e" by auto
    moreover from oc(1) FetchFailed have "j < length (run_paths s)" by simp
    ultimately have "j = N" "e' = e"
      using N distinct_run_paths[of s] by (simp_all add: nth_eq_iff_index_eq)
    with FetchFailed oc res show ?thesis by simp
  qed
qed

text \<open>
  C2: when the fetch of step \<open>N\<close> of a run fails (steps counted from 0 over character,
  starships, planets, films, vehicle), the run returns normally, the failed fetch is the
  last call of the run, no display function of step \<open>N\<close> or of a later step is called,
  and no later fetch is made.
\<close>

theorem C2_failed_fetch_ends_run:
  assumes run: "fetchAndDisplayStarWarsData h s = (res, s')"
    and N: "N < length (run_paths s)"
    and failed: "Fetched (run_paths s ! N) (Some e) \<in> set (drop (length (trace s)) (trace s'))"
  shows "res = Inr () \<and>
         drop (length (trace s)) (trace s') =
           take (2 * N) (expected_trace s) @ [Fetched (run_paths s ! N) (Some e)] \<and>
         (\<forall>M. N \<le> M \<and> M < length run_steps \<longrightarrow>
            Display (run_steps ! M) \<notin> set (drop (length (trace s)) (trace s'))) \<and>
         (\<forall>M q. N < M \<and> M < length (run_paths s) \<longrightarrow>
            Fetched (run_paths s ! M) q \<notin> set (drop (length (trace s)) (trace s')))"
proof -
  from failed_fetch_outcome[OF run N failed]
  have res: "res = Inr ()"
    and tr: "drop (length (trace s)) (trace s') =
           take (2 * N) (expected_trace s) @ [Fetched (run_paths s ! N) (Some e)]"
    by simp_all
  have no_display: "Display (run_steps ! M) \<notin> set (drop (length (trace s)) (trace s'))"
    if "N \<le> M" "M < length run_steps" for M
    using that display_in_prefix[of M N s] by (auto simp: tr)
  have no_fetch: "Fetched (run_paths s ! M) q \<notin> set (drop (length (trace s)) (trace s'))"
    if "N < M" "M < length (run_paths s)" for M q
  proof
    assume "Fetched (run_paths s ! M) q \<in> set (drop (length (trace s)) (trace s'))"
    then consider "Fetched (run_paths s ! M) q \<in> set (take (2 * N) (expected_trace s))"
      | "run_paths s ! M = run_paths s ! N"
      by (auto simp: tr)
    then show False
    proof cases
      case 1
      with fetched_in_prefix[OF 1 that(2)] that(1) show False by simp
    next
      case 2
      with that N distinct_run_paths[of s] show False
        by (simp add: nth_eq_iff_index_eq)
    qed
  qed
  from res tr no_display no_fetch show ?thesis by blast
qed

text \<open>
  C4, amended: when a fetch of a run fails with an HTTP-status error, the error counter
  is 2 higher when the run has settled (one increment by the fetcher, one by the handler
  of the run), the failed fetch is the last call of the run, and the display function of
  its step is not called. The count is not final: the run leaves pending the callbacks of
  the failed request (its timeout is not cleared and the response is not read), and each
  of them increments the counter once more when the runtime invokes it. Compared with
  the process going idle before the run, the counter of the idle process after the run
  is higher by 2 plus the number of these callbacks.
\<close>

theorem C4_status_error_count:
  assumes run: "fetchAndDisplayStarWarsData h s = (res, s')"
    and N: "N < length (run_paths s)"
    and failed: "Fetched (run_paths s ! N) (Some (HttpStatusError code))
                   \<in> set (drop (length (trace s)) (trace s'))"
  shows "errorCount s' = errorCount s + 2 \<and>
         pending s' = pending s @ afterwards h (length (requests s') - 1) \<and>
         errorCount (idle s') =
           errorCount (idle s) + 2 + length (afterwards h (length (requests s') - 1)) \<and>
         drop (length (trace s)) (trace s') =
           take (2 * N) (expected_trace s) @ [Fetched (run_paths s ! N) (Some (HttpStatusError code))] \<and>
         Display (run_steps ! N) \<notin> set (drop (length (trace s)) (trace s'))"
proof -
  from failed_fetch_outcome[OF run N failed]
  have ec: "errorCount s' = errorCount s + 2"
    and pe: "pending s' = pending s @ afterwards h (length (requests s') - 1)"
    and tr: "drop (length (trace s)) (trace s') =
           take (2 * N) (expected_trace s) @ [Fetched (run_paths s ! N) (Some (HttpStatusError code))]"
    by (simp_all add: left_over_def)
  have idle: "errorCount (idle s') =
           errorCount (idle s) + 2 + length (afterwards h (length (requests s') - 1))"
    by (simp add: errorCount_idle ec pe)
  have "N < length run_steps"
    using N by (simp add: length_run_paths length_run_steps split: if_splits)
  then have "Display (run_steps ! N) \<notin> set (drop (length (trace s)) (trace s'))"
    using display_in_prefix[of N N s] by (auto simp: tr)
  with ec pe idle tr show ?thesis by blast
qed

text \<open>
  C10: when the vehicle fetch of a run fails, the run leaves the cursor as it was (the
  increment comes after the vehicle step), so the next run asks for the same paths.
\<close>

theorem C10_failed_vehicle_keeps_cursor:
  assumes run: "fetchAndDisplayStarWarsData h s = (res, s')"
    and bound: "lastCharacterId s \<le> MAX_VEHICLE_CHARACTER_ID"
    and failed: "Fetched (''vehicles/'' @ digits (lastCharacterId s)) (Some e)
                   \<in> set (drop (length (trace s)) (trace s'))"
  shows "lastCharacterId s' = lastCharacterId s \<and> run_paths s' = run_paths s \<and>
         run_paths s' ! 4 = ''vehicles/'' @ digits (lastCharacterId s)"
proof -
  have N: "4 < length (run_paths s)"
    using bound by (simp add: length_run_paths)
  have p: "run_paths s ! 4 = ''vehicles/'' @ digits (lastCharacterId s)"
    using bound by (rule run_paths_nth)
  from failed_fetch_outcome[OF run N] failed p
  have "lastCharacterId s' = lastCharacterId s" by simp
  moreover from this have "run_paths s' = run_paths s"
    by (simp add: run_paths_def)
  ultimately show ?thesis
    using p by simp
qed

subsection \<open>Example runs\<close>

lemmas run_simps = run_bind run_then run_try fetchAndDisplayStarWarsData_def run_body_def
  run_catch_def handleCharacterData_def handleStarshipsData_def handlePlanetsData_def
  handleFilmsData_def handleVehicleData_def vehicle_step_def display_def reference_def
  stringify_length_def add_totalDataSize_def run_printStats
  fetchFromApi_def createRequest_def https_get_def leave_def on_error_def on_timeout_def
      request_abort_def handleResponseStatus_def parseResponseData_def
  allocate_def isCached_def cache_read_def truthy_val_def Object_prototype_members_def
  HTTP_ERROR_THRESHOLD_def MAX_VEHICLE_CHARACTER_ID_def MAX_STARSHIPS_DISPLAYED_def
  printCharacterData_def printStarshipData_def printLargePlanets_def printFilmsData_def
  printVehicleData_def deref_def property_def property_e_def as_array_def forEach_def
  store_results_def length_of_def js_gt_zero_def
  example_host_def example_documents_def digits.simps digit_char_def nl_def

lemma initial_paths:
  "run_paths initial_state =
     [''people/1'', ''starships/?page=1'', ''planets/?page=1'', ''films/'', ''vehicles/1'']"
  by (simp add: run_paths_def initial_state_def MAX_VEHICLE_CHARACTER_ID_def digits.simps
      digit_char_def)

lemma initial_fields:
  "trace initial_state = []" "errorCount initial_state = 0" "lastCharacterId initial_state = 1"
  "console initial_state = []" "requests initial_state = []" "apiCache initial_state = []"
  "pending initial_state = []"
  by (simp_all add: initial_state_def)

lemma planets_timeout_run:
  "case fetchAndDisplayStarWarsData planets_timeout_host initial_state of
     (res, s') \<Rightarrow>
       res = Inr () \<and>
       trace s' = [Fetched ''people/1'' None, Display Character,
                   Fetched ''starships/?page=1'' None, Display Starships,
                   Fetched ''planets/?page=1'' (Some (TimeoutError ''planets/?page=1''))] \<and>
       requests s' = [''people/1'', ''starships/?page=1'', ''planets/?page=1'']"
  by (simp add: planets_timeout_host_def run_simps initial_state_def)

theorem C2_failed_fetch_ends_run_witness:
  "2 < length (run_paths initial_state) \<and>
   Fetched (run_paths initial_state ! 2) (Some (TimeoutError ''planets/?page=1''))
     \<in> set (trace (snd (fetchAndDisplayStarWarsData planets_timeout_host initial_state))) \<and>
   fst (fetchAndDisplayStarWarsData planets_timeout_host initial_state) = Inr () \<and>
   trace (snd (fetchAndDisplayStarWarsData planets_timeout_host initial_state)) =
     [Fetched ''people/1'' None, Display Character,
      Fetched ''starships/?page=1'' None, Display Starships,
      Fetched ''planets/?page=1'' (Some (TimeoutError ''planets/?page=1''))] \<and>
   Display Planets \<notin> set (trace (snd (fetchAndDisplayStarWarsData planets_timeout_host initial_state))) \<and>
   Display Films \<notin> set (trace (snd (fetchAndDisplayStarWarsData planets_timeout_host initial_state))) \<and>
   Display Vehicle \<notin> set (trace (snd (fetchAndDisplayStarWarsData planets_timeout_host initial_state)))"
proof -
  obtain res s' where run: "fetchAndDisplayStarWarsData planets_timeout_host initial_state = (res, s')"
    by fastforce
  with planets_timeout_run have tr: "trace s' =
      [Fetched ''people/1'' None, Display Character,
       Fetched ''starships/?page=1'' None, Display Starships,
       Fetched ''planets/?page=1'' (Some (TimeoutError ''planets/?page=1''))]"
    by simp
  have n: "2 < length (run_paths initial_state)"
    by (simp add: initial_paths)
  have failed: "Fetched (run_paths initial_state ! 2) (Some (TimeoutError ''planets/?page=1''))
      \<in> set (drop (length (trace initial_state)) (trace s'))"
    by (simp add: initial_paths initial_fields tr)
  from C2_failed_fetch_ends_run[OF run n failed] n failed show ?thesis
    by (simp add: run initial_fields tr)
qed

lemma people_500_run:
  "fetchAndDisplayStarWarsData people_500_host initial_state =
     (Inr (),
      initial_state\<lparr>errorCount := 2, apiCallCount := 1,
        console := [Log [Txt ''Starting data fetch...''],
                    Err [Txt ''Error:'', Msg (HttpStatusError 500)]],
        requests := [''people/1''],
        trace := [Fetched ''people/1'' (Some (HttpStatusError 500))],
        pending := [TimeoutCallback ''people/1'']\<rparr>)"
  by (simp add: people_500_host_def run_simps initial_state_def)

text \<open>
  C4 as stated does not hold: 2 is the increase when the run settles, not the total. In
  the HTTP 500 scenario for \<open>people/1\<close> on a fresh process the counter is 2 after the
  run, the timeout of the request is still pending, and its callback makes it 3.
\<close>

theorem C4_counterexample:
  "errorCount (snd (fetchAndDisplayStarWarsData people_500_host initial_state)) = 2 \<and>
   trace (snd (fetchAndDisplayStarWarsData people_500_host initial_state)) =
     [Fetched ''people/1'' (Some (HttpStatusError 500))] \<and>
   pending (snd (fetchAndDisplayStarWarsData people_500_host initial_state)) =
     [TimeoutCallback ''people/1''] \<and>
   errorCount (snd (event_loop_turn (TimeoutCallback ''people/1'')
     (snd (fetchAndDisplayStarWarsData people_500_host initial_state)))) = 3"
  by (simp add: people_500_run run_event_loop_turn)

theorem C4_status_error_count_witness:
  "0 < length (run_paths initial_state) \<and>
   Fetched (run_paths initial_state ! 0) (Some (HttpStatusError 500))
     \<in> set (trace (snd (fetchAndDisplayStarWarsData people_500_host initial_state))) \<and>
   errorCount (snd (fetchAndDisplayStarWarsData people_500_host initial_state)) = 2 \<and>
   pending (snd (fetchAndDisplayStarWarsData people_500_host initial_state)) =
     [TimeoutCallback ''people/1''] \<and>
   errorCount (idle initial_state) = 0 \<and>
   errorCount (idle (snd (fetchAndDisplayStarWarsData people_500_host initial_state))) = 3 \<and>
   Display Character \<notin> set (trace (snd (fetchAndDisplayStarWarsData people_500_host initial_state))) \<and>
   console (snd (fetchAndDisplayStarWarsData people_500_host initial_state)) =
     [Log [Txt ''Starting data fetch...''], Err [Txt ''Error:'', Msg (HttpStatusError 500)]]"
proof -
  let ?s' = "snd (fetchAndDisplayStarWarsData people_500_host initial_state)"
  have run: "fetchAndDisplayStarWarsData people_500_host initial_state = (Inr (), ?s')"
    by (simp add: people_500_run)
  have n: "0 < length (run_paths initial_state)"
    by (simp add: initial_paths)
  have failed: "Fetched (run_paths initial_state ! 0) (Some (HttpStatusError 500))
      \<in> set (drop (length (trace initial_state)) (trace ?s'))"
    by (simp add: initial_paths people_500_run initial_fields)
  have later: "afterwards people_500_host k = [TimeoutCallback ''people/1'']" for k
    by (simp add: people_500_host_def)
  have idle0: "errorCount (idle initial_state) = 0"
    by (simp add: errorCount_idle initial_state_def)
  from C4_status_error_count[OF run n failed]
  have counts: "errorCount ?s' = 2" "pending ?s' = [TimeoutCallback ''people/1'']"
    "errorCount (idle ?s') = 3"
    by (simp_all add: initial_fields idle0 later)
  have shown: "Fetched (run_paths initial_state ! 0) (Some (HttpStatusError 500)) \<in> set (trace ?s')"
    "Display Character \<notin> set (trace ?s')"
    "console ?s' =
       [Log [Txt ''Starting data fetch...''], Err [Txt ''Error:'', Msg (HttpStatusError 500)]]"
    by (simp_all add: people_500_run initial_paths)
  from n counts idle0 shown show ?thesis
    by blast
qed

lemma vehicle_down_run:
  "case fetchAndDisplayStarWarsData vehicle_down_host initial_state of
     (res, s') \<Rightarrow>
       res = Inr () \<and>
       trace s' = [Fetched ''people/1'' None, Display Character,
                   Fetched ''starships/?page=1'' None, Display Starships,
                   Fetched ''planets/?page=1'' None, Display Planets,
                   Fetched ''films/'' None, Display Films,
                   Fetched ''vehicles/1'' (Some (NetworkError ''socket hang up''))] \<and>
       lastCharacterId s' = 1 \<and> errorCount s' = 2"
  by (simp add: vehicle_down_host_def run_simps initial_state_def)

theorem C10_failed_vehicle_keeps_cursor_witness:
  "lastCharacterId initial_state \<le> MAX_VEHICLE_CHARACTER_ID \<and>
   Fetched (''vehicles/'' @ digits (lastCharacterId initial_state)) (Some (NetworkError ''socket hang up''))
     \<in> set (trace (snd (fetchAndDisplayStarWarsData vehicle_down_host initial_state))) \<and>
   lastCharacterId (snd (fetchAndDisplayStarWarsData vehicle_down_host initial_state)) = 1 \<and>
   run_paths (snd (fetchAndDisplayStarWarsData vehicle_down_host initial_state)) ! 4 = ''vehicles/1''"
proof -
  obtain res s' where run: "fetchAndDisplayStarWarsData vehicle_down_host initial_state = (res, s')"
    by fastforce
  with vehicle_down_run have tr: "trace s' =
      [Fetched ''people/1'' None, Display Character,
       Fetched ''starships/?page=1'' None, Display Starships,
       Fetched ''planets/?page=1'' None, Display Planets,
       Fetched ''films/'' None, Display Films,
       Fetched ''vehicles/1'' (Some (NetworkError ''socket hang up''))]"
    by simp
  have d: "digits (Suc 0) = ''1''"
    by (simp add: digits.simps digit_char_def)
  have bound: "lastCharacterId initial_state \<le> MAX_VEHICLE_CHARACTER_ID"
    by (simp add: initial_state_def MAX_VEHICLE_CHARACTER_ID_def)
  have failed: "Fetched (''vehicles/'' @ digits (lastCharacterId initial_state))
      (Some (NetworkError ''socket hang up'')) \<in> set (drop (length (trace initial_state)) (trace s'))"
    by (simp add: d initial_fields tr)
  from C10_failed_vehicle_keeps_cursor[OF run bound failed] bound failed show ?thesis
    by (simp add: run initial_fields initial_paths tr d)
qed

subsection \<open>Runs in which every step succeeds\<close>

lemma all_ok_host_simps:
  "remote all_ok_host n (x # xs) = Responded 200 ''{\"results\":[]}''"
  "JSON_parse all_ok_host ''{\"results\":[]}'' = Inr empty_results"
  by (simp_all add: all_ok_host_def example_host_def example_documents_def empty_results_def)

lemma ok_fetch:
  assumes "all_empty s" and "p \<notin> set Object_prototype_members" and "p \<noteq> []"
  shows "\<exists>r s'. fetchFromApi all_ok_host p s = (Inr (Ref r), s') \<and> heap s' r = empty_results \<and>
           all_empty s' \<and> lastCharacterId s' = lastCharacterId s \<and> errorCount s' = errorCount s"
proof (cases "isCached s p")
  case True
  with assms(2) obtain r where r: "map_of (apiCache s) p = Some r"
    by (auto simp: isCached_def cache_read_def truthy_val_def split: option.splits)
  then have "cache_read s p = Ref r" by (simp add: cache_read_def)
  moreover from r assms(1) have "heap s r = empty_results" by (simp add: all_empty_def)
  ultimately show ?thesis
    using assms(1) by (simp add: fetch_hit[OF True] all_empty_def)
next
  case False
  from assms(3) obtain x xs where p: "p = x # xs" by (cases p) auto
  have t: "(200::nat) < HTTP_ERROR_THRESHOLD" by (simp add: HTTP_ERROR_THRESHOLD_def)
  have "remote all_ok_host (length (requests s)) p = Responded 200 ''{\"results\":[]}''"
    by (simp add: p all_ok_host_simps)
  from fetch_success[OF False this t all_ok_host_simps(2)] assms(1) show ?thesis
    by (auto simp: all_empty_def update_conv')
qed

lemma ok_step:
  assumes s: "all_empty s" and p: "p \<notin> set Object_prototype_members" "p \<noteq> []"
    and printer: "\<And>r t. heap t r = empty_results \<Longrightarrow>
                    \<exists>out. printer r t = (Inr (), t\<lparr>console := console t @ out\<rparr>)"
  shows "\<exists>s'. bind_js (fetchFromApi all_ok_host p) (\<lambda>v. bind_js (stringify_length all_ok_host v)
                 (\<lambda>n. then_js (add_totalDataSize n) (display k printer v))) s = (Inr (), s') \<and>
              all_empty s' \<and> lastCharacterId s' = lastCharacterId s \<and> errorCount s' = errorCount s"
proof -
  from ok_fetch[OF s p] obtain r t where f: "fetchFromApi all_ok_host p s = (Inr (Ref r), t)"
    and t: "heap t r = empty_results" "all_empty t" "lastCharacterId t = lastCharacterId s"
      "errorCount t = errorCount s"
    by blast
  define u where "u = t\<lparr>totalDataSize := totalDataSize t + length (JSON_stringify all_ok_host (heap t r)),
                         trace := trace t @ [Display k]\<rparr>"
  have "heap u r = empty_results" by (simp add: u_def t)
  from printer[OF this] obtain out where "printer r u = (Inr (), u\<lparr>console := console u @ out\<rparr>)"
    by blast
  then have "bind_js (fetchFromApi all_ok_host p) (\<lambda>v. bind_js (stringify_length all_ok_host v)
                 (\<lambda>n. then_js (add_totalDataSize n) (display k printer v))) s
             = (Inr (), u\<lparr>console := console u @ out\<rparr>)"
    using f by (simp add: run_bind run_then stringify_length_def add_totalDataSize_def
        run_display_Ref u_def)
  moreover have "all_empty (u\<lparr>console := console u @ out\<rparr>)"
    using t(2) by (simp add: all_empty_def u_def)
  ultimately show ?thesis using t by (simp add: u_def)
qed

lemmas print_simps = run_bind run_then printCharacterData_def printStarshipData_def
  printLargePlanets_def printFilmsData_def printVehicleData_def deref_def property_def
  property_e_def as_array_def forEach_def store_results_def length_of_def js_gt_zero_def
  MAX_STARSHIPS_DISPLAYED_def empty_results_def

lemma ok_printCharacterData:
  "heap t r = empty_results \<Longrightarrow>
     \<exists>out. printCharacterData h r t = (Inr (), t\<lparr>console := console t @ out\<rparr>)"
  by (simp add: print_simps) (rule exI, rule refl)

lemma ok_printStarshipData:
  "heap t r = empty_results \<Longrightarrow>
     \<exists>out. printStarshipData h r t = (Inr (), t\<lparr>console := console t @ out\<rparr>)"
  by (simp add: print_simps) (rule exI, rule refl)

lemma ok_printLargePlanets:
  "heap t r = empty_results \<Longrightarrow>
     \<exists>out. printLargePlanets h r t = (Inr (), t\<lparr>console := console t @ out\<rparr>)"
  by (simp add: print_simps) (rule exI, rule refl)

lemma ok_printFilmsData:
  assumes "heap t r = empty_results"
  shows "\<exists>out. printFilmsData h r t = (Inr (), t\<lparr>console := console t @ out\<rparr>)"
proof -
  have "(heap t)(r := empty_results) = heap t"
    using assms by (simp add: fun_upd_idem)
  then show ?thesis
    using assms by (simp add: print_simps) (rule exI, rule refl)
qed

lemma ok_printVehicleData:
  "heap t r = empty_results \<Longrightarrow>
     \<exists>out. printVehicleData h r t = (Inr (), t\<lparr>console := console t @ out\<rparr>)"
  by (simp add: print_simps) (rule exI, rule refl)

lemma ok_run:
  assumes "all_empty s"
  shows "\<exists>s'. fetchAndDisplayStarWarsData all_ok_host s = (Inr (), s') \<and> all_empty s' \<and>
           errorCount s' = errorCount s \<and>
           lastCharacterId s' = (if lastCharacterId s \<le> MAX_VEHICLE_CHARACTER_ID
                                 then lastCharacterId s + 1 else lastCharacterId s)"
proof -
  define s0 where "s0 = s\<lparr>console := console s @
      (if isDebugMode s then [Log [Txt ''Starting data fetch...'']] else []),
      apiCallCount := apiCallCount s + 1\<rparr>"
  have s0: "all_empty s0" "lastCharacterId s0 = lastCharacterId s" "errorCount s0 = errorCount s"
    using assms by (simp_all add: s0_def all_empty_def)
  have body: "run_body all_ok_host s =
      then_js (handleCharacterData all_ok_host) (then_js (handleStarshipsData all_ok_host)
     (then_js (handlePlanetsData all_ok_host) (then_js (handleFilmsData all_ok_host)
     (then_js (vehicle_step all_ok_host) printStats)))) s0"
    by (simp add: run_body_def run_then s0_def)
  obtain s1 where 1: "handleCharacterData all_ok_host s0 = (Inr (), s1)" "all_empty s1"
    "lastCharacterId s1 = lastCharacterId s" "errorCount s1 = errorCount s"
    using ok_step[where k = Character and printer = "printCharacterData all_ok_host",
        OF s0(1) not_inherited_people _ ok_printCharacterData, of "digits (lastCharacterId s0)"]
      s0 by (auto simp: handleCharacterData_def run_bind)
  obtain s2 where 2: "handleStarshipsData all_ok_host s1 = (Inr (), s2)" "all_empty s2"
    "lastCharacterId s2 = lastCharacterId s" "errorCount s2 = errorCount s"
    using ok_step[where k = Starships and printer = "printStarshipData all_ok_host",
        OF 1(2) not_inherited_fixed(1) _ ok_printStarshipData] 1
    by (auto simp: handleStarshipsData_def)
  obtain s3 where 3: "handlePlanetsData all_ok_host s2 = (Inr (), s3)" "all_empty s3"
    "lastCharacterId s3 = lastCharacterId s" "errorCount s3 = errorCount s"
    using ok_step[where k = Planets and printer = "printLargePlanets all_ok_host",
        OF 2(2) not_inherited_fixed(2) _ ok_printLargePlanets] 2
    by (auto simp: handlePlanetsData_def)
  obtain s4 where 4: "handleFilmsData all_ok_host s3 = (Inr (), s4)" "all_empty s4"
    "lastCharacterId s4 = lastCharacterId s" "errorCount s4 = errorCount s"
    using ok_step[where k = Films and printer = "printFilmsData all_ok_host",
        OF 3(2) not_inherited_fixed(3) _ ok_printFilmsData] 3
    by (auto simp: handleFilmsData_def)
  have rest: "run_body all_ok_host s = then_js (vehicle_step all_ok_host) printStats s4"
    using body 1(1) 2(1) 3(1) 4(1) by (simp add: run_then)
  show ?thesis
  proof (cases "lastCharacterId s \<le> MAX_VEHICLE_CHARACTER_ID")
    case False
    then have "vehicle_step all_ok_host s4 = (Inr (), s4)"
      using 4 by (simp add: vehicle_step_def run_bind)
    with rest have "run_body all_ok_host s = printStats s4"
      by (simp add: run_then)
    then show ?thesis
      using 4 False
      by (simp add: fetchAndDisplayStarWarsData_def run_try run_printStats all_empty_def)
  next
    case True
    obtain s5 where 5: "handleVehicleData all_ok_host s4 = (Inr (), s5)" "all_empty s5"
      "lastCharacterId s5 = lastCharacterId s" "errorCount s5 = errorCount s"
      using ok_step[where k = Vehicle and printer = "printVehicleData all_ok_host",
        OF 4(2) not_inherited_vehicles _ ok_printVehicleData, of "digits (lastCharacterId s4)"]
        4 by (auto simp: handleVehicleData_def run_bind)
    have "vehicle_step all_ok_host s4 = (Inr (), s5\<lparr>lastCharacterId := lastCharacterId s5 + 1\<rparr>)"
      using True 4 5 by (simp add: vehicle_step_def run_bind run_then)
    with rest have "run_body all_ok_host s = printStats (s5\<lparr>lastCharacterId := lastCharacterId s5 + 1\<rparr>)"
      by (simp add: run_then)
    then show ?thesis
      using 5 True
      by (simp add: fetchAndDisplayStarWarsData_def run_try run_printStats all_empty_def)
  qed
qed

lemma ok_runs:
  "n \<le> 4 \<Longrightarrow> all_empty (runs all_ok_host n initial_state) \<and>
     lastCharacterId (runs all_ok_host n initial_state) = n + 1 \<and>
     errorCount (runs all_ok_host n initial_state) = 0"
proof (induction n)
  case 0
  then show ?case by (simp add: all_empty_def initial_state_def)
next
  case (Suc n)
  then have ih: "all_empty (runs all_ok_host n initial_state)"
    "lastCharacterId (runs all_ok_host n initial_state) = n + 1"
    "errorCount (runs all_ok_host n initial_state) = 0"
    by simp_all
  from ok_run[OF ih(1)] ih(2,3) Suc.prems show ?case
    by (auto simp: MAX_VEHICLE_CHARACTER_ID_def)
qed

text \<open>
  C3, as stated, fails: the guard of the vehicle step admits the cursor value 4, and the
  step then increments it, so four successful runs take the cursor from 1 to 5.
\<close>

theorem C3_counterexample:
  "lastCharacterId (runs all_ok_host 4 initial_state) = 5 \<and>
   MAX_VEHICLE_CHARACTER_ID < lastCharacterId (runs all_ok_host 4 initial_state)"
  using ok_runs[of 4] by (simp add: MAX_VEHICLE_CHARACTER_ID_def)

section \<open>Invariants of the process\<close>

lemma fetch_miss_ok:
  assumes "\<not> isCached s Q" and "fetchFromApi h Q s = (Inr w, s')"
  shows "\<exists>status body v. remote h (length (requests s)) Q = Responded status body \<and>
           status < HTTP_ERROR_THRESHOLD \<and> JSON_parse h body = Inr v"
  using assms
  by (auto simp: fetchFromApi_def createRequest_def https_get_def leave_def on_error_def on_timeout_def
      request_abort_def handleResponseStatus_def
      parseResponseData_def allocate_def run_bind run_then
      split: if_splits response.splits sum.splits)

lemma fetch_miss_cases:
  assumes "\<not> isCached s Q" and "fetchFromApi h Q s = (res, s')"
  shows "(\<exists>e. res = Inl e \<and>
              s' = s\<lparr>errorCount := errorCount s + 1, requests := requests s @ [Q],
                     trace := trace s @ [Fetched Q (Some e)],
                     pending := pending s @ left_over h (length (requests s)) e\<rparr>)
       \<or> (\<exists>v out. res = Inr (Ref (next_ref s)) \<and>
              s' = s\<lparr>apiCache := AList.update Q (next_ref s) (apiCache s),
                     heap := (heap s)(next_ref s := v), next_ref := next_ref s + 1,
                     console := console s @ out, requests := requests s @ [Q],
                     trace := trace s @ [Fetched Q None]\<rparr>)"
proof (cases res)
  case (Inl e)
  with assms(2) fetch_fail show ?thesis by blast
next
  case (Inr w)
  with assms fetch_miss_ok obtain status body v
    where ok: "remote h (length (requests s)) Q = Responded status body"
      "status < HTTP_ERROR_THRESHOLD" "JSON_parse h body = Inr v"
    by blast
  define out where "out = (if isDebugMode s
             then [Log [Txt (''Successfully fetched data for '' @ Q)],
                   Log [Txt (''Cache size: '' @
                             digits (length (AList.update Q (next_ref s) (apiCache s))))]]
             else [])"
  from fetch_success[OF assms(1) ok] assms(2)
  have "res = Inr (Ref (next_ref s)) \<and>
        s' = s\<lparr>apiCache := AList.update Q (next_ref s) (apiCache s),
                     heap := (heap s)(next_ref s := v), next_ref := next_ref s + 1,
                     console := console s @ out, requests := requests s @ [Q],
                     trace := trace s @ [Fetched Q None]\<rparr>"
    by (simp add: out_def)
  then show ?thesis by blast
qed

lemma fetch_hit_state:
  assumes "isCached s Q" and "fetchFromApi h Q s = (res, s')"
  shows "\<exists>c t. s' = s\<lparr>console := c, trace := t\<rparr>"
proof -
  from fetch_hit[OF assms(1), of h] assms(2)
  have "s' = s\<lparr>console := console s @
                 (if isDebugMode s then [Log [Txt ''Using cached data for'', Txt Q]] else []),
               trace := trace s @ [Fetched Q None]\<rparr>"
    by simp
  then show ?thesis by blast
qed

lemma truthy_val_fields:
  "truthy_val (s\<lparr>console := c\<rparr>) v = truthy_val s v"
  "truthy_val (s\<lparr>trace := t\<rparr>) v = truthy_val s v"
  "truthy_val (s\<lparr>errorCount := n\<rparr>) v = truthy_val s v"
  "truthy_val (s\<lparr>requests := q\<rparr>) v = truthy_val s v"
  "truthy_val (s\<lparr>apiCallCount := n\<rparr>) v = truthy_val s v"
  "truthy_val (s\<lparr>totalDataSize := n\<rparr>) v = truthy_val s v"
  "truthy_val (s\<lparr>lastCharacterId := n\<rparr>) v = truthy_val s v"
  "truthy_val (s\<lparr>pending := cs\<rparr>) v = truthy_val s v"
  by (cases v; simp add: truthy_val_def)+

lemma cache_fields:
  "cache_allocated (s\<lparr>console := c\<rparr>) = cache_allocated s"
  "cache_allocated (s\<lparr>trace := t\<rparr>) = cache_allocated s"
  "cache_allocated (s\<lparr>errorCount := n\<rparr>) = cache_allocated s"
  "cache_allocated (s\<lparr>requests := q\<rparr>) = cache_allocated s"
  "cache_allocated (s\<lparr>apiCallCount := n\<rparr>) = cache_allocated s"
  "cache_allocated (s\<lparr>totalDataSize := n\<rparr>) = cache_allocated s"
  "cache_allocated (s\<lparr>lastCharacterId := n\<rparr>) = cache_allocated s"
  "cache_allocated (s\<lparr>pending := cs\<rparr>) = cache_allocated s"
  "cache_allocated (s\<lparr>heap := hp\<rparr>) = cache_allocated s"
  "caches P v (s\<lparr>console := c\<rparr>) = caches P v s"
  "caches P v (s\<lparr>trace := t\<rparr>) = caches P v s"
  "caches P v (s\<lparr>errorCount := n\<rparr>) = caches P v s"
  "caches P v (s\<lparr>requests := q\<rparr>) = caches P v s"
  "caches P v (s\<lparr>apiCallCount := n\<rparr>) = caches P v s"
  "caches P v (s\<lparr>totalDataSize := n\<rparr>) = caches P v s"
  "caches P v (s\<lparr>lastCharacterId := n\<rparr>) = caches P v s"
  "caches P v (s\<lparr>pending := cs\<rparr>) = caches P v s"
  by (simp_all add: caches_def cache_allocated_def cache_read_def truthy_val_fields)

lemma fetch_keeps_allocated:
  assumes "cache_allocated s" and "fetchFromApi h Q s = (res, s')"
  shows "cache_allocated s'"
proof (cases "isCached s Q")
  case True
  from fetch_hit_state[OF True assms(2)] assms(1) show ?thesis
    by (auto simp: cache_fields)
next
  case False
  from fetch_miss_cases[OF False assms(2)] show ?thesis
  proof
    assume "\<exists>e. res = Inl e \<and>
              s' = s\<lparr>errorCount := errorCount s + 1, requests := requests s @ [Q],
                     trace := trace s @ [Fetched Q (Some e)],
                     pending := pending s @ left_over h (length (requests s)) e\<rparr>"
    with assms(1) show ?thesis
      by (auto simp: cache_fields)
  next
    assume "\<exists>w out. res = Inr (Ref (next_ref s)) \<and>
              s' = s\<lparr>apiCache := AList.update Q (next_ref s) (apiCache s),
                     heap := (heap s)(next_ref s := w), next_ref := next_ref s + 1,
                     console := console s @ out, requests := requests s @ [Q],
                     trace := trace s @ [Fetched Q None]\<rparr>"
    then obtain w out where s': "s' = s\<lparr>apiCache := AList.update Q (next_ref s) (apiCache s),
                     heap := (heap s)(next_ref s := w), next_ref := next_ref s + 1,
                     console := console s @ out, requests := requests s @ [Q],
                     trace := trace s @ [Fetched Q None]\<rparr>"
      by blast
    show ?thesis
      unfolding cache_allocated_def
    proof (intro allI impI)
      fix k r
      assume "map_of (apiCache s') k = Some r"
      then have "(k = Q \<and> r = next_ref s) \<or> map_of (apiCache s) k = Some r"
        by (simp add: s' update_conv' split: if_splits)
      with assms(1) show "r < next_ref s'"
        by (auto simp: s' cache_allocated_def less_Suc_eq)
    qed
  qed
qed

lemma fetch_keeps_entry:
  assumes "caches P v s" and "fetchFromApi h Q s = (res, s')"
  shows "caches P v s'"
proof (cases "isCached s Q")
  case True
  from fetch_hit_state[OF True assms(2)] assms(1) show ?thesis
    by (auto simp: cache_fields)
next
  case False
  with assms(1) have neq: "Q \<noteq> P"
    by (auto simp: caches_def isCached_def)
  have alloc: "cache_allocated s'"
    using assms fetch_keeps_allocated by (auto simp: caches_def)
  from fetch_miss_cases[OF False assms(2)] show ?thesis
  proof
    assume "\<exists>e. res = Inl e \<and>
              s' = s\<lparr>errorCount := errorCount s + 1, requests := requests s @ [Q],
                     trace := trace s @ [Fetched Q (Some e)],
                     pending := pending s @ left_over h (length (requests s)) e\<rparr>"
    with assms(1) show ?thesis
      by (auto simp: cache_fields)
  next
    assume "\<exists>w out. res = Inr (Ref (next_ref s)) \<and>
              s' = s\<lparr>apiCache := AList.update Q (next_ref s) (apiCache s),
                     heap := (heap s)(next_ref s := w), next_ref := next_ref s + 1,
                     console := console s @ out, requests := requests s @ [Q],
                     trace := trace s @ [Fetched Q None]\<rparr>"
    then obtain w out where s': "s' = s\<lparr>apiCache := AList.update Q (next_ref s) (apiCache s),
                     heap := (heap s)(next_ref s := w), next_ref := next_ref s + 1,
                     console := console s @ out, requests := requests s @ [Q],
                     trace := trace s @ [Fetched Q None]\<rparr>"
      by blast
    have read: "cache_read s' P = cache_read s P"
      using neq by (simp add: s' cache_read_def update_conv')
    have "truthy_val s' v"
    proof (cases v)
      case Undefined
      with assms(1) show ?thesis by (simp add: caches_def truthy_val_def)
    next
      case (Inherited m)
      then show ?thesis by (simp add: truthy_val_def)
    next
      case (Ref r)
      with assms(1) have r: "map_of (apiCache s) P = Some r" "truthy (heap s r)"
        by (auto simp: caches_def cache_read_def truthy_val_def split: option.splits if_splits)
      with assms(1) have "r < next_ref s"
        by (simp add: caches_def cache_allocated_def)
      with r show ?thesis
        using Ref by (simp add: s' truthy_val_def)
    qed
    with read alloc assms(1) show ?thesis
      by (simp add: caches_def)
  qed
qed

lemma process_inv_allocated: "process_inv h cache_allocated"
  unfolding process_inv_def
  using fetch_keeps_allocated by (simp add: cache_fields)

lemma process_inv_caches: "process_inv h (caches P v)"
proof -
  have cell: "caches P v (s\<lparr>heap := (heap s)(r := w)\<rparr>)"
    if "truthy w = truthy (heap s r)" "caches P v s" for s r w
    using that by (cases v) (auto simp: caches_def cache_allocated_def cache_read_def truthy_val_def)
  show ?thesis
    unfolding process_inv_def
    using fetch_keeps_entry cell
    by (simp add: cache_fields)
qed

lemma frame_rel_keeps_inv: "process_inv h I \<Longrightarrow> frame_rel (keeps_inv I)"
  by (simp add: frame_rel_def keeps_inv_def process_inv_def)

lemma within_weaken: "within R m \<Longrightarrow> (\<And>s s'. R s s' \<Longrightarrow> R' s s') \<Longrightarrow> within R' m"
  by (simp add: within_def)

lemma process_inv_fetch:
  assumes "process_inv h I" and "I s" and "fetchFromApi h Q s = (res, s')"
  shows "I s'"
proof -
  from assms(1) have "\<forall>s Q res s'. I s \<longrightarrow> fetchFromApi h Q s = (res, s') \<longrightarrow> I s'"
    by (simp add: process_inv_def)
  with assms(2,3) show ?thesis by blast
qed

lemma process_inv_cell:
  assumes "process_inv h I" and "I s" and "truthy v = truthy (heap s r)"
  shows "I (s\<lparr>heap := (heap s)(r := v)\<rparr>)"
proof -
  from assms(1) have "\<forall>s r v. truthy v = truthy (heap s r) \<longrightarrow> I s \<longrightarrow> I (s\<lparr>heap := (heap s)(r := v)\<rparr>)"
    by (simp add: process_inv_def)
  with assms(2,3) show ?thesis by blast
qed

lemma process_inv_console:
  assumes "process_inv h I"
  shows "I (s\<lparr>console := c\<rparr>) = I s"
  using assms by (simp add: process_inv_def)

lemma logs_and_cell_keeps_inv:
  assumes "process_inv h I" and "logs_and_cell r s s'"
  shows "keeps_inv I s s'"
proof -
  from assms(2) obtain out v where s': "s' = s\<lparr>console := console s @ out, heap := (heap s)(r := v)\<rparr>"
    and v: "truthy v = truthy (heap s r)"
    unfolding logs_and_cell_def by blast
  have "I s'" if "I s"
  proof -
    have "I (s\<lparr>heap := (heap s)(r := v)\<rparr>)"
      using process_inv_cell[OF assms(1) that v] .
    then have "I (s\<lparr>heap := (heap s)(r := v)\<rparr>\<lparr>console := console s @ out\<rparr>)"
      by (simp only: process_inv_console[OF assms(1)])
    moreover have "s' = s\<lparr>heap := (heap s)(r := v)\<rparr>\<lparr>console := console s @ out\<rparr>"
      unfolding s' by (rule state.equality) simp_all
    ultimately show ?thesis by simp
  qed
  then show ?thesis
    by (simp add: keeps_inv_def)
qed

lemma within_try:
  assumes R: "frame_rel R" and m: "within R m" and f: "\<And>e. within R (f e)"
  shows "within R (try_js m f)"
  unfolding within_def
proof
  fix s
  show "R s (snd (try_js m f s))"
  proof (cases "m s")
    case (Pair res t)
    have st: "R s t" using m Pair unfolding within_def by (metis snd_conv)
    show ?thesis
    proof (cases res)
      case (Inr x)
      then show ?thesis using Pair st by (simp add: run_try)
    next
      case (Inl e)
      have "R t (snd (f e t))" using f unfolding within_def by blast
      with st have "R s (snd (f e t))" using R unfolding frame_rel_def by blast
      then show ?thesis using Pair Inl by (simp add: run_try)
    qed
  qed
qed

lemma within_keeps_update:
  assumes "\<And>s. I s \<Longrightarrow> I (f s)"
  shows "within (keeps_inv I) (update_js f)"
  using assms by (simp add: within_def keeps_inv_def)

lemma run_keeps_inv:
  assumes inv: "process_inv h I"
  shows "within (keeps_inv I) (fetchAndDisplayStarWarsData h)"
proof -
  note R = frame_rel_keeps_inv[OF inv]
  have upd: "within (keeps_inv I) (update_js (\<lambda>s. s\<lparr>apiCallCount := apiCallCount s + 1\<rparr>))"
    "within (keeps_inv I) (update_js (\<lambda>s. s\<lparr>lastCharacterId := lastCharacterId s + 1\<rparr>))"
    "\<And>n. within (keeps_inv I) (add_totalDataSize n)"
    "\<And>ev. within (keeps_inv I) (ghost ev)"
    "within (keeps_inv I) increment_errorCount"
    "\<And>a. within (keeps_inv I) (console_error a)"
    using inv
    by (simp_all add: within_def keeps_inv_def process_inv_def add_totalDataSize_def)
  have dbg: "\<And>a. within (keeps_inv I) (logDebug a)"
    unfolding logDebug_def by (intro within_intros R)
  have fetch: "within (keeps_inv I) (fetchFromApi h p)" for p
    unfolding within_def keeps_inv_def
  proof (intro allI impI)
    fix s assume "I s"
    moreover have "fetchFromApi h p s = (fst (fetchFromApi h p s), snd (fetchFromApi h p s))"
      by simp
    ultimately show "I (snd (fetchFromApi h p s))"
      using process_inv_fetch[OF inv] by blast
  qed
  have len: "\<And>v. within (keeps_inv I) (stringify_length h v)"
    unfolding stringify_length_def by (simp add: within_read within_throw R split: jsval.splits)
  have ref: "\<And>v. within (keeps_inv I) (reference v)"
    unfolding reference_def by (simp add: within_unit within_throw R split: jsval.splits)
  have pr: "\<And>r. within (keeps_inv I) (printCharacterData h r)"
    "\<And>r. within (keeps_inv I) (printStarshipData h r)"
    "\<And>r. within (keeps_inv I) (printLargePlanets h r)"
    "\<And>r. within (keeps_inv I) (printVehicleData h r)"
    by (rule within_printCharacterData within_printStarshipData within_printLargePlanets
        within_printVehicleData, rule R)+
  have films: "within (keeps_inv I) (printFilmsData h r)" for r
    by (rule within_weaken[OF within_printFilmsData]) (rule logs_and_cell_keeps_inv[OF inv])
  have stats: "within (keeps_inv I) printStats"
    unfolding printStats_def by (intro within_intros R dbg)
  have handlers: "within (keeps_inv I) (handleCharacterData h)"
    "within (keeps_inv I) (handleStarshipsData h)"
    "within (keeps_inv I) (handlePlanetsData h)"
    "within (keeps_inv I) (handleFilmsData h)"
    "within (keeps_inv I) (handleVehicleData h)"
    unfolding handleCharacterData_def handleStarshipsData_def handlePlanetsData_def
      handleFilmsData_def handleVehicleData_def display_def
    by (intro within_intros R fetch len ref upd pr films)+
  have step: "within (keeps_inv I) (vehicle_step h)"
    unfolding vehicle_step_def by (intro within_intros R handlers upd)
  show ?thesis
    unfolding fetchAndDisplayStarWarsData_def run_body_def run_catch_def
    by (intro within_try within_intros R handlers step stats dbg upd)
qed

lemma evolves_keeps_inv:
  assumes "process_inv h I" and "evolves h s t" and "I s"
  shows "I t"
  using assms(2)
proof (induction rule: evolves.induct)
  case evolves_refl
  show ?case by (rule assms(3))
next
  case (evolves_fetch t resourcePath res u)
  then show ?case using process_inv_fetch[OF assms(1)] by blast
next
  case (evolves_run t res u)
  from run_keeps_inv[OF assms(1)] have "keeps_inv I t (snd (fetchAndDisplayStarWarsData h t))"
    unfolding within_def by blast
  with evolves_run show ?case by (simp add: keeps_inv_def)
next
  case (evolves_callback t c res u)
  from evolves_callback(3)
  have "u = t\<lparr>errorCount := errorCount t + 1, pending := remove1 c (pending t)\<rparr>"
    by (simp add: run_event_loop_turn)
  moreover from assms(1) have "I (x\<lparr>errorCount := n, pending := cs\<rparr>) = I x" for x n cs
    unfolding process_inv_def by simp
  ultimately show ?case using evolves_callback(4) by simp
qed

lemma initially_allocated: "cache_allocated (initial_state\<lparr>isDebugMode := dbg\<rparr>)"
  by (simp add: cache_allocated_def initial_state_def)

text \<open>
  C1, as stated, fails for a falsy parsed value: the value \<open>null\<close> is stored under the
  path, and the next fetch of the path goes to the network again and replaces the entry.
\<close>

theorem C1_counterexample:
  "fst (fetchFromApi null_host ''films/'' initial_state) = Inr (Ref 0) \<and>
   null_cached = snd (fetchFromApi null_host ''films/'' initial_state) \<and>
   requests null_cached = [''films/''] \<and>
   map_of (apiCache null_cached) ''films/'' = Some 0 \<and>
   fst (fetchFromApi null_host ''films/'' null_cached) = Inr (Ref 1) \<and>
   requests (snd (fetchFromApi null_host ''films/'' null_cached)) = [''films/'', ''films/''] \<and>
   map_of (apiCache (snd (fetchFromApi null_host ''films/'' null_cached))) ''films/'' = Some 1"
proof (intro conjI)
  show "fst (fetchFromApi null_host ''films/'' initial_state) = Inr (Ref 0)"
    by (simp add: null_first_fetch)
  show "null_cached = snd (fetchFromApi null_host ''films/'' initial_state)"
    by (simp add: null_cached_def)
  show "requests null_cached = [''films/'']"
    by (simp add: null_cached_eq)
  show "map_of (apiCache null_cached) ''films/'' = Some 0"
    by (simp add: null_cached_eq)
  show "fst (fetchFromApi null_host ''films/'' null_cached) = Inr (Ref 1)"
    by (simp add: null_refetched)
  show "requests (snd (fetchFromApi null_host ''films/'' null_cached)) = [''films/'', ''films/'']"
    by (simp add: null_refetched)
  show "map_of (apiCache (snd (fetchFromApi null_host ''films/'' null_cached))) ''films/'' = Some 1"
    by (simp add: null_refetched)
qed

text \<open>
  C1, amended: in a process that started in the initial state, a fetch of \<open>P\<close> that
  succeeds leaves its result in the cache under \<open>P\<close>; when that result is truthy, then
  after any further fetches and runs a fetch of \<open>P\<close> returns the identical value, makes
  no request, and changes neither the cache, nor a parsed value, nor a counter.
\<close>

theorem C1_truthy_entry_is_kept:
  assumes start: "evolves h (initial_state\<lparr>isDebugMode := dbg\<rparr>) s"
    and first: "fetchFromApi h P s = (Inr v, s1)"
    and truthy: "truthy_val s1 v"
    and later: "evolves h s1 s2"
    and again: "fetchFromApi h P s2 = (res, s3)"
  shows "cache_read s1 P = v \<and> cache_read s2 P = v \<and> res = Inr v \<and>
         requests s3 = requests s2 \<and> apiCache s3 = apiCache s2 \<and> heap s3 = heap s2 \<and>
         totalDataSize s3 = totalDataSize s2 \<and> errorCount s3 = errorCount s2 \<and>
         apiCallCount s3 = apiCallCount s2"
proof -
  have "cache_allocated s"
    using evolves_keeps_inv[OF process_inv_allocated start initially_allocated] .
  then have "cache_allocated s1"
    using first fetch_keeps_allocated by blast
  moreover have read: "cache_read s1 P = v"
    using fetch_ok[OF first] by simp
  ultimately have "caches P v s1"
    using truthy by (simp add: caches_def)
  then have c2: "caches P v s2"
    using evolves_keeps_inv[OF process_inv_caches later] by blast
  then have hit: "isCached s2 P"
    by (simp add: caches_def isCached_def)
  from fetch_hit[OF hit, of h] again c2 read show ?thesis
    by (auto simp: caches_def)
qed

section \<open>The cursor\<close>

lemma run_cursor:
  assumes run: "fetchAndDisplayStarWarsData h s = (res, s')"
  shows "lastCharacterId s \<le> lastCharacterId s' \<and> lastCharacterId s' \<le> lastCharacterId s + 1 \<and>
         (lastCharacterId s \<le> MAX_VEHICLE_CHARACTER_ID + 1 \<longrightarrow>
            lastCharacterId s' \<le> MAX_VEHICLE_CHARACTER_ID + 1) \<and>
         (MAX_VEHICLE_CHARACTER_ID < lastCharacterId s \<longrightarrow> lastCharacterId s' = lastCharacterId s)"
proof -
  from run_cases[OF run] obtain oc where "lastCharacterId s' = outcome_cursor s oc"
    by blast
  then show ?thesis
    by (cases oc) auto
qed

lemma run_without_vehicle:
  assumes run: "fetchAndDisplayStarWarsData h s = (res, s')"
    and over: "MAX_VEHICLE_CHARACTER_ID < lastCharacterId s"
  shows "Display Vehicle \<notin> set (drop (length (trace s)) (trace s')) \<and>
         (\<forall>x q. Fetched (''vehicles/'' @ x) q \<notin> set (drop (length (trace s)) (trace s')))"
proof -
  from run_cases[OF run] obtain oc where oc: "outcome_step oc < length (run_paths s)"
    "trace s' = trace s @ outcome_trace s oc"
    by blast
  have ex: "expected_trace s =
     [Fetched (''people/'' @ digits (lastCharacterId s)) None, Display Character,
      Fetched ''starships/?page=1'' None, Display Starships,
      Fetched ''planets/?page=1'' None, Display Planets,
      Fetched ''films/'' None, Display Films]"
    using over by (simp add: expected_trace_eq)
  have paths: "run_paths s =
     [''people/'' @ digits (lastCharacterId s), ''starships/?page=1'', ''planets/?page=1'', ''films/'']"
    using over by (simp add: run_paths_def)
  have sub: "set (take n (expected_trace s)) \<subseteq> set (expected_trace s)" for n
    by (rule set_take_subset)
  have "Display Vehicle \<notin> set (outcome_trace s oc) \<and>
        (\<forall>x q. Fetched (''vehicles/'' @ x) q \<notin> set (outcome_trace s oc))"
  proof (cases oc)
    case Completed
    then show ?thesis by (simp add: ex)
  next
    case (DisplayThrew j)
    have "Display Vehicle \<notin> set (expected_trace s)"
      "\<And>x q. Fetched (''vehicles/'' @ x) q \<notin> set (expected_trace s)"
      by (simp_all add: ex)
    with sub[of "2 * (j + 1)"] DisplayThrew show ?thesis by auto
  next
    case (FetchFailed j e)
    have "Display Vehicle \<notin> set (expected_trace s)"
      "\<And>x q. Fetched (''vehicles/'' @ x) q \<notin> set (expected_trace s)"
      by (simp_all add: ex)
    moreover from oc(1) FetchFailed have "j < 4" by (simp add: paths)
    then have "''vehicles/'' @ x \<noteq> run_paths s ! j" for x
      by (auto simp: paths nth_Cons' less_Suc_eq numeral_eq_Suc)
    ultimately show ?thesis
      using sub[of "2 * j"] FetchFailed by auto
  qed
  with oc(2) show ?thesis by simp
qed

lemma evolves_cursor:
  assumes "evolves h s t" and "1 \<le> lastCharacterId s" and "lastCharacterId s \<le> MAX_VEHICLE_CHARACTER_ID + 1"
  shows "1 \<le> lastCharacterId t \<and> lastCharacterId t \<le> MAX_VEHICLE_CHARACTER_ID + 1"
  using assms(1)
proof (induction rule: evolves.induct)
  case evolves_refl
  show ?case using assms(2,3) by simp
next
  case (evolves_fetch t resourcePath res u)
  then show ?case using fetch_frame by metis
next
  case (evolves_run t res u)
  with run_cursor[OF evolves_run(2)] show ?case by auto
next
  case (evolves_callback t c res u)
  then show ?case by (auto simp: run_event_loop_turn)
qed

text \<open>
  C3, amended: the cursor starts at 1; in a process that started in the initial state it
  is at least 1 and at most one more than \<open>MAX_VEHICLE_CHARACTER_ID\<close> (that is, at most 5)
  before and after every run; a run never decreases it and advances it by at most 1; and
  once it exceeds \<open>MAX_VEHICLE_CHARACTER_ID\<close>, a run leaves it as it is, fetches no vehicle
  and calls no vehicle display. (Runs are made one after the other.)
\<close>

theorem C3_cursor_bounds:
  assumes start: "evolves h (initial_state\<lparr>isDebugMode := dbg\<rparr>) s"
    and run: "fetchAndDisplayStarWarsData h s = (res, s')"
  shows "lastCharacterId (initial_state\<lparr>isDebugMode := dbg\<rparr>) = 1 \<and>
         1 \<le> lastCharacterId s \<and> lastCharacterId s \<le> MAX_VEHICLE_CHARACTER_ID + 1 \<and>
         lastCharacterId s \<le> lastCharacterId s' \<and> lastCharacterId s' \<le> lastCharacterId s + 1 \<and>
         lastCharacterId s' \<le> MAX_VEHICLE_CHARACTER_ID + 1 \<and>
         (MAX_VEHICLE_CHARACTER_ID < lastCharacterId s \<longrightarrow>
            lastCharacterId s' = lastCharacterId s \<and>
            Display Vehicle \<notin> set (drop (length (trace s)) (trace s')) \<and>
            (\<forall>x q. Fetched (''vehicles/'' @ x) q \<notin> set (drop (length (trace s)) (trace s'))))"
proof -
  have init: "lastCharacterId (initial_state\<lparr>isDebugMode := dbg\<rparr>) = 1"
    by (simp add: initial_state_def)
  then have s: "1 \<le> lastCharacterId s \<and> lastCharacterId s \<le> MAX_VEHICLE_CHARACTER_ID + 1"
    using evolves_cursor[OF start] by (simp add: MAX_VEHICLE_CHARACTER_ID_def)
  from init s run_cursor[OF run] run_without_vehicle[OF run] show ?thesis
    by blast
qed

lemma evolves_runs: "evolves h s (runs h n s)"
proof (induction n)
  case 0
  show ?case by (simp add: evolves_refl)
next
  case (Suc n)
  have "fetchAndDisplayStarWarsData h (runs h n s) =
          (fst (fetchAndDisplayStarWarsData h (runs h n s)), runs h (Suc n) s)"
    by simp
  with Suc show ?case by (rule evolves_run)
qed

theorem C3_cursor_bounds_witness:
  "evolves all_ok_host (initial_state\<lparr>isDebugMode := True\<rparr>) (runs all_ok_host 4 initial_state) \<and>
   MAX_VEHICLE_CHARACTER_ID < lastCharacterId (runs all_ok_host 4 initial_state) \<and>
   lastCharacterId (runs all_ok_host 4 initial_state) = 5 \<and>
   lastCharacterId (runs all_ok_host (Suc 4) initial_state) = 5 \<and>
   Display Vehicle \<notin> set (drop (length (trace (runs all_ok_host 4 initial_state)))
                                (trace (runs all_ok_host (Suc 4) initial_state)))"
proof -
  have i: "initial_state\<lparr>isDebugMode := True\<rparr> = initial_state"
    by (simp add: initial_state_def)
  have start: "evolves all_ok_host (initial_state\<lparr>isDebugMode := True\<rparr>) (runs all_ok_host 4 initial_state)"
    unfolding i by (rule evolves_runs)
  have run: "fetchAndDisplayStarWarsData all_ok_host (runs all_ok_host 4 initial_state) =
      (fst (fetchAndDisplayStarWarsData all_ok_host (runs all_ok_host 4 initial_state)),
       runs all_ok_host (Suc 4) initial_state)"
    by (simp only: runs.simps prod.collapse)
  have c: "lastCharacterId (runs all_ok_host 4 initial_state) = 5"
    using ok_runs[of 4] by simp
  from C3_cursor_bounds[OF start run] start c show ?thesis
    by (simp add: MAX_VEHICLE_CHARACTER_ID_def)
qed

section \<open>The films example\<close>

lemma films_host_simps:
  "remote films_host n ''films/'' = Responded 200 films_text"
  "JSON_parse films_host films_text = Inr (JObj [(''results'', JArr [empire, new_hope])])"
  "Date_parse films_host ''1977-05-25'' = Some 233366400000"
  "Date_parse films_host ''1980-05-17'' = Some 327369600000"
  by (simp_all add: films_host_def example_host_def example_documents_def films_text_def)

lemma films_first_fetch:
  "fetchFromApi films_host ''films/'' initial_state =
     (Inr (Ref 0),
      \<lparr>apiCache = [(''films/'', 0)],
       heap = (\<lambda>r. JNull)(0 := JObj [(''results'', JArr [empire, new_hope])]), next_ref = 1,
       isDebugMode = True, errorCount = 0, lastCharacterId = 1, apiCallCount = 0,
       totalDataSize = 0,
       console = [Log [Txt ''Successfully fetched data for films/''], Log [Txt ''Cache size: 1'']],
       requests = [''films/''], trace = [Fetched ''films/'' None], pending = []\<rparr>)"
proof -
  have t: "(200::nat) < HTTP_ERROR_THRESHOLD" by (simp add: HTTP_ERROR_THRESHOLD_def)
  show ?thesis
    using fetch_success[OF not_cached_initially films_host_simps(1) t films_host_simps(2)]
    by (simp add: initial_state_def digits.simps digit_char_def)
qed

lemma films_cached_eq:
  "films_cached =
      \<lparr>apiCache = [(''films/'', 0)],
       heap = (\<lambda>r. JNull)(0 := JObj [(''results'', JArr [empire, new_hope])]), next_ref = 1,
       isDebugMode = True, errorCount = 0, lastCharacterId = 1, apiCallCount = 0,
       totalDataSize = 0,
       console = [Log [Txt ''Successfully fetched data for films/''], Log [Txt ''Cache size: 1'']],
       requests = [''films/''], trace = [Fetched ''films/'' None], pending = []\<rparr>"
  by (simp add: films_cached_def films_first_fetch)

theorem C1_truthy_entry_is_kept_witness:
  "evolves films_host (initial_state\<lparr>isDebugMode := True\<rparr>) initial_state \<and>
   fetchFromApi films_host ''films/'' initial_state = (Inr (Ref 0), films_cached) \<and>
   truthy_val films_cached (Ref 0) \<and>
   evolves films_host films_cached (snd (fetchAndDisplayStarWarsData films_host films_cached)) \<and>
   cache_read films_cached ''films/'' = Ref 0 \<and>
   fst (fetchFromApi films_host ''films/''
          (snd (fetchAndDisplayStarWarsData films_host films_cached))) = Inr (Ref 0) \<and>
   requests (snd (fetchFromApi films_host ''films/''
          (snd (fetchAndDisplayStarWarsData films_host films_cached))))
     = requests (snd (fetchAndDisplayStarWarsData films_host films_cached))"
proof -
  let ?s2 = "snd (fetchAndDisplayStarWarsData films_host films_cached)"
  have i: "initial_state\<lparr>isDebugMode := True\<rparr> = initial_state"
    by (simp add: initial_state_def)
  have start: "evolves films_host (initial_state\<lparr>isDebugMode := True\<rparr>) initial_state"
    unfolding i by (rule evolves_refl)
  have first: "fetchFromApi films_host ''films/'' initial_state = (Inr (Ref 0), films_cached)"
    by (simp add: films_first_fetch films_cached_eq)
  have truthy: "truthy_val films_cached (Ref 0)"
    by (simp add: films_cached_eq truthy_val_def)
  have later: "evolves films_host films_cached ?s2"
    by (rule evolves_run[OF evolves_refl, of films_host films_cached
          "fst (fetchAndDisplayStarWarsData films_host films_cached)"]) simp
  have again: "fetchFromApi films_host ''films/'' ?s2 =
      (fst (fetchFromApi films_host ''films/'' ?s2), snd (fetchFromApi films_host ''films/'' ?s2))"
    by simp
  from C1_truthy_entry_is_kept[OF start first truthy later again] start first truthy later
  show ?thesis by simp
qed

section \<open>The films display\<close>

lemma compare_valid:
  assumes "release_time h a = Some x" and "release_time h b = Some y"
  shows "compare_release_dates h a b = Inr (Some (x - y))"
  using assms
  by (auto simp: release_time_def compare_release_dates_def bind_e_def
      split: sum.splits option.splits)

lemma release_key_valid: "release_time h a = Some x \<Longrightarrow> release_key h a = x"
  by (simp add: release_key_def)

lemma insert_sorted_valid:
  assumes "\<forall>f \<in> set (x # ys). release_time h f \<noteq> None"
  shows "insert_sorted (compare_release_dates h) x ys = Inr (insort_key (release_key h) x ys)"
  using assms
proof (induction ys)
  case Nil
  show ?case by simp
next
  case (Cons y ys)
  from Cons.prems obtain dx dy where d: "release_time h x = Some dx" "release_time h y = Some dy"
    by auto
  have ih: "insert_sorted (compare_release_dates h) x ys = Inr (insort_key (release_key h) x ys)"
    using Cons by simp
  show ?case
    using d ih by (simp add: compare_valid release_key_valid bind_e_def not_le)
qed

lemma Array_sort_valid:
  assumes "\<forall>f \<in> set xs. release_time h f \<noteq> None"
  shows "Array_sort (compare_release_dates h) xs = Inr (sort_key (release_key h) xs)"
  using assms
proof (induction xs)
  case Nil
  show ?case by simp
next
  case (Cons x xs)
  then have ih: "Array_sort (compare_release_dates h) xs = Inr (sort_key (release_key h) xs)"
    by simp
  have "\<forall>f \<in> set (x # sort_key (release_key h) xs). release_time h f \<noteq> None"
    using Cons.prems by simp
  from insert_sorted_valid[OF this] ih show ?case
    by (simp add: bind_e_def)
qed

lemma run_printFilmsData:
  assumes "heap s r = JObj kvs" and "map_of kvs ''results'' = Some (JArr films)"
    and "Array_sort (compare_release_dates h) films = Inr shown"
  shows "printFilmsData h r s =
     forEach printFilm shown
       (s\<lparr>heap := (heap s)(r := JObj (AList.update ''results'' (JArr shown) kvs)),
          console := console s @ [Log [Txt (nl @ ''Star Wars Films in chronological order:'')]]\<rparr>)"
  using assms
  by (simp add: printFilmsData_def run_bind run_then deref_def property_def property_e_def
      as_array_def store_results_def)

text \<open>
  C6, amended: for a films payload whose films all have a release date that parses, the
  films display works through the films in non-decreasing order of parsed release date,
  and films with the same parsed date come in their original relative order. (The order
  is also the one the \<open>results\<close> array of the payload is left in.)
\<close>

theorem C6_films_in_release_order:
  assumes "heap s r = JObj kvs" and "map_of kvs ''results'' = Some (JArr films)"
    and "\<forall>film \<in> set films. release_time h film \<noteq> None"
  shows "\<exists>shown.
           printFilmsData h r s =
             forEach printFilm shown
               (s\<lparr>heap := (heap s)(r := JObj (AList.update ''results'' (JArr shown) kvs)),
                  console := console s @
                    [Log [Txt (nl @ ''Star Wars Films in chronological order:'')]]\<rparr>) \<and>
           sorted_wrt (\<lambda>a b. \<exists>x y. release_time h a = Some x \<and> release_time h b = Some y \<and> x \<le> y)
             shown \<and>
           (\<forall>d. filter (\<lambda>film. release_time h film = Some d) shown =
                filter (\<lambda>film. release_time h film = Some d) films)"
proof -
  let ?shown = "sort_key (release_key h) films"
  have valid: "release_time h f = Some (release_key h f)" if "f \<in> set films" for f
    using that assms(3) by (auto simp: release_key_def)
  have sorted: "sorted (map (release_key h) ?shown)"
    by (rule sorted_sort_key)
  have "sorted_wrt (\<lambda>a b. release_key h a \<le> release_key h b) ?shown"
    using sorted by (simp add: sorted_map)
  then have order: "sorted_wrt (\<lambda>a b. \<exists>x y. release_time h a = Some x \<and> release_time h b = Some y \<and> x \<le> y)
      ?shown"
    by (rule sorted_wrt_mono_rel[rotated]) (use valid in auto)
  have stable: "filter (\<lambda>film. release_time h film = Some d) ?shown =
                filter (\<lambda>film. release_time h film = Some d) films" for d
  proof -
    have "filter (\<lambda>film. release_time h film = Some d) ?shown =
          filter (\<lambda>film. release_key h film = d) ?shown"
      by (rule filter_cong) (use valid in auto)
    also have "\<dots> = filter (\<lambda>film. release_key h film = d) films"
      by (rule sort_key_stable)
    also have "\<dots> = filter (\<lambda>film. release_time h film = Some d) films"
      by (rule filter_cong) (use valid in auto)
    finally show ?thesis .
  qed
  from run_printFilmsData[OF assms(1,2) Array_sort_valid[OF assms(3)]] order stable
  show ?thesis by blast
qed

lemma example_release_times:
  "release_time films_host empire = Some 327369600000"
  "release_time films_host new_hope = Some 233366400000"
  by (simp_all add: release_time_def property_e_def bind_e_def Date_value_def empire_def
      new_hope_def films_host_simps)

lemma example_sort:
  "Array_sort (compare_release_dates films_host) [empire, new_hope] = Inr [new_hope, empire]"
proof -
  have "\<forall>f \<in> set [empire, new_hope]. release_time films_host f \<noteq> None"
    by (simp add: example_release_times)
  from Array_sort_valid[OF this] show ?thesis
    by (simp add: release_key_def example_release_times)
qed

lemma example_film_lines:
  "printFilm new_hope 0 s =
     (Inr (), s\<lparr>console := console s @
        [Log [Txt ''1. A New Hope (1977-05-25)''], Log [Txt ''   Director: undefined''],
         Log [Txt ''   Producer: undefined''], Log [Txt ''   Characters: 1''],
         Log [Txt ''   Planets: 0'']]\<rparr>)"
  "printFilm empire (Suc 0) s =
     (Inr (), s\<lparr>console := console s @
        [Log [Txt ''2. The Empire Strikes Back (1980-05-17)''], Log [Txt ''   Director: undefined''],
         Log [Txt ''   Producer: undefined''], Log [Txt ''   Characters: 1''],
         Log [Txt ''   Planets: 0'']]\<rparr>)"
  by (simp_all add: printFilm_def run_bind run_then property_def property_e_def
      empire_def new_hope_def luke_def digits.simps digit_char_def)

lemma films_display:
  "printFilmsData films_host 0 films_cached =
     (Inr (),
      films_cached\<lparr>heap := (heap films_cached)(0 := JObj [(''results'', JArr [new_hope, empire])]),
        console := console films_cached @
          [Log [Txt (nl @ ''Star Wars Films in chronological order:'')],
           Log [Txt ''1. A New Hope (1977-05-25)''],
           Log [Txt ''   Director: undefined''],
           Log [Txt ''   Producer: undefined''],
           Log [Txt ''   Characters: 1''],
           Log [Txt ''   Planets: 0''],
           Log [Txt ''2. The Empire Strikes Back (1980-05-17)''],
           Log [Txt ''   Director: undefined''],
           Log [Txt ''   Producer: undefined''],
           Log [Txt ''   Characters: 1''],
           Log [Txt ''   Planets: 0'']]\<rparr>)"
proof -
  have 1: "heap films_cached 0 = JObj [(''results'', JArr [empire, new_hope])]"
    by (simp add: films_cached_eq)
  have 2: "map_of [(''results'', JArr [empire, new_hope])] ''results'' = Some (JArr [empire, new_hope])"
    by simp
  show ?thesis
    unfolding run_printFilmsData[OF 1 2 example_sort]
    by (simp add: forEach_def run_then example_film_lines)
qed

theorem C6_films_in_release_order_witness:
  "heap films_cached 0 = JObj [(''results'', JArr [empire, new_hope])] \<and>
   map_of [(''results'', JArr [empire, new_hope])] ''results'' = Some (JArr [empire, new_hope]) \<and>
   release_time films_host empire = Some 327369600000 \<and>
   release_time films_host new_hope = Some 233366400000 \<and>
   (\<exists>shown.
      printFilmsData films_host 0 films_cached =
        forEach printFilm shown
          (films_cached\<lparr>heap := (heap films_cached)
                           (0 := JObj (AList.update ''results'' (JArr shown)
                                         [(''results'', JArr [empire, new_hope])])),
             console := console films_cached @
               [Log [Txt (nl @ ''Star Wars Films in chronological order:'')]]\<rparr>) \<and>
      sorted_wrt (\<lambda>a b. \<exists>x y. release_time films_host a = Some x \<and>
                                release_time films_host b = Some y \<and> x \<le> y) shown \<and>
      (\<forall>d. filter (\<lambda>film. release_time films_host film = Some d) shown =
           filter (\<lambda>film. release_time films_host film = Some d) [empire, new_hope]))"
proof -
  have 1: "heap films_cached 0 = JObj [(''results'', JArr [empire, new_hope])]"
    by (simp add: films_cached_eq)
  have 2: "map_of [(''results'', JArr [empire, new_hope])] ''results'' = Some (JArr [empire, new_hope])"
    by simp
  have 3: "\<forall>film \<in> set [empire, new_hope]. release_time films_host film \<noteq> None"
    by (simp add: example_release_times)
  from C6_films_in_release_order[OF 1 2 3] 1 2 example_release_times show ?thesis
    by blast
qed

lemma unknown_date: "Date_parse films_host ''unknown'' = None"
  by (simp add: films_host_def example_host_def)

lemma undated_release_time: "release_time films_host holiday_special = None"
  by (simp add: release_time_def property_e_def bind_e_def Date_value_def holiday_special_def
      unknown_date)

lemma undated_sort:
  "Array_sort (compare_release_dates films_host) [empire, holiday_special, new_hope] =
     Inr [empire, holiday_special, new_hope]"
  by (simp add: compare_release_dates_def property_e_def bind_e_def Date_value_def
      empire_def holiday_special_def new_hope_def films_host_simps unknown_date)

lemma undated_film_lines:
  "printFilm empire 0 s =
     (Inr (), s\<lparr>console := console s @
        [Log [Txt ''1. The Empire Strikes Back (1980-05-17)''], Log [Txt ''   Director: undefined''],
         Log [Txt ''   Producer: undefined''], Log [Txt ''   Characters: 1''],
         Log [Txt ''   Planets: 0'']]\<rparr>)"
  "printFilm holiday_special (Suc 0) s =
     (Inr (), s\<lparr>console := console s @
        [Log [Txt ''2. The Holiday Special (unknown)''], Log [Txt ''   Director: undefined''],
         Log [Txt ''   Producer: undefined''], Log [Txt ''   Characters: 0''],
         Log [Txt ''   Planets: 0'']]\<rparr>)"
  "printFilm new_hope (Suc (Suc 0)) s =
     (Inr (), s\<lparr>console := console s @
        [Log [Txt ''3. A New Hope (1977-05-25)''], Log [Txt ''   Director: undefined''],
         Log [Txt ''   Producer: undefined''], Log [Txt ''   Characters: 1''],
         Log [Txt ''   Planets: 0'']]\<rparr>)"
  by (simp_all add: printFilm_def run_bind run_then property_def property_e_def
      empire_def new_hope_def holiday_special_def luke_def digits.simps digit_char_def)

text \<open>
  C6 as stated does not hold for every payload. A release date that does not parse
  makes the comparator give \<open>NaN\<close> against every other film, and the films are then not
  brought into the order of their dates: with the films of 1980, of unknown date and of
  1977 in this order, no comparison of two neighbours tells the sort to move a film, and
  the display lists them as they came, 1980 before 1977.
\<close>

theorem C6_counterexample:
  "release_time films_host empire = Some 327369600000 \<and>
   release_time films_host new_hope = Some 233366400000 \<and>
   printFilmsData films_host 0 undated_films =
     (Inr (),
      undated_films\<lparr>console :=
          [Log [Txt (nl @ ''Star Wars Films in chronological order:'')],
           Log [Txt ''1. The Empire Strikes Back (1980-05-17)''],
           Log [Txt ''   Director: undefined''],
           Log [Txt ''   Producer: undefined''],
           Log [Txt ''   Characters: 1''],
           Log [Txt ''   Planets: 0''],
           Log [Txt ''2. The Holiday Special (unknown)''],
           Log [Txt ''   Director: undefined''],
           Log [Txt ''   Producer: undefined''],
           Log [Txt ''   Characters: 0''],
           Log [Txt ''   Planets: 0''],
           Log [Txt ''3. A New Hope (1977-05-25)''],
           Log [Txt ''   Director: undefined''],
           Log [Txt ''   Producer: undefined''],
           Log [Txt ''   Characters: 1''],
           Log [Txt ''   Planets: 0'']]\<rparr>)"
proof -
  have 1: "heap undated_films 0 = JObj [(''results'', JArr [empire, holiday_special, new_hope])]"
    by (simp add: undated_films_def)
  have 2: "map_of [(''results'', JArr [empire, holiday_special, new_hope])] ''results'' =
      Some (JArr [empire, holiday_special, new_hope])"
    by simp
  have 3: "undated_films\<lparr>heap := (heap undated_films)
      (0 := JObj [(''results'', JArr [empire, holiday_special, new_hope])])\<rparr> = undated_films"
    by (simp add: undated_films_def)
  have 4: "console undated_films = []"
    by (simp add: undated_films_def initial_state_def)
  have 5: "undated_films\<lparr>heap := (heap undated_films)
      (0 := JObj [(''results'', JArr [empire, holiday_special, new_hope])]),
      console := console undated_films @ out\<rparr> = undated_films\<lparr>console := out\<rparr>" for out
    by (simp add: undated_films_def initial_state_def)
  have "printFilmsData films_host 0 undated_films =
     forEach printFilm [empire, holiday_special, new_hope]
       (undated_films\<lparr>console := [Log [Txt (nl @ ''Star Wars Films in chronological order:'')]]\<rparr>)"
    unfolding run_printFilmsData[OF 1 2 undated_sort]
    by (simp add: 5)
  then show ?thesis
    by (simp add: forEach_def run_then undated_film_lines example_release_times)
qed

section \<open>What the display functions change\<close>

lemma insert_sorted_count:
  "insert_sorted cmp x ys = Inr zs \<Longrightarrow> count_list zs a = count_list (x # ys) a"
proof (induction ys arbitrary: zs)
  case Nil
  then show ?case by auto
next
  case (Cons y ys)
  show ?case
  proof (cases "cmp x y")
    case (Inl e)
    with Cons.prems show ?thesis by (simp add: bind_e_def)
  next
    case (Inr c)
    show ?thesis
    proof (cases "case c of Some d \<Rightarrow> d > 0 | None \<Rightarrow> False")
      case False
      with Cons.prems Inr show ?thesis by (auto simp: bind_e_def)
    next
      case True
      with Cons.prems Inr obtain ws where ws: "insert_sorted cmp x ys = Inr ws" "zs = y # ws"
        by (auto simp: bind_e_def split: sum.splits)
      from Cons.IH[OF ws(1)] ws(2) show ?thesis by simp
    qed
  qed
qed

lemma Array_sort_count:
  "Array_sort cmp xs = Inr ys \<Longrightarrow> count_list ys a = count_list xs a"
proof (induction xs arbitrary: ys)
  case Nil
  then show ?case by simp
next
  case (Cons x xs)
  from Cons.prems obtain ws where ws: "Array_sort cmp xs = Inr ws" "insert_sorted cmp x ws = Inr ys"
    by (auto simp: bind_e_def split: sum.splits)
  from insert_sorted_count[OF ws(2), of a] Cons.IH[OF ws(1)] show ?case by simp
qed

lemma logs_only_printer:
  assumes "within logs_only m"
  shows "\<exists>out. snd (m s) = s\<lparr>console := console s @ out\<rparr>"
  using assms by (simp add: within_def logs_only_def)

lemma printFilmsData_throws_early:
  assumes "\<not> (\<exists>kvs films shown. heap s r = JObj kvs \<and> map_of kvs ''results'' = Some (JArr films) \<and>
              Array_sort (compare_release_dates h) films = Inr shown)"
  shows "snd (printFilmsData h r s) = s"
proof (cases "heap s r")
  case (JObj kvs)
  show ?thesis
  proof (cases "map_of kvs ''results''")
    case None
    with JObj show ?thesis
      by (simp add: printFilmsData_def run_bind deref_def property_def property_e_def as_array_def)
  next
    case (Some v)
    show ?thesis
    proof (cases v)
      case (JArr films)
      with assms JObj Some obtain e where "Array_sort (compare_release_dates h) films = Inl e"
        by (cases "Array_sort (compare_release_dates h) films") auto
      with JObj Some JArr show ?thesis
        by (simp add: printFilmsData_def run_bind deref_def property_def property_e_def as_array_def)
    qed (use JObj Some in \<open>simp_all add: printFilmsData_def run_bind deref_def property_def
          property_e_def as_array_def\<close>)
  qed
qed (simp_all add: printFilmsData_def run_bind deref_def property_def property_e_def as_array_def)

text \<open>
  C8, as stated, fails for the films display: \<open>sort\<close> works in place, on the array of
  the payload, and the payload is the cached value. After the display the cached films
  list is in release order, not in the order in which it was fetched.
\<close>

theorem C8_counterexample:
  "map_of (apiCache films_cached) ''films/'' = Some 0 \<and>
   heap films_cached 0 = JObj [(''results'', JArr [empire, new_hope])] \<and>
   heap (snd (printFilmsData films_host 0 films_cached)) 0 = JObj [(''results'', JArr [new_hope, empire])] \<and>
   heap (snd (printFilmsData films_host 0 films_cached)) 0 \<noteq> heap films_cached 0"
proof -
  have "empire \<noteq> new_hope"
    by (simp add: empire_def new_hope_def)
  then show ?thesis
    by (simp add: films_display) (simp add: films_cached_eq)
qed

text \<open>
  C8, amended: the display functions for a character, the starships, the planets and a
  vehicle add lines to the console and change nothing else: not the cache, not a
  counter, not a parsed value. The films display adds lines to the console and changes
  at most the cell of its payload, and that only by replacing the \<open>results\<close> array with
  a sorted rearrangement of its elements.
\<close>

theorem C8_display_frame:
  "(\<exists>out. snd (printCharacterData h r s) = s\<lparr>console := console s @ out\<rparr>) \<and>
   (\<exists>out. snd (printStarshipData h r s) = s\<lparr>console := console s @ out\<rparr>) \<and>
   (\<exists>out. snd (printLargePlanets h r s) = s\<lparr>console := console s @ out\<rparr>) \<and>
   (\<exists>out. snd (printVehicleData h r s) = s\<lparr>console := console s @ out\<rparr>) \<and>
   (\<exists>out cell.
      snd (printFilmsData h r s) = s\<lparr>console := console s @ out, heap := (heap s)(r := cell)\<rparr> \<and>
      (cell = heap s r \<or>
       (\<exists>kvs films shown.
          heap s r = JObj kvs \<and> map_of kvs ''results'' = Some (JArr films) \<and>
          Array_sort (compare_release_dates h) films = Inr shown \<and>
          (\<forall>film. count_list shown film = count_list films film) \<and>
          cell = JObj (AList.update ''results'' (JArr shown) kvs))))"
proof (intro conjI)
  show "\<exists>out. snd (printCharacterData h r s) = s\<lparr>console := console s @ out\<rparr>"
    by (rule logs_only_printer) (rule within_printCharacterData[OF frame_rel_logs_only])
  show "\<exists>out. snd (printStarshipData h r s) = s\<lparr>console := console s @ out\<rparr>"
    by (rule logs_only_printer) (rule within_printStarshipData[OF frame_rel_logs_only])
  show "\<exists>out. snd (printLargePlanets h r s) = s\<lparr>console := console s @ out\<rparr>"
    by (rule logs_only_printer) (rule within_printLargePlanets[OF frame_rel_logs_only])
  show "\<exists>out. snd (printVehicleData h r s) = s\<lparr>console := console s @ out\<rparr>"
    by (rule logs_only_printer) (rule within_printVehicleData[OF frame_rel_logs_only])
  show "\<exists>out cell.
      snd (printFilmsData h r s) = s\<lparr>console := console s @ out, heap := (heap s)(r := cell)\<rparr> \<and>
      (cell = heap s r \<or>
       (\<exists>kvs films shown.
          heap s r = JObj kvs \<and> map_of kvs ''results'' = Some (JArr films) \<and>
          Array_sort (compare_release_dates h) films = Inr shown \<and>
          (\<forall>film. count_list shown film = count_list films film) \<and>
          cell = JObj (AList.update ''results'' (JArr shown) kvs)))"
  proof (cases "\<exists>kvs films shown. heap s r = JObj kvs \<and> map_of kvs ''results'' = Some (JArr films) \<and>
              Array_sort (compare_release_dates h) films = Inr shown")
    case False
    from printFilmsData_throws_early[OF False]
    have "snd (printFilmsData h r s) = s\<lparr>console := console s @ [], heap := (heap s)(r := heap s r)\<rparr>"
      by simp
    then show ?thesis by blast
  next
    case True
    then obtain kvs films shown where c: "heap s r = JObj kvs"
      "map_of kvs ''results'' = Some (JArr films)"
      "Array_sort (compare_release_dates h) films = Inr shown"
      by blast
    define s1 where "s1 = s\<lparr>heap := (heap s)(r := JObj (AList.update ''results'' (JArr shown) kvs)),
          console := console s @ [Log [Txt (nl @ ''Star Wars Films in chronological order:'')]]\<rparr>"
    have "within logs_only (forEach printFilm shown)"
      by (intro within_forEach within_printFilm frame_rel_logs_only)
    from logs_only_printer[OF this, of s1] obtain out
      where "snd (forEach printFilm shown s1) = s1\<lparr>console := console s1 @ out\<rparr>"
      by blast
    then have "snd (printFilmsData h r s) =
        s\<lparr>console := console s @ (Log [Txt (nl @ ''Star Wars Films in chronological order:'')] # out),
          heap := (heap s)(r := JObj (AList.update ''results'' (JArr shown) kvs))\<rparr>"
      by (simp add: run_printFilmsData[OF c] s1_def)
    moreover have "\<forall>film. count_list shown film = count_list films film"
      using Array_sort_count[OF c(3)] by simp
    ultimately show ?thesis
      using c by blast
  qed
qed

section \<open>The planets display\<close>

lemma isLargeAndPopulated_true:
  assumes "isLargeAndPopulated planet s = (Inr True, s')"
  shows "s' = s \<and> get planet ''population'' \<noteq> Some (JStr ''unknown'') \<and>
         parses_above (get planet ''population'') MIN_POPULATION \<and>
         get planet ''diameter'' \<noteq> Some (JStr ''unknown'') \<and>
         parses_above (get planet ''diameter'') MIN_DIAMETER"
proof (cases "planet = JNull")
  case True
  with assms show ?thesis
    by (simp add: isLargeAndPopulated_def run_bind property_def property_e_def)
next
  case False
  then have p: "property_e (Some planet) k = Inr (get planet k)" for k
    by (cases planet) (simp_all add: property_e_def)
  from assms show ?thesis
    by (auto simp: isLargeAndPopulated_def run_bind property_def p parses_above_def
        split: sum.splits option.splits)
qed

lemma isLargeAndPopulated_state: "snd (isLargeAndPopulated planet s) = s"
proof -
  have "within logs_only (isLargeAndPopulated planet)"
    by (rule within_isLargeAndPopulated[OF frame_rel_logs_only])
  then obtain out where o: "snd (isLargeAndPopulated planet s) = s\<lparr>console := console s @ out\<rparr>"
    using logs_only_printer by blast
  have "console (snd (isLargeAndPopulated planet s)) = console s"
    by (simp add: isLargeAndPopulated_def run_bind property_def split: sum.splits)
  with o show ?thesis by simp
qed

lemma printPlanetDetails_lines:
  assumes "printPlanetDetails h planet s = (res, s')"
  shows "\<exists>out. console s' = console s @ out \<and> (\<forall>l \<in> set out. is_planet_line l \<longrightarrow> l = planet_line planet)"
proof (cases "planet = JNull")
  case True
  with assms have "s' = s"
    by (simp add: printPlanetDetails_def run_bind property_def property_e_def)
  then show ?thesis by simp
next
  case False
  then have p: "property_e (Some planet) k = Inr (get planet k)" for k
    by (cases planet) (simp_all add: property_e_def)
  from assms show ?thesis
    by (auto simp: printPlanetDetails_def run_bind run_then property_def p planet_line_def
        is_planet_line_def split: sum.splits if_splits)
qed

lemma printPlanet_lines:
  assumes "printPlanet h planet i s = (res, s')"
  shows "\<exists>out. console s' = console s @ out \<and>
           (\<forall>l \<in> set out. is_planet_line l \<longrightarrow>
              l = planet_line planet \<and>
              parses_above (get planet ''population'') MIN_POPULATION \<and>
              parses_above (get planet ''diameter'') MIN_DIAMETER)"
proof (cases "isLargeAndPopulated planet s")
  case (Pair large t)
  have t: "t = s" using isLargeAndPopulated_state[of planet s] Pair by simp
  show ?thesis
  proof (cases "large = Inr True")
    case True
    with Pair t assms have "printPlanetDetails h planet s = (res, s')"
      by (simp add: printPlanet_def run_bind)
    from printPlanetDetails_lines[OF this] isLargeAndPopulated_true[of planet s s] Pair True t
    show ?thesis by auto
  next
    case False
    with Pair t assms have "s' = s"
      by (cases large) (auto simp: printPlanet_def run_bind)
    then show ?thesis by simp
  qed
qed

lemma forEach_from_lines:
  assumes f: "\<And>x i t res t'. f x i t = (res, t') \<Longrightarrow>
                \<exists>out. console t' = console t @ out \<and> (\<forall>l \<in> set out. Q l \<longrightarrow> P x l)"
    and run: "forEach_from f i xs s = (res, s')"
  shows "\<exists>out. console s' = console s @ out \<and> (\<forall>l \<in> set out. Q l \<longrightarrow> (\<exists>x \<in> set xs. P x l))"
  using run
proof (induction xs arbitrary: i s)
  case Nil
  then show ?case by simp
next
  case (Cons x xs)
  obtain r1 t where step: "f x i t0 = (r1, t)" if "t0 = s" for t0
    by (metis surj_pair)
  then have fx: "f x i s = (r1, t)" by simp
  from f[OF fx] obtain out1 where o1: "console t = console s @ out1"
    "\<forall>l \<in> set out1. Q l \<longrightarrow> P x l"
    by blast
  show ?case
  proof (cases r1)
    case (Inl e)
    with Cons.prems fx have "s' = t" by (simp add: run_then)
    with o1 show ?thesis by auto
  next
    case (Inr u)
    with Cons.prems fx have "forEach_from f (Suc i) xs t = (res, s')"
      by (simp add: run_then)
    from Cons.IH[OF this] obtain out2 where o2: "console s' = console t @ out2"
      "\<forall>l \<in> set out2. Q l \<longrightarrow> (\<exists>x \<in> set xs. P x l)"
      by blast
    have "console s' = console s @ (out1 @ out2)"
      using o1(1) o2(1) by simp
    moreover have "\<forall>l \<in> set (out1 @ out2). Q l \<longrightarrow> (\<exists>y \<in> set (x # xs). P y l)"
      using o1(2) o2(2) by auto
    ultimately show ?thesis by blast
  qed
qed

lemma printLargePlanets_lines:
  assumes "printLargePlanets h r s = (res, s')"
  shows "\<forall>l \<in> set (drop (length (console s)) (console s')). is_planet_line l \<longrightarrow>
           (\<exists>planets planet. get (heap s r) ''results'' = Some (JArr planets) \<and>
              planet \<in> set planets \<and> l = planet_line planet \<and>
              parses_above (get planet ''population'') MIN_POPULATION \<and>
              parses_above (get planet ''diameter'') MIN_DIAMETER)"
proof (cases "\<exists>planets. heap s r \<noteq> JNull \<and> get (heap s r) ''results'' = Some (JArr planets)")
  case False
  then have "console s' = console s @ [Log [Txt (nl @ ''Large populated planets:'')]]"
    using assms
    by (cases "heap s r = JNull"; cases "get (heap s r) ''results''")
       (auto simp: printLargePlanets_def run_bind run_then deref_def property_def property_e_def
        as_array_def split: json.splits option.splits)
  then show ?thesis by (simp add: is_planet_line_def)
next
  case True
  then obtain planets where p: "heap s r \<noteq> JNull" "get (heap s r) ''results'' = Some (JArr planets)"
    by blast
  define s1 where "s1 = s\<lparr>console := console s @ [Log [Txt (nl @ ''Large populated planets:'')]]\<rparr>"
  have "property_e (Some (heap s r)) ''results'' = Inr (Some (JArr planets))"
    using p by (cases "heap s r") (simp_all add: property_e_def)
  with assms have fe: "forEach_from (printPlanet h) 0 planets s1 = (res, s')"
    by (simp add: printLargePlanets_def run_bind run_then deref_def property_def as_array_def
        forEach_def s1_def)
  have each: "\<exists>out. console t' = console t @ out \<and>
      (\<forall>l \<in> set out. is_planet_line l \<longrightarrow>
         l = planet_line x \<and> parses_above (get x ''population'') MIN_POPULATION \<and>
         parses_above (get x ''diameter'') MIN_DIAMETER)"
    if "printPlanet h x i t = (res', t')" for x i t res' t'
    using that by (rule printPlanet_lines)
  have "\<exists>out. console s' = console s1 @ out \<and>
      (\<forall>l \<in> set out. is_planet_line l \<longrightarrow>
         (\<exists>x \<in> set planets. l = planet_line x \<and>
            parses_above (get x ''population'') MIN_POPULATION \<and>
            parses_above (get x ''diameter'') MIN_DIAMETER))"
    by (rule forEach_from_lines[where f = "printPlanet h" and i = 0 and res = res]) (fact each fe)+
  then obtain out where out: "console s' = console s1 @ out"
    "\<forall>l \<in> set out. is_planet_line l \<longrightarrow> (\<exists>planet \<in> set planets. l = planet_line planet \<and>
              parses_above (get planet ''population'') MIN_POPULATION \<and>
              parses_above (get planet ''diameter'') MIN_DIAMETER)"
    by blast
  have "drop (length (console s)) (console s') = Log [Txt (nl @ ''Large populated planets:'')] # out"
    using out(1) by (simp add: s1_def)
  with out(2) p(2) show ?thesis
    by (auto simp: is_planet_line_def)
qed

text \<open>
  C5: every planet line of the planets display is the line of a planet of the payload
  whose population parses to a number strictly greater than 1,000,000,000 and whose
  diameter parses to a number strictly greater than 10,000. In particular the display
  has no line for a planet whose population parses to exactly 1,000,000,000, and none
  for a planet whose population is \<open>unknown\<close>, whatever its diameter.
\<close>

theorem C5_only_large_populated_planets:
  assumes "printLargePlanets h r s = (res, s')"
  shows "(\<forall>l \<in> set (drop (length (console s)) (console s')). is_planet_line l \<longrightarrow>
           (\<exists>planets planet. get (heap s r) ''results'' = Some (JArr planets) \<and>
              planet \<in> set planets \<and> l = planet_line planet \<and>
              parses_above (get planet ''population'') 1000000000 \<and>
              parses_above (get planet ''diameter'') 10000)) \<and>
         (\<forall>planet. parseInt (get planet ''population'') = Inr (Some 1000000000) \<longrightarrow>
            planet_line planet \<notin> set (drop (length (console s)) (console s'))) \<and>
         (\<forall>planet. get planet ''population'' = Some (JStr ''unknown'') \<longrightarrow>
            planet_line planet \<notin> set (drop (length (console s)) (console s')))"
proof -
  note lines = printLargePlanets_lines[OF assms, unfolded MIN_POPULATION_def MIN_DIAMETER_def]
  have pl: "is_planet_line (planet_line planet)" for planet
    by (simp add: is_planet_line_def planet_line_def)
  have same: "get p ''population'' = get q ''population''" if "planet_line p = planet_line q" for p q
    using that by (simp add: planet_line_def)
  have shown: "parses_above (get planet ''population'') 1000000000"
    if "planet_line planet \<in> set (drop (length (console s)) (console s'))" for planet
  proof -
    from lines that pl obtain q where "planet_line planet = planet_line q"
      "parses_above (get q ''population'') 1000000000"
      by blast
    with same show ?thesis by metis
  qed
  have exact: "planet_line planet \<notin> set (drop (length (console s)) (console s'))"
    if "parseInt (get planet ''population'') = Inr (Some 1000000000)" for planet
    using shown[of planet] that by (auto simp: parses_above_def)
  have "parseInt (Some (JStr ''unknown'')) = Inr None"
    by code_simp
  then have unknown: "planet_line planet \<notin> set (drop (length (console s)) (console s'))"
    if "get planet ''population'' = Some (JStr ''unknown'')" for planet
    using shown[of planet] that by (auto simp: parses_above_def)
  from lines exact unknown show ?thesis by blast
qed

lemma parse_examples:
  "parseInt (Some (JStr ''1000000000'')) = Inr (Some 1000000000)"
  "parseInt (Some (JStr ''1000000000000'')) = Inr (Some 1000000000000)"
  "parseInt (Some (JStr ''12240'')) = Inr (Some 12240)"
  "parseInt (Some (JStr ''unknown'')) = Inr None"
  "parseInt (Some (JStr ''118000'')) = Inr (Some 118000)"
  "parseInt (Some (JStr ''200000'')) = Inr (Some 200000)"
  "parseInt (Some (JStr ''10465'')) = Inr (Some 10465)"
  by code_simp+

lemma planets_display:
  "printLargePlanets all_ok_host 0 planets_state =
     (Inr (),
      planets_state\<lparr>console :=
        [Log [Txt (nl @ ''Large populated planets:'')], planet_line coruscant]\<rparr>)"
  by (simp add: printLargePlanets_def printPlanet_def isLargeAndPopulated_def
      printPlanetDetails_def run_bind run_then deref_def property_def property_e_def as_array_def
      forEach_def planets_state_def initial_state_def coruscant_def borderline_def bespin_def
      tatooine_def parse_examples js_gt_zero_def length_of_def MIN_POPULATION_def
      MIN_DIAMETER_def planet_line_def)

theorem C5_only_large_populated_planets_witness:
  "printLargePlanets all_ok_host 0 planets_state =
     (Inr (), planets_state\<lparr>console :=
        [Log [Txt (nl @ ''Large populated planets:'')], planet_line coruscant]\<rparr>) \<and>
   get (heap planets_state 0) ''results'' = Some (JArr [coruscant, borderline, bespin, tatooine]) \<and>
   is_planet_line (planet_line coruscant) \<and>
   parses_above (get coruscant ''population'') 1000000000 \<and>
   parses_above (get coruscant ''diameter'') 10000 \<and>
   parseInt (get borderline ''population'') = Inr (Some 1000000000) \<and>
   planet_line borderline \<notin> set [Log [Txt (nl @ ''Large populated planets:'')], planet_line coruscant] \<and>
   get bespin ''population'' = Some (JStr ''unknown'') \<and>
   planet_line bespin \<notin> set [Log [Txt (nl @ ''Large populated planets:'')], planet_line coruscant]"
proof -
  let ?s' = "planets_state\<lparr>console :=
        [Log [Txt (nl @ ''Large populated planets:'')], planet_line coruscant]\<rparr>"
  have run: "printLargePlanets all_ok_host 0 planets_state = (Inr (), ?s')"
    by (rule planets_display)
  have new: "drop (length (console planets_state)) (console ?s') =
      [Log [Txt (nl @ ''Large populated planets:'')], planet_line coruscant]"
    by (simp add: planets_state_def initial_state_def)
  have b: "parseInt (get borderline ''population'') = Inr (Some 1000000000)"
    by (simp add: borderline_def parse_examples)
  have u: "get bespin ''population'' = Some (JStr ''unknown'')"
    by (simp add: bespin_def)
  have c: "is_planet_line (planet_line coruscant)"
    "parses_above (get coruscant ''population'') 1000000000"
    "parses_above (get coruscant ''diameter'') 10000"
    "get (heap planets_state 0) ''results'' = Some (JArr [coruscant, borderline, bespin, tatooine])"
    by (simp_all add: is_planet_line_def planet_line_def parses_above_def coruscant_def
        parse_examples planets_state_def)
  from C5_only_large_populated_planets[OF run] b u
  have "planet_line borderline \<notin> set (drop (length (console planets_state)) (console ?s'))"
    "planet_line bespin \<notin> set (drop (length (console planets_state)) (console ?s'))"
    by blast+
  with run b u c show ?thesis
    by (simp only: new) simp
qed

end
